theory Spec2Isabelle
  imports Main
begin

section \<open>Python strings and numbers\<close>

text \<open>
  A string is the list of its code points, each below 256. The functions below are the
  Python operations the engine calls: \<^verbatim>\<open>str(n)\<close>, \<^verbatim>\<open>int(s)\<close>,
  \<^verbatim>\<open>s.zfill(w)\<close> (the zeros go after a leading sign), \<^verbatim>\<open>s.replace(old, new)\<close>
  (literal, every non-overlapping occurrence from the left; the engine only calls it with
  a non-empty \<^verbatim>\<open>old\<close>), \<^verbatim>\<open>s.split(sep)\<close> with a one-character separator and
  \<^verbatim>\<open>s.strip()\<close>, which removes the white space of \<^verbatim>\<open>str.isspace\<close>: below 256 these
  are the ASCII white space, the four separators 0x1C to 0x1F, NEL (0x85) and the
  no-break space (0xA0).
\<close>

definition digit_char :: "nat \<Rightarrow> char" where
  "digit_char d = (''0123456789'' ! d)"

definition is_digit :: "char \<Rightarrow> bool" where
  "is_digit c = (c \<in> set ''0123456789'')"

definition digit_val :: "char \<Rightarrow> nat" where
  "digit_val c = (of_char c) - 48"

function str_of_nat :: "nat \<Rightarrow> string" where
  "str_of_nat n =
     (if n < 10 then [digit_char n] else str_of_nat (n div 10) @ [digit_char (n mod 10)])"
  by pat_completeness auto
termination
  by (relation "measure id") auto

declare str_of_nat.simps [simp del]

definition nat_of_digits :: "string \<Rightarrow> nat" where
  "nat_of_digits ds = foldl (\<lambda>acc c. 10 * acc + digit_val c) 0 ds"

definition is_sign :: "char \<Rightarrow> bool" where
  "is_sign c = (c = CHR ''+'' \<or> c = CHR ''-'')"

definition zfill :: "nat \<Rightarrow> string \<Rightarrow> string" where
  "zfill w s =
     (case s of
        [] \<Rightarrow> replicate w (CHR ''0'')
      | c # r \<Rightarrow>
          (if is_sign c then c # replicate (w - length s) (CHR ''0'') @ r
           else replicate (w - length s) (CHR ''0'') @ s))"

definition py_str :: "int \<Rightarrow> string" where
  "py_str i = (if i < 0 then CHR ''-'' # str_of_nat (nat (- i)) else str_of_nat (nat i))"

function replace_all :: "string \<Rightarrow> string \<Rightarrow> string \<Rightarrow> string" where
  "replace_all old new [] = []"
| "replace_all old new (c # cs) =
     (if old \<noteq> [] \<and> take (length old) (c # cs) = old
      then new @ replace_all old new (drop (length old) (c # cs))
      else c # replace_all old new cs)"
  by pat_completeness auto
termination
  by (relation "measure (\<lambda>(old, new, s). length s)") (auto simp: neq_Nil_conv)

fun split_on :: "char \<Rightarrow> string \<Rightarrow> string list" where
  "split_on sep [] = [[]]"
| "split_on sep (c # cs) =
     (if c = sep then [] # split_on sep cs
      else (case split_on sep cs of [] \<Rightarrow> [[c]] | w # ws \<Rightarrow> (c # w) # ws))"

definition is_space :: "char \<Rightarrow> bool" where
  "is_space c = (c \<in> set [CHR '' '', CHR 0x09, CHR 0x0A, CHR 0x0B, CHR 0x0C, CHR 0x0D,
                            CHR 0x1C, CHR 0x1D, CHR 0x1E, CHR 0x1F, CHR 0x85, CHR 0xA0])"

definition strip :: "string \<Rightarrow> string" where
  "strip s = rev (dropWhile is_space (rev (dropWhile is_space s)))"

text \<open>
  A Python \<^verbatim>\<open>dict\<close> built from key/value pairs: a later pair with a key already
  present overwrites the value in place, a new key is appended.
\<close>

fun dict_set :: "('k \<times> 'v) list \<Rightarrow> 'k \<Rightarrow> 'v \<Rightarrow> ('k \<times> 'v) list" where
  "dict_set [] k v = [(k, v)]"
| "dict_set ((k', v') # kvs) k v =
     (if k' = k then (k, v) # kvs else (k', v') # dict_set kvs k v)"

definition py_dict :: "('k \<times> 'v) list \<Rightarrow> ('k \<times> 'v) list" where
  "py_dict kvs = foldl (\<lambda>d kv. dict_set d (fst kv) (snd kv)) [] kvs"

definition dict_get :: "('k \<times> 'v) list \<Rightarrow> 'k \<Rightarrow> 'v option" where
  "dict_get d k = map_of d k"

datatype error =
    ValueError | KeyError | IndexError | OverflowError
  | NumericValueOutOfRange | InvalidTextRepresentation | UniqueViolation

text \<open>
  \<^verbatim>\<open>int(s)\<close> in base ten: white space around the number is dropped, one sign may
  lead, and the rest is decimal digits with single underscores allowed between two digits;
  anything else is a ValueError.
\<close>

fun digit_groups :: "string \<Rightarrow> bool" where
  "digit_groups [] = False"
| "digit_groups [c] = is_digit c"
| "digit_groups (c # d # cs) =
     (is_digit c \<and> (if d = CHR ''_'' then digit_groups cs else digit_groups (d # cs)))"

definition py_int :: "string \<Rightarrow> error + int" where
  "py_int s =
     (let t = strip s;
          body = (case t of [] \<Rightarrow> [] | c # r \<Rightarrow> if is_sign c then r else t);
          magnitude = int (nat_of_digits (filter is_digit body))
      in if digit_groups body
         then Inr (if take 1 t = ''-'' then - magnitude else magnitude)
         else Inl ValueError)"


section \<open>Calendar: Python's \<^verbatim>\<open>datetime.date\<close> on day ordinals\<close>

text \<open>
  A date is its proleptic Gregorian ordinal, day 1 being 0001-01-01 and
  \<open>MAXORDINAL\<close> being 9999-12-31, the last date the type holds. The functions follow
  the library: \<^verbatim>\<open>_ord2ymd\<close>, \<^verbatim>\<open>weekday\<close>, \<^verbatim>\<open>_days_before_year\<close>,
  \<^verbatim>\<open>_isoweek1monday\<close> and \<^verbatim>\<open>isocalendar\<close>; month and day names are those of
  \<^verbatim>\<open>strftime\<close> in the C locale. Adding a day to \<open>MAXORDINAL\<close> raises OverflowError.
\<close>

definition MAXORDINAL :: int where
  "MAXORDINAL = 3652059"

definition days_before_month :: "int \<Rightarrow> int" where
  "days_before_month m = [0, 31, 59, 90, 120, 151, 181, 212, 243, 273, 304, 334] ! nat (m - 1)"

definition days_in_month :: "int \<Rightarrow> int" where
  "days_in_month m = [31, 28, 31, 30, 31, 30, 31, 31, 30, 31, 30, 31] ! nat (m - 1)"

definition ord2ymd :: "int \<Rightarrow> int \<times> int \<times> int" where
  "ord2ymd ordinal =
     (let n = ordinal - 1;
          n400 = n div 146097; r400 = n mod 146097;
          n100 = r400 div 36524; r100 = r400 mod 36524;
          n4 = r100 div 1461; r4 = r100 mod 1461;
          n1 = r4 div 365; r1 = r4 mod 365;
          year = n400 * 400 + 1 + n100 * 100 + n4 * 4 + n1
      in if n1 = 4 \<or> n100 = 4 then (year - 1, 12, 31)
         else
           (let leapyear = (n1 = 3 \<and> (n4 \<noteq> 24 \<or> n100 = 3));
                month = (r1 + 50) div 32;
                preceding = days_before_month month + (if 2 < month \<and> leapyear then 1 else 0)
            in if r1 < preceding
               then (let month' = month - 1;
                         preceding' = preceding -
                           (days_in_month month' + (if month' = 2 \<and> leapyear then 1 else 0))
                     in (year, month', r1 - preceding' + 1))
               else (year, month, r1 - preceding + 1)))"

definition date_year :: "int \<Rightarrow> int" where
  "date_year d = fst (ord2ymd d)"

definition date_month :: "int \<Rightarrow> int" where
  "date_month d = fst (snd (ord2ymd d))"

definition date_day :: "int \<Rightarrow> int" where
  "date_day d = snd (snd (ord2ymd d))"

definition weekday :: "int \<Rightarrow> int" where
  "weekday d = (d + 6) mod 7"

definition days_before_year :: "int \<Rightarrow> int" where
  "days_before_year year = (let y = year - 1 in y * 365 + y div 4 - y div 100 + y div 400)"

definition isoweek1monday :: "int \<Rightarrow> int" where
  "isoweek1monday year =
     (let firstday = days_before_year year + 1;
          firstweekday = (firstday + 6) mod 7;
          week1monday = firstday - firstweekday
      in if 3 < firstweekday then week1monday + 7 else week1monday)"

definition iso_week :: "int \<Rightarrow> int" where
  "iso_week d =
     (let year = date_year d;
          week = (d - isoweek1monday year) div 7
      in if week < 0 then (d - isoweek1monday (year - 1)) div 7 + 1
         else if 52 \<le> week \<and> isoweek1monday (year + 1) \<le> d then 1
         else week + 1)"

definition month_names :: "string list" where
  "month_names =
     [''January'', ''February'', ''March'', ''April'', ''May'', ''June'', ''July'', ''August'',
      ''September'', ''October'', ''November'', ''December'']"

definition day_names :: "string list" where
  "day_names =
     [''Monday'', ''Tuesday'', ''Wednesday'', ''Thursday'', ''Friday'', ''Saturday'', ''Sunday'']"

text \<open>\<^verbatim>\<open>int(d.strftime('%Y%m%d'))\<close>, and \<^verbatim>\<open>TO_CHAR(d, 'YYYYMMDD')::INTEGER\<close> in SQL.\<close>

definition yyyymmdd :: "int \<Rightarrow> int" where
  "yyyymmdd d = date_year d * 10000 + date_month d * 100 + date_day d"

definition date_add_day :: "int \<Rightarrow> error + int" where
  "date_add_day d = (if MAXORDINAL < d + 1 then Inl OverflowError else Inr (d + 1))"

text \<open>
  A datetime is a number of microseconds, the day ordinal times the microseconds of a day
  plus the time of day, from 0001-01-01 00:00 to the last microsecond of 9999-12-31.
  \<^verbatim>\<open>t - timedelta(days=n)\<close> raises OverflowError when \<open>n\<close> is beyond 999999999 in
  magnitude or the result is outside that range.
\<close>

definition us_per_hour :: int where
  "us_per_hour = 3600000000"

definition us_per_day :: int where
  "us_per_day = 86400000000"

definition date_of_datetime :: "int \<Rightarrow> int" where
  "date_of_datetime t = t div us_per_day"

definition datetime_sub_days :: "int \<Rightarrow> int \<Rightarrow> error + int" where
  "datetime_sub_days t days =
     (let r = t - days * us_per_day
      in if 999999999 < \<bar>days\<bar> \<or> r < us_per_day \<or> (MAXORDINAL + 1) * us_per_day \<le> r
         then Inl OverflowError
         else Inr r)"


section \<open>Warehouse QA engine (part3\_analytics/run\_warehouse\_qa.py)\<close>

text \<open>
  The database server is a parameter: \<open>server sql\<close> is what executing \<open>sql\<close> in a
  healthy transaction gives, either an exception with its message or the column names of
  \<^verbatim>\<open>cursor.description\<close> with the rows of \<^verbatim>\<open>cursor.fetchall()\<close>. The connection
  carries the transaction status of the PostgreSQL driver: a statement that fails leaves
  the transaction aborted, and every later statement fails until \<^verbatim>\<open>conn.rollback()\<close>.
\<close>

datatype sql_value = SqlNull | SqlInt int | SqlText string

datatype exec_outcome = Raised string | Fetched "string list" "sql_value list list"

record connection =
  in_failed_tx :: bool
  rollbacks :: nat

definition new_connection :: connection where
  "new_connection = \<lparr>in_failed_tx = False, rollbacks = 0\<rparr>"

definition aborted_message :: string where
  "aborted_message =
     ''current transaction is aborted, commands ignored until end of transaction block''"

definition cursor_execute ::
  "(string \<Rightarrow> exec_outcome) \<Rightarrow> connection \<Rightarrow> string \<Rightarrow> exec_outcome \<times> connection" where
  "cursor_execute server conn sql =
     (if in_failed_tx conn then (Raised aborted_message, conn)
      else (case server sql of
              Raised m \<Rightarrow> (Raised m, conn\<lparr>in_failed_tx := True\<rparr>)
            | Fetched cols rows \<Rightarrow> (Fetched cols rows, conn)))"

definition conn_rollback :: "connection \<Rightarrow> connection" where
  "conn_rollback conn = conn\<lparr>in_failed_tx := False, rollbacks := Suc (rollbacks conn)\<rparr>"

datatype qa_output = OutText string | OutRows "(string \<times> sql_value) list list"

record qa_result =
  qa_id :: nat
  qa_description :: string
  qa_status :: string
  qa_output :: qa_output

definition QA_DESCRIPTIONS :: "(nat \<times> string) list" where
  "QA_DESCRIPTIONS =
     [(1, ''Check for duplicate patient IDs''),
      (2, ''Check for missing patient demographics''),
      (3, ''Check for orphan encounters''),
      (5, ''Check for duplicate encounter IDs''),
      (6, ''Check for missing encounter dates''),
      (7, ''Check for orphan procedures in bridge''),
      (9, ''Check for duplicate procedure codes'')]"

definition load_queries :: "(nat \<times> string) list" where
  "load_queries =
     [(1, ''SELECT patient_id, COUNT(*) FROM dim_patient GROUP BY patient_id HAVING COUNT(*) > 1;''),
      (2, ''SELECT patient_id, age_group, sex FROM dim_patient WHERE age_group IS NULL OR sex IS NULL;''),
      (3, ''SELECT f.encounter_id FROM fact_encounters f '' @
          ''LEFT JOIN dim_patient dp ON f.patient_key = dp.patient_key '' @
          ''WHERE dp.patient_key IS NULL;''),
      (5, ''SELECT encounter_id, COUNT(*) FROM fact_encounters GROUP BY encounter_id HAVING COUNT(*) > 1;''),
      (6, ''SELECT encounter_id FROM fact_encounters WHERE date_id IS NULL;''),
      (7, ''SELECT bp.encounter_key, bp.procedure_key FROM bridge_encounter_procedures bp '' @
          ''LEFT JOIN dim_procedure dp ON bp.procedure_key = dp.procedure_key '' @
          ''WHERE dp.procedure_key IS NULL;''),
      (9, ''SELECT procedure_code, COUNT(*) FROM dim_procedure GROUP BY procedure_code HAVING COUNT(*) > 1;'')]"

definition describe_query :: "nat \<Rightarrow> string" where
  "describe_query idx =
     (case dict_get QA_DESCRIPTIONS idx of Some d \<Rightarrow> d | None \<Rightarrow> ''Query '' @ str_of_nat idx)"

definition no_rows_text :: string where
  "no_rows_text = ''_No rows returned '' @ [CHR 0xE2, CHR 0x80, CHR 0x94] @ '' OK_''"

text \<open>The body of the \<^verbatim>\<open>try\<close>/\<^verbatim>\<open>except\<close> of \<^verbatim>\<open>run_all\<close>: status and output from what the
  execution gave, then the entry appended to \<^verbatim>\<open>self.results\<close>.\<close>

definition check_result :: "nat \<times> string \<Rightarrow> exec_outcome \<Rightarrow> qa_result" where
  "check_result q outcome =
     (case outcome of
        Fetched cols rows \<Rightarrow>
          (if length rows = 0
           then \<lparr>qa_id = fst q, qa_description = describe_query (fst q),
                 qa_status = ''PASS'', qa_output = OutText no_rows_text\<rparr>
           else \<lparr>qa_id = fst q, qa_description = describe_query (fst q),
                 qa_status = ''FAIL'',
                 qa_output = OutRows (map (\<lambda>r. py_dict (zip cols r)) rows)\<rparr>)
      | Raised m \<Rightarrow>
          \<lparr>qa_id = fst q, qa_description = describe_query (fst q),
           qa_status = ''ERROR'', qa_output = OutText m\<rparr>)"

definition is_raised :: "exec_outcome \<Rightarrow> bool" where
  "is_raised outcome = (case outcome of Raised m \<Rightarrow> True | Fetched cols rows \<Rightarrow> False)"

definition run_check ::
  "(string \<Rightarrow> exec_outcome) \<Rightarrow> connection \<Rightarrow> nat \<times> string \<Rightarrow> qa_result \<times> connection" where
  "run_check server conn q =
     (case cursor_execute server conn (snd q) of
        (outcome, conn') \<Rightarrow>
          (check_result q outcome, if is_raised outcome then conn_rollback conn' else conn'))"

fun run_all_loop ::
  "(string \<Rightarrow> exec_outcome) \<Rightarrow> (nat \<times> string) list \<Rightarrow> connection \<Rightarrow> qa_result list
     \<Rightarrow> qa_result list \<times> connection" where
  "run_all_loop server [] conn results = (results, conn)"
| "run_all_loop server (q # qs) conn results =
     (case run_check server conn q of
        (r, conn') \<Rightarrow> run_all_loop server qs conn' (results @ [r]))"

definition run_all :: "(string \<Rightarrow> exec_outcome) \<Rightarrow> qa_result list \<times> connection" where
  "run_all server = run_all_loop server load_queries new_connection []"

definition raised_count :: "(string \<Rightarrow> exec_outcome) \<Rightarrow> (nat \<times> string) list \<Rightarrow> nat" where
  "raised_count server qs = length (filter (\<lambda>q. is_raised (server (snd q))) qs)"


section \<open>Operational store\<close>

text \<open>
  The operational tables, with the columns the engine reads or derives. Columns filled
  from the fake-data generator and never read again (names of physicians, phone,
  address, confidence, duration, dose) are left out. Dates are day ordinals (Python's
  \<^verbatim>\<open>date.toordinal()\<close>), datetimes are microseconds, as in the calendar section. \<^verbatim>\<open>procedure_id\<close> and
  \<^verbatim>\<open>report_id\<close> are SERIAL columns, drawn from a sequence of the store.
\<close>

record patient_row =
  patient_id :: string
  date_of_birth :: int
  gender :: string
  contact_email :: string
  insurance_id :: string

record encounter_row =
  encounter_id :: string
  enc_patient_id :: string
  enc_facility_id :: string
  encounter_date :: int
  encounter_datetime :: int
  encounter_type :: string

record procedure_row =
  procedure_id :: nat
  proc_encounter_id :: string
  procedure_code :: string
  procedure_name :: string
  body_part :: string
  view_position :: string
  modality :: string
  procedure_datetime :: int

record encounter_diagnosis_row =
  ed_encounter_id :: string
  ed_diagnosis_id :: string
  diagnosis_rank :: nat
  is_primary :: bool
  diagnosis_datetime :: int
  ed_notes :: string

record report_row =
  report_id :: nat
  rep_encounter_id :: string
  rep_type :: string
  rep_status :: string
  rep_text :: string
  rep_findings :: string
  rep_impression :: string
  rep_recommendations :: string
  dictated_datetime :: int
  signed_datetime :: int

record diagnosis_row =
  diagnosis_id :: string
  diagnosis_code :: string
  diagnosis_name :: string
  diagnosis_category :: string
  severity :: string

record facility_row =
  facility_id :: string
  facility_type :: string

record op_db =
  patients :: "patient_row list"
  encounters :: "encounter_row list"
  procedures :: "procedure_row list"
  encounter_diagnoses :: "encounter_diagnosis_row list"
  reports :: "report_row list"
  diagnoses :: "diagnosis_row list"
  facilities :: "facility_row list"
  procedure_seq :: nat
  report_seq :: nat

text \<open>Inserts. \<^verbatim>\<open>ON CONFLICT (...) DO NOTHING\<close> skips a row whose key is present; a
  SERIAL default is drawn from its sequence before the conflict is looked at.\<close>

definition insert_encounter :: "op_db \<Rightarrow> encounter_row \<Rightarrow> op_db" where
  "insert_encounter db e =
     (if encounter_id e \<in> set (map encounter_id (encounters db)) then db
      else db\<lparr>encounters := encounters db @ [e]\<rparr>)"

definition procedure_key :: "procedure_row \<Rightarrow> string \<times> string" where
  "procedure_key pr = (proc_encounter_id pr, procedure_code pr)"

definition insert_procedure :: "op_db \<Rightarrow> procedure_row \<Rightarrow> op_db" where
  "insert_procedure db pr =
     (let new_id = Suc (procedure_seq db) in
      if procedure_key pr \<in> set (map procedure_key (procedures db))
      then db\<lparr>procedure_seq := new_id\<rparr>
      else db\<lparr>procedures := procedures db @ [pr\<lparr>procedure_id := new_id\<rparr>],
               procedure_seq := new_id\<rparr>)"

definition encounter_diagnosis_key :: "encounter_diagnosis_row \<Rightarrow> string \<times> string" where
  "encounter_diagnosis_key r = (ed_encounter_id r, ed_diagnosis_id r)"

definition insert_encounter_diagnosis :: "op_db \<Rightarrow> encounter_diagnosis_row \<Rightarrow> op_db" where
  "insert_encounter_diagnosis db r =
     (if encounter_diagnosis_key r \<in> set (map encounter_diagnosis_key (encounter_diagnoses db))
      then db
      else db\<lparr>encounter_diagnoses := encounter_diagnoses db @ [r]\<rparr>)"

definition insert_report :: "op_db \<Rightarrow> report_row \<Rightarrow> op_db" where
  "insert_report db r =
     (let new_id = Suc (report_seq db) in
      db\<lparr>reports := reports db @ [r\<lparr>report_id := new_id\<rparr>], report_seq := new_id\<rparr>)"

text \<open>Modelled from the spec: the primary key of the \<^verbatim>\<open>patients\<close> table (the DDL is not
  among the sources; the spec gives \<^verbatim>\<open>patient_id\<close> as unique). The insert of
  \<^verbatim>\<open>_bulk_create_patients\<close> has no conflict clause, so a duplicate id raises.\<close>

fun insert_patients :: "op_db \<Rightarrow> patient_row list \<Rightarrow> error + op_db" where
  "insert_patients db [] = Inr db"
| "insert_patients db (p # ps) =
     (if patient_id p \<in> set (map patient_id (patients db)) then Inl UniqueViolation
      else insert_patients (db\<lparr>patients := patients db @ [p]\<rparr>) ps)"


section \<open>The load pipeline (part2\_pipeline/utils/etl\_pipeline.py)\<close>

record csv_row =
  Patient_ID :: string
  Patient_Age :: int
  Patient_Gender :: string
  Image_Index :: string
  View_Position :: string
  Finding_Labels :: string
  report_type :: string
  report_status :: string
  report_text :: string
  findings :: string
  impression :: string
  recommendations :: string

text \<open>A row after \<^verbatim>\<open>transform\<close>: the input row and the columns added to it.\<close>

record xrow =
  base :: csv_row
  nih_procedure_code :: string
  modality_mapped :: string
  x_encounter_datetime :: int
  x_encounter_date :: int
  diagnosis_list :: "string list"
  primary_diagnosis :: string

record stats =
  records_processed :: nat
  records_skipped :: nat
  patients_created :: nat
  encounters_created :: nat
  procedures_created :: nat
  diagnoses_assigned :: nat
  reports_created :: nat

record pipeline =
  incremental :: bool
  stats :: stats
  diagnosis_cache :: "(string \<times> string) list"
  facility_ids :: "string list"

text \<open>The clock and the random generator are inputs: \<open>now\<close> is \<^verbatim>\<open>datetime.now()\<close>,
  the other fields give the draw made for the row at a position.\<close>

record rng =
  now :: int
  rand_days :: "nat \<Rightarrow> nat"
  rand_hours :: "nat \<Rightarrow> nat"
  rand_facility :: "nat \<Rightarrow> nat"
  rand_encounter_type :: "nat \<Rightarrow> nat"

definition BATCH_SIZE :: nat where
  "BATCH_SIZE = 2000"

definition NIH_TO_ICD10_MAPPING :: "(string \<times> string \<times> string) list" where
  "NIH_TO_ICD10_MAPPING =
     [(''Atelectasis'', ''J98.11'', ''Atelectasis''),
      (''Cardiomegaly'', ''I51.7'', ''Cardiomegaly''),
      (''Effusion'', ''J94.8'', ''Pleural Effusion''),
      (''Infiltration'', ''J98.4'', ''Other Disorders of Lung''),
      (''Mass'', ''D49.2'', ''Neoplasm of Uncertain Behavior''),
      (''Nodule'', ''R91.8'', ''Abnormal Lung Finding''),
      (''Pneumonia'', ''J18.9'', ''Pneumonia''),
      (''Pneumothorax'', ''J93.0'', ''Spontaneous Tension Pneumothorax''),
      (''Consolidation'', ''J18.1'', ''Lobar Pneumonia''),
      (''Edema'', ''J81.0'', ''Acute Pulmonary Edema''),
      (''Emphysema'', ''J43.9'', ''Emphysema''),
      (''Fibrosis'', ''J84.9'', ''Interstitial Lung Disease''),
      (''Pleural_Thickening'', ''J94.8'', ''Pleural Effusion''),
      (''Hernia'', ''K44.9'', ''Diaphragmatic Hernia''),
      (''No Finding'', ''R91.8'', ''Abnormal Lung Finding'')]"

definition MODALITY_MAPPING :: "(string \<times> string) list" where
  "MODALITY_MAPPING =
     [(''DX'', ''X-Ray''), (''CR'', ''X-Ray''), (''PA'', ''X-Ray''), (''AP'', ''X-Ray''),
      (''CT'', ''CT''), (''MR'', ''MRI''), (''US'', ''Ultrasound'')]"

definition zero_stats :: stats where
  "zero_stats =
     \<lparr>records_processed = 0, records_skipped = 0, patients_created = 0,
      encounters_created = 0, procedures_created = 0, diagnoses_assigned = 0,
      reports_created = 0\<rparr>"

definition load_diagnosis_cache :: "op_db \<Rightarrow> (string \<times> string) list" where
  "load_diagnosis_cache db =
     py_dict (map (\<lambda>d. (diagnosis_code d, diagnosis_id d)) (diagnoses db))"

definition load_facility_ids :: "op_db \<Rightarrow> string list" where
  "load_facility_ids db =
     map facility_id (filter (\<lambda>f. facility_type f = ''Hospital'') (facilities db))"

definition new_pipeline :: "bool \<Rightarrow> op_db \<Rightarrow> pipeline" where
  "new_pipeline inc db =
     \<lparr>incremental = inc, stats = zero_stats,
      diagnosis_cache = load_diagnosis_cache db, facility_ids = load_facility_ids db\<rparr>"

subsection \<open>The incremental extraction filter: transform\<close>

text \<open>\<^verbatim>\<open>LIKE 'NIH_%'\<close>: the three letters, then any one character, then anything.\<close>

definition like_NIH :: "string \<Rightarrow> bool" where
  "like_NIH s = (take 3 s = ''NIH'' \<and> 4 \<le> length s)"

definition get_existing_image_indices :: "op_db \<Rightarrow> string set" where
  "get_existing_image_indices db = set (filter like_NIH (map procedure_code (procedures db)))"

definition nih_code :: "csv_row \<Rightarrow> string" where
  "nih_code r = ''NIH_'' @ replace_all ''.png'' '''' (Image_Index r)"

definition modality_of :: "string \<Rightarrow> string" where
  "modality_of v = (case dict_get MODALITY_MAPPING v of Some m \<Rightarrow> m | None \<Rightarrow> ''X-Ray'')"

definition first_stripped :: "string list \<Rightarrow> string" where
  "first_stripped labels = (case labels of [] \<Rightarrow> [] | x # rest \<Rightarrow> strip x)"

definition enrich :: "rng \<Rightarrow> nat \<times> csv_row \<times> string \<Rightarrow> xrow" where
  "enrich orc irk =
     (let i = fst irk; r = fst (snd irk);
          start_date = now orc - 730 * us_per_day;
          dt = start_date + int (rand_days orc i mod 731) * us_per_day
                          + int (rand_hours orc i mod 24) * us_per_hour;
          labels = split_on (CHR ''|'') (Finding_Labels r)
      in \<lparr>base = r, nih_procedure_code = snd (snd irk),
          modality_mapped = modality_of (View_Position r),
          x_encounter_datetime = dt, x_encounter_date = date_of_datetime dt,
          diagnosis_list = labels, primary_diagnosis = first_stripped labels\<rparr>)"

definition transform ::
  "pipeline \<Rightarrow> rng \<Rightarrow> op_db \<Rightarrow> csv_row list \<Rightarrow> pipeline \<times> op_db \<times> xrow list option" where
  "transform p orc db df =
     (let existing_indices = (if incremental p then get_existing_image_indices db else {});
          keyed = map (\<lambda>r. (r, nih_code r)) df;
          filtering = (incremental p \<and> existing_indices \<noteq> {});
          df_new = (if filtering then filter (\<lambda>rk. snd rk \<notin> existing_indices) keyed
                    else keyed);
          p1 = (if filtering
                then p\<lparr>stats := (stats p)\<lparr>records_skipped := length df - length df_new\<rparr>\<rparr>
                else p)
      in if length df_new = 0 then (p1, db, None)
         else (p1\<lparr>stats := (stats p1)\<lparr>records_processed := length df_new\<rparr>\<rparr>, db,
               Some (map (enrich orc) (List.enumerate 0 df_new))))"

definition out_rows :: "xrow list option \<Rightarrow> xrow list" where
  "out_rows out = (case out of None \<Rightarrow> [] | Some rows \<Rightarrow> rows)"

subsection \<open>Identity resolution: \_bulk\_create\_patients\<close>

text \<open>\<^verbatim>\<open>MAX\<close> over a text column compares strings, here character by character by
  code, a proper prefix below its extensions.\<close>

fun str_le :: "string \<Rightarrow> string \<Rightarrow> bool" where
  "str_le [] t = True"
| "str_le (a # s) [] = False"
| "str_le (a # s) (b # t) = (if a = b then str_le s t else (of_char a :: nat) < of_char b)"

definition str_max :: "string \<Rightarrow> string \<Rightarrow> string" where
  "str_max a b = (if str_le a b then b else a)"

definition sql_max_str :: "string list \<Rightarrow> string option" where
  "sql_max_str xs = (case xs of [] \<Rightarrow> None | x # rest \<Rightarrow> Some (foldl str_max x rest))"

fun drop_duplicates :: "'a list \<Rightarrow> 'a list" where
  "drop_duplicates [] = []"
| "drop_duplicates (x # xs) = x # drop_duplicates (filter (\<lambda>y. y \<noteq> x) xs)"

definition patient_email :: "string \<Rightarrow> string" where
  "patient_email pid = ''nih_patient_'' @ pid @ ''@external.com''"

definition like_PAT :: "string \<Rightarrow> bool" where
  "like_PAT s = (take 3 s = ''PAT'')"

definition map_gender :: "string \<Rightarrow> string" where
  "map_gender g = (if g = ''M'' then ''M'' else if g = ''F'' then ''F'' else ''Other'')"

record bulk_state =
  last_id :: int
  new_patients :: "patient_row list"
  patient_map :: "(string \<times> string) list"
  created :: nat

definition bulk_step :: "int \<Rightarrow> (string \<times> string) list \<Rightarrow> bulk_state
    \<Rightarrow> string \<times> int \<times> string \<Rightarrow> error + bulk_state" where
  "bulk_step now_t existing_patients st row =
     (let nih_id = fst row; email = patient_email nih_id
      in case dict_get existing_patients email of
           Some pid \<Rightarrow> Inr (st\<lparr>patient_map := dict_set (patient_map st) nih_id pid\<rparr>)
         | None \<Rightarrow>
             (let lid = last_id st + 1;
                  new_patient_id = ''PAT'' @ zfill 7 (py_str lid)
              in case datetime_sub_days now_t (fst (snd row) * 365) of
                   Inl e \<Rightarrow> Inl e
                 | Inr dob \<Rightarrow>
                     Inr \<lparr>last_id = lid,
                          new_patients = new_patients st @
                            [\<lparr>patient_id = new_patient_id,
                              date_of_birth = date_of_datetime dob,
                              gender = map_gender (snd (snd row)), contact_email = email,
                              insurance_id = ''INS'' @ nih_id\<rparr>],
                          patient_map = dict_set (patient_map st) nih_id new_patient_id,
                          created = created st + 1\<rparr>))"

fun bulk_loop :: "int \<Rightarrow> (string \<times> string) list \<Rightarrow> bulk_state
    \<Rightarrow> (string \<times> int \<times> string) list \<Rightarrow> error + bulk_state" where
  "bulk_loop now_t existing_patients st [] = Inr st"
| "bulk_loop now_t existing_patients st (row # rows) =
     (case bulk_step now_t existing_patients st row of
        Inl e \<Rightarrow> Inl e
      | Inr st' \<Rightarrow> bulk_loop now_t existing_patients st' rows)"

definition unique_patients_of :: "xrow list \<Rightarrow> (string \<times> int \<times> string) list" where
  "unique_patients_of batch =
     drop_duplicates
       (map (\<lambda>x. (Patient_ID (base x), Patient_Age (base x), Patient_Gender (base x))) batch)"

definition existing_patients_of :: "op_db \<Rightarrow> string list \<Rightarrow> (string \<times> string) list" where
  "existing_patients_of db emails =
     py_dict (map (\<lambda>p. (contact_email p, patient_id p))
                (filter (\<lambda>p. contact_email p \<in> set emails) (patients db)))"

definition next_patient_base :: "op_db \<Rightarrow> error + int" where
  "next_patient_base db =
     (case sql_max_str (filter like_PAT (map patient_id (patients db))) of
        None \<Rightarrow> Inr 5000
      | Some m \<Rightarrow> (if m = [] then Inr 5000 else py_int (replace_all ''PAT'' '''' m)))"

text \<open>The part of \<^verbatim>\<open>_bulk_create_patients\<close> before the bulk insert: the two queries and
  the loop over the unique rows.\<close>

definition bulk_plan :: "int \<Rightarrow> (string \<times> int \<times> string) list \<Rightarrow> op_db \<Rightarrow> error + bulk_state" where
  "bulk_plan now_t unique_patients db =
     (let emails = map (\<lambda>u. patient_email (fst u)) unique_patients;
          existing_patients = existing_patients_of db emails
      in case next_patient_base db of
           Inl e \<Rightarrow> Inl e
         | Inr lid \<Rightarrow>
             bulk_loop now_t existing_patients
               \<lparr>last_id = lid, new_patients = [], patient_map = [], created = 0\<rparr>
               unique_patients)"

definition bulk_create_patients ::
  "pipeline \<Rightarrow> rng \<Rightarrow> xrow list \<Rightarrow> op_db
     \<Rightarrow> error + ((string \<times> string) list \<times> pipeline \<times> op_db)" where
  "bulk_create_patients p orc batch db =
     (let unique_patients = unique_patients_of batch
      in if unique_patients = [] then Inr ([], p, db)
         else (case bulk_plan (now orc) unique_patients db of
                 Inl e \<Rightarrow> Inl e
               | Inr st \<Rightarrow>
                   (case insert_patients db (new_patients st) of
                      Inl e \<Rightarrow> Inl e
                    | Inr db' \<Rightarrow>
                        Inr (patient_map st,
                             p\<lparr>stats := (stats p)\<lparr>patients_created :=
                                   patients_created (stats p) + created st\<rparr>\<rparr>,
                             db'))))"

subsection \<open>One batch: \_load\_batch\_optimized\<close>

definition random_choices :: "(nat \<Rightarrow> nat) \<Rightarrow> 'a list \<Rightarrow> nat \<Rightarrow> error + 'a list" where
  "random_choices draw population k =
     (if k = 0 then Inr []
      else if population = [] then Inl IndexError
      else Inr (map (\<lambda>i. population ! (draw i mod length population)) [0..<k]))"

definition encounter_types :: "string list" where
  "encounter_types = [''Inpatient'', ''Outpatient'', ''Emergency'']"

definition encounter_id_of :: "string \<Rightarrow> string" where
  "encounter_id_of image_index = ''NIH_'' @ replace_all ''.png'' '''' image_index @ ''_ENC''"

fun collect :: "('a \<Rightarrow> error + 'b) \<Rightarrow> 'a list \<Rightarrow> error + 'b list" where
  "collect f [] = Inr []"
| "collect f (x # xs) =
     (case f x of
        Inl e \<Rightarrow> Inl e
      | Inr y \<Rightarrow> (case collect f xs of Inl e \<Rightarrow> Inl e | Inr ys \<Rightarrow> Inr (y # ys)))"

definition make_encounter ::
  "rng \<Rightarrow> (string \<times> string) list \<Rightarrow> nat \<times> xrow \<times> string \<Rightarrow> error + encounter_row" where
  "make_encounter orc pmap ixf =
     (let idx = fst ixf; x = fst (snd ixf)
      in case dict_get pmap (Patient_ID (base x)) of
           None \<Rightarrow> Inl KeyError
         | Some pid \<Rightarrow>
             Inr \<lparr>encounter_id = encounter_id_of (Image_Index (base x)),
                  enc_patient_id = pid, enc_facility_id = snd (snd ixf),
                  encounter_date = x_encounter_date x,
                  encounter_datetime = x_encounter_datetime x,
                  encounter_type = encounter_types ! (rand_encounter_type orc idx mod 3)\<rparr>)"

text \<open>\<^verbatim>\<open>encounter_map\<close> is keyed by the image index and holds the id computed from that
  same image index, so the lookup gives \<open>encounter_id_of\<close> of the row's image index.\<close>

definition make_procedure :: "xrow \<Rightarrow> procedure_row" where
  "make_procedure x =
     \<lparr>procedure_id = 0, proc_encounter_id = encounter_id_of (Image_Index (base x)),
      procedure_code = nih_procedure_code x,
      procedure_name = modality_mapped x @ '' Chest'', body_part = ''Chest'',
      view_position = View_Position (base x), modality = modality_mapped x,
      procedure_datetime = x_encounter_datetime x\<rparr>"

fun diagnosis_rows ::
  "(string \<times> string) list \<Rightarrow> string \<Rightarrow> int \<Rightarrow> (nat \<times> string) list
     \<Rightarrow> encounter_diagnosis_row list" where
  "diagnosis_rows cache enc dt [] = []"
| "diagnosis_rows cache enc dt (rl # rest) =
     (let rank = fst rl; nih_diagnosis = strip (snd rl)
      in (case dict_get NIH_TO_ICD10_MAPPING nih_diagnosis of
            None \<Rightarrow> []
          | Some icd \<Rightarrow>
              (case dict_get cache (fst icd) of
                 None \<Rightarrow> []
               | Some did \<Rightarrow>
                   (if did \<noteq> []
                    then [\<lparr>ed_encounter_id = enc, ed_diagnosis_id = did,
                           diagnosis_rank = rank, is_primary = (rank = 1),
                           diagnosis_datetime = dt,
                           ed_notes = ''NIH diagnosis: '' @ nih_diagnosis\<rparr>]
                    else [])))
         @ diagnosis_rows cache enc dt rest)"

definition row_diagnoses :: "(string \<times> string) list \<Rightarrow> xrow \<Rightarrow> encounter_diagnosis_row list" where
  "row_diagnoses cache x =
     diagnosis_rows cache (encounter_id_of (Image_Index (base x))) (x_encounter_datetime x)
       (List.enumerate 1 (take 3 (diagnosis_list x)))"

definition make_report :: "xrow \<Rightarrow> report_row" where
  "make_report x =
     \<lparr>report_id = 0, rep_encounter_id = encounter_id_of (Image_Index (base x)),
      rep_type = report_type (base x), rep_status = report_status (base x),
      rep_text = report_text (base x), rep_findings = findings (base x),
      rep_impression = impression (base x),
      rep_recommendations = recommendations (base x),
      dictated_datetime = x_encounter_datetime x,
      signed_datetime = x_encounter_datetime x + 2 * us_per_hour\<rparr>"

definition load_batch_optimized ::
  "pipeline \<Rightarrow> rng \<Rightarrow> xrow list \<Rightarrow> op_db \<Rightarrow> error + (pipeline \<times> op_db)" where
  "load_batch_optimized p orc batch db =
     (case bulk_create_patients p orc batch db of
        Inl e \<Rightarrow> Inl e
      | Inr (pmap, p1, db1) \<Rightarrow>
     (case random_choices (rand_facility orc) (facility_ids p1) (length batch) of
        Inl e \<Rightarrow> Inl e
      | Inr facility_ids_sample \<Rightarrow>
     (case collect (make_encounter orc pmap)
             (List.enumerate 0 (zip batch facility_ids_sample)) of
        Inl e \<Rightarrow> Inl e
      | Inr encs \<Rightarrow>
     (let db2 = foldl insert_encounter db1 encs;
          p2 = p1\<lparr>stats := (stats p1)\<lparr>encounters_created :=
                    encounters_created (stats p1) + length encs\<rparr>\<rparr>;
          procs = map make_procedure batch;
          db3 = foldl insert_procedure db2 procs;
          p3 = p2\<lparr>stats := (stats p2)\<lparr>procedures_created :=
                    procedures_created (stats p2) + length procs\<rparr>\<rparr>;
          eds = concat (map (row_diagnoses (diagnosis_cache p3)) batch);
          db4 = (if eds \<noteq> [] then foldl insert_encounter_diagnosis db3 eds else db3);
          p4 = (if eds \<noteq> []
                then p3\<lparr>stats := (stats p3)\<lparr>diagnoses_assigned :=
                          diagnoses_assigned (stats p3) + length eds\<rparr>\<rparr>
                else p3);
          reps = map make_report batch;
          db5 = foldl insert_report db4 reps;
          p5 = p4\<lparr>stats := (stats p4)\<lparr>reports_created :=
                    reports_created (stats p4) + length reps\<rparr>\<rparr>
      in Inr (p5, db5)))))"

subsection \<open>load and run\<close>

text \<open>One transaction per batch, committed after the batch. A failure carries the
  store as of the last commit. \<open>orcs n\<close> is the random generator during batch \<open>n\<close>.\<close>

fun load_batches ::
  "pipeline \<Rightarrow> (nat \<Rightarrow> rng) \<Rightarrow> xrow list \<Rightarrow> nat list \<Rightarrow> op_db
     \<Rightarrow> (error \<times> op_db) + (pipeline \<times> op_db)" where
  "load_batches p orcs df [] db = Inr (p, db)"
| "load_batches p orcs df (batch_num # rest) db =
     (let start_idx = batch_num * BATCH_SIZE;
          batch_df = take BATCH_SIZE (drop start_idx df)
      in case load_batch_optimized p (orcs batch_num) batch_df db of
           Inl e \<Rightarrow> Inl (e, db)
         | Inr (p', db') \<Rightarrow> load_batches p' orcs df rest db')"

definition load ::
  "pipeline \<Rightarrow> (nat \<Rightarrow> rng) \<Rightarrow> xrow list \<Rightarrow> op_db \<Rightarrow> (error \<times> op_db) + (pipeline \<times> op_db)" where
  "load p orcs df db =
     (if length df = 0 then Inr (p, db)
      else load_batches p orcs df [0..<length df div BATCH_SIZE + 1] db)"

definition run ::
  "pipeline \<Rightarrow> rng \<Rightarrow> (nat \<Rightarrow> rng) \<Rightarrow> csv_row list \<Rightarrow> op_db
     \<Rightarrow> (error \<times> op_db) + (pipeline \<times> op_db)" where
  "run p orc orcs df db =
     (case transform p orc db df of
        (p1, db1, None) \<Rightarrow> Inr (p1, db1)
      | (p1, db1, Some df_transformed) \<Rightarrow> load p1 orcs df_transformed db1)"

text \<open>\<^verbatim>\<open>main\<close>: a fresh pipeline object in incremental mode, then \<^verbatim>\<open>run\<close>.\<close>

definition run_pipeline ::
  "rng \<Rightarrow> (nat \<Rightarrow> rng) \<Rightarrow> csv_row list \<Rightarrow> op_db \<Rightarrow> (error \<times> op_db) + (pipeline \<times> op_db)" where
  "run_pipeline orc orcs df db = run (new_pipeline True db) orc orcs df db"


section \<open>Warehouse (part3\_analytics/populate\_warehouse.py)\<close>

record time_record =
  tr_date_id :: int
  tr_full_date :: int
  tr_year :: int
  tr_quarter :: int
  tr_month :: int
  tr_month_name :: string
  tr_week :: int
  tr_day_of_month :: int
  tr_day_of_week :: int
  tr_day_name :: string
  tr_is_weekend :: bool
  tr_is_holiday :: bool
  tr_fiscal_year :: int
  tr_fiscal_quarter :: int

record dim_patient_row =
  dp_patient_key :: nat
  dp_patient_id :: int
  dp_age :: "int option"
  dp_sex :: string
  dp_age_group :: string
  dp_location :: string

record dim_procedure_row =
  dpr_procedure_key :: nat
  dpr_procedure_id :: nat
  dpr_procedure_code :: string
  dpr_procedure_name :: string
  dpr_modality :: string
  dpr_projection :: string
  dpr_body_part :: string

record dim_diagnosis_row =
  dd_diagnosis_key :: nat
  dd_diagnosis_id :: int
  dd_diagnosis_code :: string
  dd_diagnosis_name :: string
  dd_category :: string
  dd_severity :: string

record fact_row =
  f_encounter_key :: nat
  f_encounter_id :: int
  f_patient_key :: nat
  f_date_id :: int
  f_facility_id :: int
  f_encounter_type :: string
  f_procedure_count :: nat
  f_diagnosis_count :: nat
  f_report_count :: nat

record bridge_procedure_row =
  bp_encounter_key :: nat
  bp_procedure_key :: nat

record bridge_diagnosis_row =
  bd_encounter_key :: nat
  bd_diagnosis_key :: nat
  bd_diagnosis_type :: string

text \<open>The warehouse tables and the sequences of their SERIAL surrogate keys.
  \<^verbatim>\<open>TRUNCATE\<close> empties a table and leaves its sequence where it is.\<close>

record warehouse =
  dim_time :: "time_record list"
  dim_patient :: "dim_patient_row list"
  dim_procedure :: "dim_procedure_row list"
  dim_diagnosis :: "dim_diagnosis_row list"
  fact_encounters :: "fact_row list"
  bridge_encounter_procedures :: "bridge_procedure_row list"
  bridge_encounter_diagnoses :: "bridge_diagnosis_row list"
  patient_key_seq :: nat
  procedure_key_seq :: nat
  diagnosis_key_seq :: nat
  encounter_key_seq :: nat

record wh_stats =
  dim_time_records :: nat
  dim_patient_records :: nat
  dim_procedure_records :: nat
  dim_diagnosis_records :: nat
  fact_encounters_records :: nat
  bridge_procedures_records :: nat
  bridge_diagnoses_records :: nat

definition zero_wh_stats :: wh_stats where
  "zero_wh_stats =
     \<lparr>dim_time_records = 0, dim_patient_records = 0, dim_procedure_records = 0,
      dim_diagnosis_records = 0, fact_encounters_records = 0, bridge_procedures_records = 0,
      bridge_diagnoses_records = 0\<rparr>"

definition clear_warehouse :: "warehouse \<Rightarrow> warehouse" where
  "clear_warehouse wh =
     wh\<lparr>bridge_encounter_diagnoses := [], bridge_encounter_procedures := [],
        fact_encounters := [], dim_diagnosis := [], dim_procedure := [], dim_patient := [],
        dim_time := []\<rparr>"

subsection \<open>The key mapping\<close>

text \<open>\<^verbatim>\<open>CAST(REGEXP_REPLACE(s, '\D', '', 'g') AS INTEGER)\<close>: the decimal digits of the
  natural key, read as a 32-bit integer. No digit at all, or a value above
  \<open>2\<^sup>3\<^sup>1 - 1\<close>, is an error of the statement.\<close>

definition key_digits :: "string \<Rightarrow> string" where
  "key_digits s = filter is_digit s"

definition sql_int_key :: "string \<Rightarrow> error + int" where
  "sql_int_key s =
     (let ds = key_digits s
      in if ds = [] then Inl InvalidTextRepresentation
         else if 2147483647 < int (nat_of_digits ds) then Inl NumericValueOutOfRange
         else Inr (int (nat_of_digits ds)))"

text \<open>The format of a key: its characters, with every digit replaced by a placeholder.
  Two keys of one format have the same length, digits at the same positions and the
  same other characters there, as \<^verbatim>\<open>PAT0005001\<close> and \<^verbatim>\<open>PAT0005002\<close>, or
  \<^verbatim>\<open>NIH_00000001_000_ENC\<close> and \<^verbatim>\<open>NIH_00000001_001_ENC\<close>.\<close>

definition key_format :: "string \<Rightarrow> char option list" where
  "key_format s = map (\<lambda>c. if is_digit c then None else Some c) s"

subsection \<open>populate\_dim\_time\<close>

definition time_record_of :: "int \<Rightarrow> time_record" where
  "time_record_of current_date =
     \<lparr>tr_date_id = yyyymmdd current_date,
      tr_full_date = current_date,
      tr_year = date_year current_date,
      tr_quarter = (date_month current_date - 1) div 3 + 1,
      tr_month = date_month current_date,
      tr_month_name = month_names ! nat (date_month current_date - 1),
      tr_week = iso_week current_date,
      tr_day_of_month = date_day current_date,
      tr_day_of_week = weekday current_date + 1,
      tr_day_name = day_names ! nat (weekday current_date),
      tr_is_weekend = (5 \<le> weekday current_date),
      tr_is_holiday = False,
      tr_fiscal_year = date_year current_date,
      tr_fiscal_quarter = (date_month current_date - 1) div 3 + 1\<rparr>"

function dim_time_loop :: "int \<Rightarrow> int \<Rightarrow> time_record list \<Rightarrow> error + time_record list" where
  "dim_time_loop current_date max_date time_records =
     (if current_date \<le> max_date
      then (case date_add_day current_date of
              Inl e \<Rightarrow> Inl e
            | Inr next_date \<Rightarrow>
                dim_time_loop next_date max_date
                  (time_records @ [time_record_of current_date]))
      else Inr time_records)"
  by pat_completeness auto
termination
  by (relation "measure (\<lambda>(c, m, r). nat (m + 1 - c))")
     (auto simp: date_add_day_def split: if_splits)

declare dim_time_loop.simps [simp del]

definition sql_min :: "int list \<Rightarrow> int option" where
  "sql_min xs = (case xs of [] \<Rightarrow> None | x # rest \<Rightarrow> Some (foldl min x rest))"

definition sql_max :: "int list \<Rightarrow> int option" where
  "sql_max xs = (case xs of [] \<Rightarrow> None | x # rest \<Rightarrow> Some (foldl max x rest))"

text \<open>The rows handed to the insert: \<open>None\<close> when there is no encounter date (the
  early return), otherwise what the loop built.\<close>

definition dim_time_records_of :: "op_db \<Rightarrow> error + time_record list option" where
  "dim_time_records_of op =
     (case (sql_min (map encounter_date (encounters op)),
            sql_max (map encounter_date (encounters op))) of
        (Some min_date, Some max_date) \<Rightarrow>
          (case dim_time_loop min_date max_date [] of
             Inl e \<Rightarrow> Inl e
           | Inr time_records \<Rightarrow> Inr (Some time_records))
      | _ \<Rightarrow> Inr None)"

definition insert_dim_time :: "warehouse \<Rightarrow> time_record \<Rightarrow> warehouse" where
  "insert_dim_time wh r =
     (if tr_date_id r \<in> set (map tr_date_id (dim_time wh)) then wh
      else wh\<lparr>dim_time := dim_time wh @ [r]\<rparr>)"

definition populate_dim_time ::
  "op_db \<Rightarrow> wh_stats \<times> warehouse \<Rightarrow> error + (wh_stats \<times> warehouse)" where
  "populate_dim_time op sw =
     (case dim_time_records_of op of
        Inl e \<Rightarrow> Inl e
      | Inr None \<Rightarrow> Inr sw
      | Inr (Some time_records) \<Rightarrow>
          Inr ((fst sw)\<lparr>dim_time_records := length time_records\<rparr>,
               foldl insert_dim_time (snd sw) time_records))"

subsection \<open>populate\_dim\_patient\<close>

text \<open>SQL's three-valued comparisons on a nullable integer, and the year field of
  PostgreSQL's \<^verbatim>\<open>AGE(later, earlier)\<close> on two dates: the difference of the years, less one
  when the month and day of the later date come before those of the earlier one; the
  negative of the same with the arguments exchanged when the first date is the earlier.\<close>

definition sql_lt :: "int option \<Rightarrow> int \<Rightarrow> bool option" where
  "sql_lt a b = map_option (\<lambda>x. x < b) a"

definition sql_between :: "int option \<Rightarrow> int \<Rightarrow> int \<Rightarrow> bool option" where
  "sql_between a lo hi = map_option (\<lambda>x. lo \<le> x \<and> x \<le> hi) a"

definition sql_true :: "bool option \<Rightarrow> bool" where
  "sql_true c = (c = Some True)"

definition full_years :: "int \<times> int \<times> int \<Rightarrow> int \<times> int \<times> int \<Rightarrow> int" where
  "full_years later earlier =
     (let months = fst (snd later) - fst (snd earlier)
                     - (if snd (snd later) < snd (snd earlier) then 1 else 0)
      in fst later - fst earlier - (if months < 0 then 1 else 0))"

definition age_years :: "int \<Rightarrow> int \<Rightarrow> int" where
  "age_years d1 d2 =
     (if d1 < d2 then - full_years (ord2ymd d2) (ord2ymd d1)
      else full_years (ord2ymd d1) (ord2ymd d2))"

definition sql_age_years :: "int option \<Rightarrow> int \<Rightarrow> int option" where
  "sql_age_years d1 d2 = map_option (\<lambda>d. age_years d d2) d1"

definition age_group_of :: "int option \<Rightarrow> string" where
  "age_group_of age =
     (if sql_true (sql_lt age 18) then ''Pediatric''
      else if sql_true (sql_between age 18 35) then ''Young Adult''
      else if sql_true (sql_between age 36 55) then ''Middle Age''
      else if sql_true (sql_between age 56 75) then ''Senior''
      else ''Elderly'')"

text \<open>One group per distinct (patient\_id, date\_of\_birth, gender) of \<^verbatim>\<open>patients\<close>; the
  LEFT JOIN keeps a patient without encounters, with \<^verbatim>\<open>MIN(e.encounter_date)\<close> NULL.\<close>

definition patient_groups :: "op_db \<Rightarrow> (string \<times> int \<times> string) list" where
  "patient_groups op =
     drop_duplicates (map (\<lambda>p. (patient_id p, date_of_birth p, gender p)) (patients op))"

definition first_encounter_date :: "op_db \<Rightarrow> string \<Rightarrow> int option" where
  "first_encounter_date op pid =
     sql_min (map encounter_date (filter (\<lambda>e. enc_patient_id e = pid) (encounters op)))"

definition dim_patient_select_row ::
  "op_db \<Rightarrow> string \<times> int \<times> string \<Rightarrow> error + dim_patient_row" where
  "dim_patient_select_row op g =
     (case sql_int_key (fst g) of
        Inl e \<Rightarrow> Inl e
      | Inr k \<Rightarrow>
          (let age = sql_age_years (first_encounter_date op (fst g)) (fst (snd g))
           in Inr \<lparr>dp_patient_key = 0, dp_patient_id = k, dp_age = age, dp_sex = snd (snd g),
                   dp_age_group = age_group_of age, dp_location = ''Kigali''\<rparr>))"

definition insert_dim_patient :: "warehouse \<Rightarrow> dim_patient_row \<Rightarrow> warehouse" where
  "insert_dim_patient wh r =
     (let new_key = Suc (patient_key_seq wh)
      in if dp_patient_id r \<in> set (map dp_patient_id (dim_patient wh))
         then wh\<lparr>patient_key_seq := new_key\<rparr>
         else wh\<lparr>dim_patient := dim_patient wh @ [r\<lparr>dp_patient_key := new_key\<rparr>],
                 patient_key_seq := new_key\<rparr>)"

definition populate_dim_patient ::
  "op_db \<Rightarrow> wh_stats \<times> warehouse \<Rightarrow> error + (wh_stats \<times> warehouse)" where
  "populate_dim_patient op sw =
     (case collect (dim_patient_select_row op) (patient_groups op) of
        Inl e \<Rightarrow> Inl e
      | Inr rows \<Rightarrow>
          (let wh' = foldl insert_dim_patient (snd sw) rows
           in Inr ((fst sw)\<lparr>dim_patient_records := length (dim_patient wh')\<rparr>, wh')))"

subsection \<open>populate\_dim\_procedure and populate\_dim\_diagnosis\<close>

definition dim_procedure_select :: "op_db \<Rightarrow> dim_procedure_row list" where
  "dim_procedure_select op =
     drop_duplicates
       (map (\<lambda>p. \<lparr>dpr_procedure_key = 0, dpr_procedure_id = procedure_id p,
                   dpr_procedure_code = procedure_code p, dpr_procedure_name = procedure_name p,
                   dpr_modality = modality p, dpr_projection = view_position p,
                   dpr_body_part = body_part p\<rparr>)
          (procedures op))"

definition insert_dim_procedure :: "warehouse \<Rightarrow> dim_procedure_row \<Rightarrow> warehouse" where
  "insert_dim_procedure wh r =
     (let new_key = Suc (procedure_key_seq wh)
      in if dpr_procedure_id r \<in> set (map dpr_procedure_id (dim_procedure wh))
         then wh\<lparr>procedure_key_seq := new_key\<rparr>
         else wh\<lparr>dim_procedure := dim_procedure wh @ [r\<lparr>dpr_procedure_key := new_key\<rparr>],
                 procedure_key_seq := new_key\<rparr>)"

definition populate_dim_procedure ::
  "op_db \<Rightarrow> wh_stats \<times> warehouse \<Rightarrow> error + (wh_stats \<times> warehouse)" where
  "populate_dim_procedure op sw =
     (let wh' = foldl insert_dim_procedure (snd sw) (dim_procedure_select op)
      in Inr ((fst sw)\<lparr>dim_procedure_records := length (dim_procedure wh')\<rparr>, wh'))"

definition dim_diagnosis_select_row :: "diagnosis_row \<Rightarrow> error + dim_diagnosis_row" where
  "dim_diagnosis_select_row d =
     (case sql_int_key (diagnosis_id d) of
        Inl e \<Rightarrow> Inl e
      | Inr k \<Rightarrow>
          Inr \<lparr>dd_diagnosis_key = 0, dd_diagnosis_id = k, dd_diagnosis_code = diagnosis_code d,
               dd_diagnosis_name = diagnosis_name d, dd_category = diagnosis_category d,
               dd_severity = severity d\<rparr>)"

definition insert_dim_diagnosis :: "warehouse \<Rightarrow> dim_diagnosis_row \<Rightarrow> warehouse" where
  "insert_dim_diagnosis wh r =
     (let new_key = Suc (diagnosis_key_seq wh)
      in if dd_diagnosis_id r \<in> set (map dd_diagnosis_id (dim_diagnosis wh))
         then wh\<lparr>diagnosis_key_seq := new_key\<rparr>
         else wh\<lparr>dim_diagnosis := dim_diagnosis wh @ [r\<lparr>dd_diagnosis_key := new_key\<rparr>],
                 diagnosis_key_seq := new_key\<rparr>)"

definition populate_dim_diagnosis ::
  "op_db \<Rightarrow> wh_stats \<times> warehouse \<Rightarrow> error + (wh_stats \<times> warehouse)" where
  "populate_dim_diagnosis op sw =
     (case collect dim_diagnosis_select_row (diagnoses op) of
        Inl e \<Rightarrow> Inl e
      | Inr rows \<Rightarrow>
          (let wh' = foldl insert_dim_diagnosis (snd sw) rows
           in Inr ((fst sw)\<lparr>dim_diagnosis_records := length (dim_diagnosis wh')\<rparr>, wh')))"

subsection \<open>populate\_fact\_encounters\<close>

definition count_distinct :: "'a list \<Rightarrow> nat" where
  "count_distinct xs = length (remdups xs)"

text \<open>The rows the SELECT gives for one encounter: one per row of \<^verbatim>\<open>dim_patient\<close> whose
  integer id is the encounter's mapped patient id (the inner join), none when there is
  no such row.\<close>

definition fact_rows_of_encounter ::
  "op_db \<Rightarrow> dim_patient_row list \<Rightarrow> encounter_row \<Rightarrow> error + fact_row list" where
  "fact_rows_of_encounter op dims e =
     (case sql_int_key (enc_patient_id e) of
        Inl err \<Rightarrow> Inl err
      | Inr pk \<Rightarrow>
          collect
            (\<lambda>dp.
               (case sql_int_key (encounter_id e) of
                  Inl err \<Rightarrow> Inl err
                | Inr eid \<Rightarrow>
                    (case sql_int_key (enc_facility_id e) of
                       Inl err \<Rightarrow> Inl err
                     | Inr fid \<Rightarrow>
                         Inr \<lparr>f_encounter_key = 0, f_encounter_id = eid,
                              f_patient_key = dp_patient_key dp,
                              f_date_id = yyyymmdd (encounter_date e), f_facility_id = fid,
                              f_encounter_type = encounter_type e,
                              f_procedure_count =
                                count_distinct
                                  (map procedure_id
                                     (filter (\<lambda>p. proc_encounter_id p = encounter_id e)
                                        (procedures op))),
                              f_diagnosis_count =
                                count_distinct
                                  (map ed_diagnosis_id
                                     (filter (\<lambda>d. ed_encounter_id d = encounter_id e)
                                        (encounter_diagnoses op))),
                              f_report_count =
                                count_distinct
                                  (map report_id
                                     (filter (\<lambda>r. rep_encounter_id r = encounter_id e)
                                        (reports op)))\<rparr>)))
            (filter (\<lambda>dp. dp_patient_id dp = pk) dims))"

definition fact_select :: "op_db \<Rightarrow> dim_patient_row list \<Rightarrow> error + fact_row list" where
  "fact_select op dims =
     (case collect (fact_rows_of_encounter op dims) (encounters op) of
        Inl e \<Rightarrow> Inl e
      | Inr rowss \<Rightarrow> Inr (concat rowss))"

definition insert_fact :: "warehouse \<Rightarrow> fact_row \<Rightarrow> warehouse" where
  "insert_fact wh r =
     (let new_key = Suc (encounter_key_seq wh)
      in if f_encounter_id r \<in> set (map f_encounter_id (fact_encounters wh))
         then wh\<lparr>encounter_key_seq := new_key\<rparr>
         else wh\<lparr>fact_encounters := fact_encounters wh @ [r\<lparr>f_encounter_key := new_key\<rparr>],
                 encounter_key_seq := new_key\<rparr>)"

definition populate_fact_encounters ::
  "op_db \<Rightarrow> wh_stats \<times> warehouse \<Rightarrow> error + (wh_stats \<times> warehouse)" where
  "populate_fact_encounters op sw =
     (case fact_select op (dim_patient (snd sw)) of
        Inl e \<Rightarrow> Inl e
      | Inr rows \<Rightarrow>
          (let wh' = foldl insert_fact (snd sw) rows
           in Inr ((fst sw)\<lparr>fact_encounters_records := length (fact_encounters wh')\<rparr>, wh')))"

subsection \<open>The bridge tables\<close>

definition encounters_of_fact :: "op_db \<Rightarrow> fact_row \<Rightarrow> error + encounter_row list" where
  "encounters_of_fact op f =
     (case collect (\<lambda>e. sql_int_key (encounter_id e)) (encounters op) of
        Inl err \<Rightarrow> Inl err
      | Inr keys \<Rightarrow>
          Inr (map fst (filter (\<lambda>ek. snd ek = f_encounter_id f) (zip (encounters op) keys))))"

definition bridge_procedure_rows_of ::
  "op_db \<Rightarrow> warehouse \<Rightarrow> fact_row \<Rightarrow> error + bridge_procedure_row list" where
  "bridge_procedure_rows_of op wh f =
     (case encounters_of_fact op f of
        Inl err \<Rightarrow> Inl err
      | Inr es \<Rightarrow>
          Inr (concat (map (\<lambda>e.
                 concat (map (\<lambda>p.
                   map (\<lambda>dp. \<lparr>bp_encounter_key = f_encounter_key f,
                               bp_procedure_key = dpr_procedure_key dp\<rparr>)
                     (filter (\<lambda>dp. dpr_procedure_id dp = procedure_id p) (dim_procedure wh)))
                   (filter (\<lambda>p. proc_encounter_id p = encounter_id e) (procedures op))))
               es)))"

definition bridge_procedure_select :: "op_db \<Rightarrow> warehouse \<Rightarrow> error + bridge_procedure_row list" where
  "bridge_procedure_select op wh =
     (case collect (bridge_procedure_rows_of op wh) (fact_encounters wh) of
        Inl e \<Rightarrow> Inl e
      | Inr rowss \<Rightarrow> Inr (drop_duplicates (concat rowss)))"

definition bridge_procedure_pk :: "bridge_procedure_row \<Rightarrow> nat \<times> nat" where
  "bridge_procedure_pk b = (bp_encounter_key b, bp_procedure_key b)"

definition insert_bridge_procedure :: "warehouse \<Rightarrow> bridge_procedure_row \<Rightarrow> warehouse" where
  "insert_bridge_procedure wh b =
     (if bridge_procedure_pk b \<in> set (map bridge_procedure_pk (bridge_encounter_procedures wh))
      then wh
      else wh\<lparr>bridge_encounter_procedures := bridge_encounter_procedures wh @ [b]\<rparr>)"

definition populate_bridge_procedures ::
  "op_db \<Rightarrow> wh_stats \<times> warehouse \<Rightarrow> error + (wh_stats \<times> warehouse)" where
  "populate_bridge_procedures op sw =
     (case bridge_procedure_select op (snd sw) of
        Inl e \<Rightarrow> Inl e
      | Inr rows \<Rightarrow>
          (let wh' = foldl insert_bridge_procedure (snd sw) rows
           in Inr ((fst sw)\<lparr>bridge_procedures_records :=
                              length (bridge_encounter_procedures wh')\<rparr>, wh')))"

definition bridge_diagnosis_rows_of_ed ::
  "warehouse \<Rightarrow> fact_row \<Rightarrow> encounter_diagnosis_row \<Rightarrow> error + bridge_diagnosis_row list" where
  "bridge_diagnosis_rows_of_ed wh f ed =
     (case sql_int_key (ed_diagnosis_id ed) of
        Inl err \<Rightarrow> Inl err
      | Inr k \<Rightarrow>
          Inr (map (\<lambda>dd. \<lparr>bd_encounter_key = f_encounter_key f,
                          bd_diagnosis_key = dd_diagnosis_key dd,
                          bd_diagnosis_type =
                            (if is_primary ed then ''Primary'' else ''Secondary'')\<rparr>)
                 (filter (\<lambda>dd. dd_diagnosis_id dd = k) (dim_diagnosis wh))))"

definition bridge_diagnosis_rows_of ::
  "op_db \<Rightarrow> warehouse \<Rightarrow> fact_row \<Rightarrow> error + bridge_diagnosis_row list" where
  "bridge_diagnosis_rows_of op wh f =
     (case encounters_of_fact op f of
        Inl err \<Rightarrow> Inl err
      | Inr es \<Rightarrow>
          (case collect (bridge_diagnosis_rows_of_ed wh f)
                  (concat (map (\<lambda>e. filter (\<lambda>d. ed_encounter_id d = encounter_id e)
                                       (encounter_diagnoses op)) es)) of
             Inl err \<Rightarrow> Inl err
           | Inr rowss \<Rightarrow> Inr (concat rowss)))"

definition bridge_diagnosis_select :: "op_db \<Rightarrow> warehouse \<Rightarrow> error + bridge_diagnosis_row list" where
  "bridge_diagnosis_select op wh =
     (case collect (bridge_diagnosis_rows_of op wh) (fact_encounters wh) of
        Inl e \<Rightarrow> Inl e
      | Inr rowss \<Rightarrow> Inr (drop_duplicates (concat rowss)))"

definition bridge_diagnosis_pk :: "bridge_diagnosis_row \<Rightarrow> nat \<times> nat" where
  "bridge_diagnosis_pk b = (bd_encounter_key b, bd_diagnosis_key b)"

definition insert_bridge_diagnosis :: "warehouse \<Rightarrow> bridge_diagnosis_row \<Rightarrow> warehouse" where
  "insert_bridge_diagnosis wh b =
     (if bridge_diagnosis_pk b \<in> set (map bridge_diagnosis_pk (bridge_encounter_diagnoses wh))
      then wh
      else wh\<lparr>bridge_encounter_diagnoses := bridge_encounter_diagnoses wh @ [b]\<rparr>)"

definition populate_bridge_diagnoses ::
  "op_db \<Rightarrow> wh_stats \<times> warehouse \<Rightarrow> error + (wh_stats \<times> warehouse)" where
  "populate_bridge_diagnoses op sw =
     (case bridge_diagnosis_select op (snd sw) of
        Inl e \<Rightarrow> Inl e
      | Inr rows \<Rightarrow>
          (let wh' = foldl insert_bridge_diagnosis (snd sw) rows
           in Inr ((fst sw)\<lparr>bridge_diagnoses_records :=
                              length (bridge_encounter_diagnoses wh')\<rparr>, wh')))"

subsection \<open>run\<close>

text \<open>The stages in order, each committed when it returns; a stage that raises ends the
  run, and the failure carries the warehouse as of the last commit.\<close>

fun run_stages ::
  "(wh_stats \<times> warehouse \<Rightarrow> error + (wh_stats \<times> warehouse)) list \<Rightarrow> wh_stats \<times> warehouse
     \<Rightarrow> (error \<times> warehouse) + (wh_stats \<times> warehouse)" where
  "run_stages [] sw = Inr sw"
| "run_stages (stage # stages) sw =
     (case stage sw of
        Inl e \<Rightarrow> Inl (e, snd sw)
      | Inr sw' \<Rightarrow> run_stages stages sw')"

definition warehouse_run ::
  "op_db \<Rightarrow> warehouse \<Rightarrow> (error \<times> warehouse) + (wh_stats \<times> warehouse)" where
  "warehouse_run op wh =
     run_stages
       [populate_dim_time op, populate_dim_patient op, populate_dim_procedure op,
        populate_dim_diagnosis op, populate_fact_encounters op, populate_bridge_procedures op,
        populate_bridge_diagnoses op]
       (zero_wh_stats, clear_warehouse wh)"

definition result_wh :: "(error \<times> warehouse) + (wh_stats \<times> warehouse) \<Rightarrow> warehouse option" where
  "result_wh res = (case res of Inl e \<Rightarrow> None | Inr sw \<Rightarrow> Some (snd sw))"


subsection \<open>A small store and two input rows, for the closed instances below\<close>

definition ex_rng :: rng where
  "ex_rng = \<lparr>now = 63800000000000000, rand_days = (\<lambda>i. 3), rand_hours = (\<lambda>i. 5),
             rand_facility = (\<lambda>i. i), rand_encounter_type = (\<lambda>i. i)\<rparr>"

definition ex_db :: op_db where
  "ex_db =
     \<lparr>patients = [], encounters = [], procedures = [], encounter_diagnoses = [], reports = [],
      diagnoses =
        [\<lparr>diagnosis_id = ''DIAG001'', diagnosis_code = ''J18.9'', diagnosis_name = ''Pneumonia'',
          diagnosis_category = ''Respiratory'', severity = ''Moderate''\<rparr>,
         \<lparr>diagnosis_id = ''DIAG037'', diagnosis_code = ''J94.8'',
          diagnosis_name = ''Pleural Effusion'', diagnosis_category = ''Respiratory'',
          severity = ''Moderate''\<rparr>],
      facilities = [\<lparr>facility_id = ''FAC000001'', facility_type = ''Hospital''\<rparr>],
      procedure_seq = 0, report_seq = 0\<rparr>"

definition ex_row_a :: csv_row where
  "ex_row_a =
     \<lparr>Patient_ID = ''1'', Patient_Age = 58, Patient_Gender = ''M'',
      Image_Index = ''00000001_000.png'', View_Position = ''PA'',
      Finding_Labels = ''Atelectasis|Effusion'', report_type = ''Radiology Report'',
      report_status = ''Final'', report_text = ''text'', findings = ''findings'',
      impression = ''impression'', recommendations = ''none''\<rparr>"

definition ex_row_b :: csv_row where
  "ex_row_b =
     \<lparr>Patient_ID = ''1'', Patient_Age = 59, Patient_Gender = ''M'',
      Image_Index = ''00000001_001.png'', View_Position = ''AP'',
      Finding_Labels = ''Pneumonia|Effusion'', report_type = ''Radiology Report'',
      report_status = ''Final'', report_text = ''text'', findings = ''findings'',
      impression = ''impression'', recommendations = ''none''\<rparr>"

definition ex_db_loaded :: op_db where
  "ex_db_loaded =
     ex_db\<lparr>procedures :=
              [\<lparr>procedure_id = 1, proc_encounter_id = ''NIH_00000001_000_ENC'',
                procedure_code = ''NIH_00000001_000'', procedure_name = ''X-Ray Chest'',
                body_part = ''Chest'', view_position = ''PA'', modality = ''X-Ray'',
                procedure_datetime = 63737205200000000\<rparr>],
            procedure_seq := 1\<rparr>"

definition first_resolves :: "(string \<times> string) list \<Rightarrow> xrow \<Rightarrow> bool" where
  "first_resolves cache x =
     (case diagnosis_list x of
        [] \<Rightarrow> False
      | l # ls \<Rightarrow>
          (case dict_get NIH_TO_ICD10_MAPPING (strip l) of
             None \<Rightarrow> False
           | Some icd \<Rightarrow>
               (case dict_get cache (fst icd) of None \<Rightarrow> False | Some did \<Rightarrow> did \<noteq> [])))"

definition primary_rank1 :: "encounter_diagnosis_row \<Rightarrow> bool" where
  "primary_rank1 r = (is_primary r \<and> diagnosis_rank r = 1)"

definition rank_flag_ok :: "string \<Rightarrow> encounter_diagnosis_row \<Rightarrow> bool" where
  "rank_flag_ok enc r =
     (ed_encounter_id r = enc \<and> is_primary r = (diagnosis_rank r = 1)
      \<and> 1 \<le> diagnosis_rank r \<and> diagnosis_rank r \<le> 3)"

definition primary_rows_of :: "op_db \<Rightarrow> string \<Rightarrow> encounter_diagnosis_row list" where
  "primary_rows_of db enc =
     filter (\<lambda>r. ed_encounter_id r = enc \<and> primary_rank1 r) (encounter_diagnoses db)"

definition result_db :: "(error \<times> op_db) + (pipeline \<times> op_db) \<Rightarrow> op_db option" where
  "result_db res = (case res of Inl e \<Rightarrow> None | Inr pd \<Rightarrow> Some (snd pd))"


definition ex_rngs :: "nat \<Rightarrow> rng" where
  "ex_rngs n = ex_rng"

definition ex_xrow_a :: xrow where
  "ex_xrow_a =
     \<lparr>base = ex_row_a, nih_procedure_code = ''NIH_00000001_000'', modality_mapped = ''X-Ray'',
      x_encounter_datetime = 63737205200000000, x_encounter_date = 737699,
      diagnosis_list = [''Atelectasis'', ''Effusion''], primary_diagnosis = ''Atelectasis''\<rparr>"

definition ex_xrow_b :: xrow where
  "ex_xrow_b =
     \<lparr>base = ex_row_b, nih_procedure_code = ''NIH_00000001_001'', modality_mapped = ''X-Ray'',
      x_encounter_datetime = 63737205200000000, x_encounter_date = 737699,
      diagnosis_list = [''Pneumonia'', ''Effusion''], primary_diagnosis = ''Pneumonia''\<rparr>"

definition ex_patient_a :: patient_row where
  "ex_patient_a =
     \<lparr>patient_id = ''PAT0005001'', date_of_birth = 717255, gender = ''M'',
      contact_email = ''nih_patient_1@external.com'', insurance_id = ''INS1''\<rparr>"

definition ex_db_after_a :: op_db where
  "ex_db_after_a =
     ex_db\<lparr>patients := [ex_patient_a],
            encounters :=
              [\<lparr>encounter_id = ''NIH_00000001_000_ENC'', enc_patient_id = ''PAT0005001'',
                enc_facility_id = ''FAC000001'', encounter_date = 737699,
                encounter_datetime = 63737205200000000, encounter_type = ''Inpatient''\<rparr>],
            procedures :=
              [\<lparr>procedure_id = 1, proc_encounter_id = ''NIH_00000001_000_ENC'',
                procedure_code = ''NIH_00000001_000'', procedure_name = ''X-Ray Chest'',
                body_part = ''Chest'', view_position = ''PA'', modality = ''X-Ray'',
                procedure_datetime = 63737205200000000\<rparr>],
            encounter_diagnoses :=
              [\<lparr>ed_encounter_id = ''NIH_00000001_000_ENC'', ed_diagnosis_id = ''DIAG037'',
                diagnosis_rank = 2, is_primary = False,
                diagnosis_datetime = 63737205200000000,
                ed_notes = ''NIH diagnosis: Effusion''\<rparr>],
            reports :=
              [\<lparr>report_id = 1, rep_encounter_id = ''NIH_00000001_000_ENC'',
                rep_type = ''Radiology Report'', rep_status = ''Final'', rep_text = ''text'',
                rep_findings = ''findings'', rep_impression = ''impression'',
                rep_recommendations = ''none'', dictated_datetime = 63737205200000000,
                signed_datetime = 63737212400000000\<rparr>],
            procedure_seq := 1, report_seq := 1\<rparr>"

definition planned_patients :: "error + bulk_state \<Rightarrow> (string \<times> string) list" where
  "planned_patients plan =
     (case plan of
        Inl e \<Rightarrow> []
      | Inr st \<Rightarrow> map (\<lambda>p. (patient_id p, contact_email p)) (new_patients st))"


definition ex_db_wide :: op_db where
  "ex_db_wide =
     ex_db\<lparr>patients :=
              [\<lparr>patient_id = ''PAT9999999'', date_of_birth = 717255, gender = ''M'',
                contact_email = ''nih_patient_1@external.com'', insurance_id = ''INS1''\<rparr>,
               \<lparr>patient_id = ''PAT10000000'', date_of_birth = 717255, gender = ''F'',
                contact_email = ''nih_patient_2@external.com'', insurance_id = ''INS2''\<rparr>]\<rparr>"

definition primary_counts ::
  "(error \<times> op_db) + (pipeline \<times> op_db) \<Rightarrow> (string \<times> nat) list option" where
  "primary_counts res =
     map_option
       (\<lambda>db. map (\<lambda>e. (encounter_id e, length (primary_rows_of db (encounter_id e))))
                (encounters db))
       (result_db res)"

definition planned_patient_ids :: "error + bulk_state \<Rightarrow> string list" where
  "planned_patient_ids plan =
     (case plan of Inl e \<Rightarrow> [] | Inr st \<Rightarrow> map patient_id (new_patients st))"


definition kept_rows :: "pipeline \<Rightarrow> op_db \<Rightarrow> csv_row list \<Rightarrow> csv_row list" where
  "kept_rows p db df =
     (if incremental p then filter (\<lambda>r. nih_code r \<notin> get_existing_image_indices db) df else df)"


text \<open>The id format of the repository: \<^verbatim>\<open>PAT\<close> and the number, zero-padded to
  seven digits. A store keeps the format when every id starting with \<^verbatim>\<open>PAT\<close> is
  \<^verbatim>\<open>PAT\<close> followed by exactly \<open>w\<close> decimal digits.\<close>

definition synth_patient_id :: "int \<Rightarrow> string" where
  "synth_patient_id n = ''PAT'' @ zfill 7 (py_str n)"

definition pat_id_ok :: "nat \<Rightarrow> string \<Rightarrow> bool" where
  "pat_id_ok w pid =
     (like_PAT pid \<longrightarrow> length pid = 3 + w \<and> list_all is_digit (drop 3 pid))"

definition pat_ids_fixed_width :: "nat \<Rightarrow> op_db \<Rightarrow> bool" where
  "pat_ids_fixed_width w db = list_all (pat_id_ok w) (map patient_id (patients db))"


definition wf_pat :: "nat \<Rightarrow> string \<Rightarrow> bool" where
  "wf_pat w s = (take 3 s = ''PAT'' \<and> length s = 3 + w \<and> list_all is_digit (drop 3 s))"

definition result_skipped :: "(error \<times> op_db) + (pipeline \<times> op_db) \<Rightarrow> nat option" where
  "result_skipped res =
     (case res of Inl e \<Rightarrow> None | Inr pd \<Rightarrow> Some (records_skipped (stats (fst pd))))"

definition procedure_codes :: "op_db \<Rightarrow> string set" where
  "procedure_codes db = set (map procedure_code (procedures db))"


text \<open>A third input row, for the image of the second, and the stores after the runs
  used below.\<close>

definition ex_row_d :: csv_row where
  "ex_row_d = ex_row_b\<lparr>Finding_Labels := ''Effusion''\<rparr>"

definition ex_xrow_d :: xrow where
  "ex_xrow_d =
     \<lparr>base = ex_row_d, nih_procedure_code = ''NIH_00000001_001'', modality_mapped = ''X-Ray'',
      x_encounter_datetime = 63737205200000000, x_encounter_date = 737699,
      diagnosis_list = [''Effusion''], primary_diagnosis = ''Effusion''\<rparr>"

definition ex_patient_b :: patient_row where
  "ex_patient_b =
     \<lparr>patient_id = ''PAT0005001'', date_of_birth = 716890, gender = ''M'',
      contact_email = ''nih_patient_1@external.com'', insurance_id = ''INS1''\<rparr>"

definition ex_db_after_b :: op_db where
  "ex_db_after_b =
     ex_db\<lparr>patients := [ex_patient_b],
            encounters :=
              [\<lparr>encounter_id = ''NIH_00000001_001_ENC'', enc_patient_id = ''PAT0005001'',
                enc_facility_id = ''FAC000001'', encounter_date = 737699,
                encounter_datetime = 63737205200000000, encounter_type = ''Inpatient''\<rparr>],
            procedures :=
              [\<lparr>procedure_id = 1, proc_encounter_id = ''NIH_00000001_001_ENC'',
                procedure_code = ''NIH_00000001_001'', procedure_name = ''X-Ray Chest'',
                body_part = ''Chest'', view_position = ''AP'', modality = ''X-Ray'',
                procedure_datetime = 63737205200000000\<rparr>],
            encounter_diagnoses :=
              [\<lparr>ed_encounter_id = ''NIH_00000001_001_ENC'', ed_diagnosis_id = ''DIAG001'',
                diagnosis_rank = 1, is_primary = True,
                diagnosis_datetime = 63737205200000000,
                ed_notes = ''NIH diagnosis: Pneumonia''\<rparr>,
               \<lparr>ed_encounter_id = ''NIH_00000001_001_ENC'', ed_diagnosis_id = ''DIAG037'',
                diagnosis_rank = 2, is_primary = False,
                diagnosis_datetime = 63737205200000000,
                ed_notes = ''NIH diagnosis: Effusion''\<rparr>],
            reports :=
              [\<lparr>report_id = 1, rep_encounter_id = ''NIH_00000001_001_ENC'',
                rep_type = ''Radiology Report'', rep_status = ''Final'', rep_text = ''text'',
                rep_findings = ''findings'', rep_impression = ''impression'',
                rep_recommendations = ''none'', dictated_datetime = 63737205200000000,
                signed_datetime = 63737212400000000\<rparr>],
            procedure_seq := 1, report_seq := 1\<rparr>"

definition ex_db_after_db :: op_db where
  "ex_db_after_db =
     ex_db_after_b
       \<lparr>encounter_diagnoses :=
          [\<lparr>ed_encounter_id = ''NIH_00000001_001_ENC'', ed_diagnosis_id = ''DIAG037'',
            diagnosis_rank = 1, is_primary = True,
            diagnosis_datetime = 63737205200000000,
            ed_notes = ''NIH diagnosis: Effusion''\<rparr>,
           \<lparr>ed_encounter_id = ''NIH_00000001_001_ENC'', ed_diagnosis_id = ''DIAG001'',
            diagnosis_rank = 1, is_primary = True,
            diagnosis_datetime = 63737205200000000,
            ed_notes = ''NIH diagnosis: Pneumonia''\<rparr>],
        reports :=
          [\<lparr>report_id = 1, rep_encounter_id = ''NIH_00000001_001_ENC'',
            rep_type = ''Radiology Report'', rep_status = ''Final'', rep_text = ''text'',
            rep_findings = ''findings'', rep_impression = ''impression'',
            rep_recommendations = ''none'', dictated_datetime = 63737205200000000,
            signed_datetime = 63737212400000000\<rparr>,
           \<lparr>report_id = 2, rep_encounter_id = ''NIH_00000001_001_ENC'',
            rep_type = ''Radiology Report'', rep_status = ''Final'', rep_text = ''text'',
            rep_findings = ''findings'', rep_impression = ''impression'',
            rep_recommendations = ''none'', dictated_datetime = 63737205200000000,
            signed_datetime = 63737212400000000\<rparr>],
        procedure_seq := 2, report_seq := 2\<rparr>"

text \<open>The diagnosis rows a store holds for an encounter; the labels of an input row as
  \<^verbatim>\<open>transform\<close> splits them; an input row that is the only one of the input for its
  encounter; and insert-or-skip on the key (encounter, diagnosis) as a function on the
  rows of the table.\<close>

definition stored_diagnoses :: "op_db \<Rightarrow> string \<Rightarrow> encounter_diagnosis_row list" where
  "stored_diagnoses db enc = filter (\<lambda>r. ed_encounter_id r = enc) (encounter_diagnoses db)"

definition first_label_resolves :: "(string \<times> string) list \<Rightarrow> csv_row \<Rightarrow> bool" where
  "first_label_resolves cache r =
     (case split_on (CHR ''|'') (Finding_Labels r) of
        [] \<Rightarrow> False
      | l # ls \<Rightarrow>
          (case dict_get NIH_TO_ICD10_MAPPING (strip l) of
             None \<Rightarrow> False
           | Some icd \<Rightarrow>
               (case dict_get cache (fst icd) of None \<Rightarrow> False | Some did \<Rightarrow> did \<noteq> [])))"

definition only_row_of_encounter :: "csv_row list \<Rightarrow> csv_row \<Rightarrow> bool" where
  "only_row_of_encounter df r =
     (filter (\<lambda>r'. encounter_id_of (Image_Index r') = encounter_id_of (Image_Index r)) df = [r])"

definition ed_insert ::
  "encounter_diagnosis_row list \<Rightarrow> encounter_diagnosis_row \<Rightarrow> encounter_diagnosis_row list" where
  "ed_insert rows r =
     (if encounter_diagnosis_key r \<in> set (map encounter_diagnosis_key rows) then rows
      else rows @ [r])"


section \<open>Results: the QA engine\<close>

lemma dict_set_fresh: "k \<notin> fst ` set d \<Longrightarrow> dict_set d k v = d @ [(k, v)]"
  by (induction d) auto

lemma py_dict_foldl_distinct:
  "distinct (map fst (d @ kvs)) \<Longrightarrow>
     foldl (\<lambda>d kv. dict_set d (fst kv) (snd kv)) d kvs = d @ kvs"
proof (induction kvs arbitrary: d)
  case Nil
  then show ?case by simp
next
  case (Cons kv kvs)
  have fresh: "fst kv \<notin> fst ` set d"
    using Cons.prems by auto
  have "distinct (map fst ((d @ [kv]) @ kvs))"
    using Cons.prems by simp
  then have "foldl (\<lambda>d kv. dict_set d (fst kv) (snd kv)) (d @ [kv]) kvs = (d @ [kv]) @ kvs"
    by (rule Cons.IH)
  then show ?case
    using fresh by (simp add: dict_set_fresh)
qed

lemma py_dict_distinct: "distinct (map fst kvs) \<Longrightarrow> py_dict kvs = kvs"
  using py_dict_foldl_distinct [of "[]" kvs] by (simp add: py_dict_def)

lemma run_check_healthy:
  "\<not> in_failed_tx conn \<Longrightarrow>
     run_check server conn q =
       (check_result q (server (snd q)),
        conn\<lparr>rollbacks := rollbacks conn + (if is_raised (server (snd q)) then 1 else 0)\<rparr>)"
  by (cases "server (snd q)")
     (simp_all add: run_check_def cursor_execute_def is_raised_def conn_rollback_def)

lemma run_all_loop_healthy:
  "\<not> in_failed_tx conn \<Longrightarrow>
     run_all_loop server qs conn results =
       (results @ map (\<lambda>q. check_result q (server (snd q))) qs,
        conn\<lparr>rollbacks := rollbacks conn + raised_count server qs\<rparr>)"
proof (induction qs arbitrary: conn results)
  case Nil
  then show ?case by (simp add: raised_count_def)
next
  case (Cons q qs)
  let ?c = "conn\<lparr>rollbacks := rollbacks conn + (if is_raised (server (snd q)) then 1 else 0)\<rparr>"
  have healthy: "\<not> in_failed_tx ?c"
    using Cons.prems by simp
  show ?case
    using Cons.prems Cons.IH [OF healthy]
    by (simp add: run_check_healthy raised_count_def)
qed

text \<open>
  Claim C8. Every predicate of the battery yields exactly one result entry, in order, and
  the entry is decided by that predicate's own query alone: PASS with the fixed text when
  the query returns no rows, FAIL with every returned row as a dictionary when it returns
  rows, ERROR with the exception message when it raises. Each raising predicate is followed
  by one rollback, so the connection is healthy again for the next predicate and the loop
  runs through the whole battery.
\<close>

theorem qa_per_predicate_semantics:
  "fst (run_all server) = map (\<lambda>q. check_result q (server (snd q))) load_queries
   \<and> length (fst (run_all server)) = length load_queries
   \<and> map qa_id (fst (run_all server)) = map fst load_queries
   \<and> snd (run_all server) =
       \<lparr>in_failed_tx = False, rollbacks = raised_count server load_queries\<rparr>
   \<and> check_result q (Fetched cols []) =
       \<lparr>qa_id = fst q, qa_description = describe_query (fst q),
        qa_status = ''PASS'', qa_output = OutText no_rows_text\<rparr>
   \<and> check_result q (Fetched cols (r # rs)) =
       \<lparr>qa_id = fst q, qa_description = describe_query (fst q),
        qa_status = ''FAIL'',
        qa_output = OutRows (map (\<lambda>r. py_dict (zip cols r)) (r # rs))\<rparr>
   \<and> check_result q (Raised m) =
       \<lparr>qa_id = fst q, qa_description = describe_query (fst q),
        qa_status = ''ERROR'', qa_output = OutText m\<rparr>"
proof -
  have run: "run_all server =
      (map (\<lambda>q. check_result q (server (snd q))) load_queries,
       new_connection\<lparr>rollbacks := rollbacks new_connection + raised_count server load_queries\<rparr>)"
    unfolding run_all_def
    using run_all_loop_healthy [of new_connection server load_queries "[]"]
    by (simp add: new_connection_def)
  have id1: "qa_id (check_result q' out) = fst q'" for q' out
    by (cases out) (simp_all add: check_result_def)
  have ids: "map qa_id (map (\<lambda>q. check_result q (server (snd q))) qs) = map fst qs" for qs
    by (induction qs) (simp_all add: id1)
  have c1: "fst (run_all server) = map (\<lambda>q. check_result q (server (snd q))) load_queries"
    by (simp add: run)
  have c2: "length (fst (run_all server)) = length load_queries"
    by (simp add: c1)
  have c3: "map qa_id (fst (run_all server)) = map fst load_queries"
    by (simp only: c1 ids)
  have c4: "snd (run_all server) =
       \<lparr>in_failed_tx = False, rollbacks = raised_count server load_queries\<rparr>"
    by (simp add: run new_connection_def)
  show ?thesis
    using c1 c2 c3 c4 by (simp add: check_result_def)
qed


section \<open>Results: the incremental extraction filter\<close>

lemma enrich_enumerate_base:
  "map (\<lambda>x. base (enrich orc x)) (List.enumerate n rks) = map fst rks"
  by (induction rks arbitrary: n) (simp_all add: enrich_def Let_def)

lemma enrich_enumerate_code:
  "map (\<lambda>x. nih_procedure_code (enrich orc x)) (List.enumerate n rks) = map snd rks"
  by (induction rks arbitrary: n) (simp_all add: enrich_def Let_def)

lemma keyed_filter:
  "filter (\<lambda>rk. snd rk \<notin> E) (map (\<lambda>r. (r, nih_code r)) df)
     = map (\<lambda>r. (r, nih_code r)) (filter (\<lambda>r. nih_code r \<notin> E) df)"
  by (induction df) simp_all

lemma transform_db: "fst (snd (transform p orc db df)) = db"
  by (simp add: transform_def Let_def)

lemma transform_rows:
  "map base (out_rows (snd (snd (transform p orc db df)))) = kept_rows p db df"
  by (simp add: transform_def Let_def out_rows_def kept_rows_def enrich_enumerate_base
        keyed_filter comp_def)

lemma transform_codes:
  "map nih_procedure_code (out_rows (snd (snd (transform p orc db df))))
     = map nih_code (kept_rows p db df)"
  by (simp add: transform_def Let_def out_rows_def kept_rows_def enrich_enumerate_code
        keyed_filter comp_def)

lemma transform_skipped:
  "records_skipped (stats (fst (transform p orc db df))) =
     (if incremental p \<and> get_existing_image_indices db \<noteq> {}
      then length df - length (kept_rows p db df) else records_skipped (stats p))"
  by (simp add: transform_def Let_def kept_rows_def keyed_filter)

lemma transform_none:
  "snd (snd (transform p orc db df)) = None \<longleftrightarrow> kept_rows p db df = []"
  by (auto simp add: transform_def Let_def kept_rows_def keyed_filter)

text \<open>
  Claim C6. With the incremental filter active on a fresh pipeline object, \<^verbatim>\<open>transform\<close>
  returns the store untouched, and its output rows are exactly the candidates, in input
  order, whose key \<^verbatim>\<open>'NIH_' + image index without '.png'\<close> is not among the procedure
  codes already loaded; each output row carries that key; the output is \<^verbatim>\<open>None\<close>
  exactly when nothing is left; the skipped count is the input size minus the output size;
  with no loaded key every candidate passes and the skipped count is zero.
\<close>

theorem transform_is_set_difference:
  assumes "transform (new_pipeline True db) orc db df = (p', db', out)"
  shows "db' = db
    \<and> map base (out_rows out) = filter (\<lambda>r. nih_code r \<notin> get_existing_image_indices db) df
    \<and> map nih_procedure_code (out_rows out) = map nih_code (map base (out_rows out))
    \<and> (out = None \<longleftrightarrow> out_rows out = [])
    \<and> records_skipped (stats p') = length df - length (out_rows out)
    \<and> (get_existing_image_indices db = {} \<longrightarrow>
         map base (out_rows out) = df \<and> records_skipped (stats p') = 0)"
proof -
  let ?p = "new_pipeline True db"
  have inc: "incremental ?p" and zero: "records_skipped (stats ?p) = 0"
    by (simp_all add: new_pipeline_def zero_stats_def)
  have kept: "kept_rows ?p db df = filter (\<lambda>r. nih_code r \<notin> get_existing_image_indices db) df"
    using inc by (simp add: kept_rows_def)
  have d: "db' = db"
    using transform_db [of ?p orc db df] assms by simp
  have r: "map base (out_rows out) = kept_rows ?p db df"
    using transform_rows [of ?p orc db df] assms by simp
  have c: "map nih_procedure_code (out_rows out) = map nih_code (kept_rows ?p db df)"
    using transform_codes [of ?p orc db df] assms by simp
  have n: "out = None \<longleftrightarrow> kept_rows ?p db df = []"
    using transform_none [of ?p orc db df] assms by simp
  have len: "length (out_rows out) = length (kept_rows ?p db df)"
    using r by (metis length_map)
  have s: "records_skipped (stats p') =
     (if get_existing_image_indices db \<noteq> {} then length df - length (kept_rows ?p db df) else 0)"
    using transform_skipped [of ?p orc db df] assms inc zero by simp
  have e: "get_existing_image_indices db = {} \<Longrightarrow> kept_rows ?p db df = df"
    by (simp add: kept)
  show ?thesis
    using d r c n len s e kept by (auto simp: out_rows_def)
qed

text \<open>
  The filter on the two example rows: against the empty store both pass, against the
  store that holds the first image's procedure only the second passes and one is skipped.
\<close>

theorem transform_is_set_difference_witness:
  "map base (out_rows (snd (snd (transform (new_pipeline True ex_db) ex_rng ex_db [ex_row_a, ex_row_b]))))
      = [ex_row_a, ex_row_b]
   \<and> records_skipped (stats (fst (transform (new_pipeline True ex_db) ex_rng ex_db [ex_row_a, ex_row_b]))) = 0
   \<and> map base (out_rows (snd (snd (transform (new_pipeline True ex_db_loaded) ex_rng ex_db_loaded [ex_row_a, ex_row_b]))))
      = [ex_row_b]
   \<and> records_skipped (stats (fst (transform (new_pipeline True ex_db_loaded) ex_rng ex_db_loaded [ex_row_a, ex_row_b]))) = 1"
proof -
  let ?T = "transform (new_pipeline True ex_db) ex_rng ex_db [ex_row_a, ex_row_b]"
  let ?U = "transform (new_pipeline True ex_db_loaded) ex_rng ex_db_loaded [ex_row_a, ex_row_b]"
  have e: "get_existing_image_indices ex_db = {}"
    by (simp add: get_existing_image_indices_def ex_db_def)
  have f: "filter (\<lambda>r. nih_code r \<notin> get_existing_image_indices ex_db_loaded) [ex_row_a, ex_row_b]
             = [ex_row_b]"
    by code_simp
  have t: "?T = (fst ?T, fst (snd ?T), snd (snd ?T))" and u: "?U = (fst ?U, fst (snd ?U), snd (snd ?U))"
    by simp_all
  show ?thesis
    using transform_is_set_difference [OF t] transform_is_set_difference [OF u] e f
    by (metis One_nat_def diff_Suc_1 length_Cons length_map list.size(3) numeral_2_eq_2)
qed


section \<open>Results: the diagnosis rows built for a record\<close>

lemma diagnosis_rows_length: "length (diagnosis_rows cache enc dt rls) \<le> length rls"
  by (induction rls) (auto simp: Let_def split: option.splits)

lemma diagnosis_rows_rank_in:
  "r \<in> set (diagnosis_rows cache enc dt rls) \<Longrightarrow>
     diagnosis_rank r \<in> fst ` set rls \<and> ed_encounter_id r = enc
     \<and> is_primary r = (diagnosis_rank r = 1)"
  by (induction rls) (auto simp: Let_def split: option.splits if_splits)

lemma diagnosis_rows_distinct:
  "distinct (map fst rls) \<Longrightarrow> distinct (map diagnosis_rank (diagnosis_rows cache enc dt rls))"
proof (induction rls)
  case Nil
  then show ?case by simp
next
  case (Cons rl rls)
  have notin: "fst rl \<notin> diagnosis_rank ` set (diagnosis_rows cache enc dt rls)"
    using Cons.prems diagnosis_rows_rank_in [of _ cache enc dt rls] by auto
  show ?case
    using Cons notin by (auto simp: Let_def split: option.splits)
qed

lemma filter_key_le_one:
  "distinct (map f xs) \<Longrightarrow> length (filter (\<lambda>x. f x = a) xs) \<le> 1"
proof (induction xs)
  case Nil
  then show ?case by simp
next
  case (Cons x xs)
  show ?case
  proof (cases "f x = a")
    case True
    then have "a \<notin> f ` set xs" using Cons.prems by auto
    then have "filter (\<lambda>x. f x = a) xs = []"
      by (auto simp: filter_empty_conv)
    then show ?thesis using True by simp
  next
    case False
    then show ?thesis using Cons by simp
  qed
qed

lemma row_diagnoses_ranks_distinct:
  "distinct (map diagnosis_rank (row_diagnoses cache x))"
  unfolding row_diagnoses_def
  by (rule diagnosis_rows_distinct) (simp add: enumerate_eq_zip)

lemma row_diagnoses_member:
  assumes "r \<in> set (row_diagnoses cache x)"
  shows "rank_flag_ok (encounter_id_of (Image_Index (base x))) r"
proof -
  let ?rls = "List.enumerate 1 (take 3 (diagnosis_list x))"
  have m: "diagnosis_rank r \<in> fst ` set ?rls \<and> ed_encounter_id r = encounter_id_of (Image_Index (base x))
     \<and> is_primary r = (diagnosis_rank r = 1)"
    using assms diagnosis_rows_rank_in unfolding row_diagnoses_def by blast
  have "fst ` set ?rls = {1..<1 + length (take 3 (diagnosis_list x))}"
    by (metis list.set_map map_fst_enumerate set_upt)
  then have "1 \<le> diagnosis_rank r \<and> diagnosis_rank r \<le> 3"
    using m by auto
  then show ?thesis
    using m by (simp add: rank_flag_ok_def)
qed

lemma row_diagnoses_primary_filter:
  "filter is_primary (row_diagnoses cache x)
     = filter (\<lambda>r. diagnosis_rank r = 1) (row_diagnoses cache x)"
  by (rule filter_cong) (auto dest: row_diagnoses_member simp: rank_flag_ok_def)

lemma row_diagnoses_first:
  assumes "first_resolves cache x"
  shows "\<exists>r rest. row_diagnoses cache x = r # rest \<and> primary_rank1 r"
proof -
  obtain l ls where dl: "diagnosis_list x = l # ls"
    using assms by (cases "diagnosis_list x") (simp_all add: first_resolves_def)
  have en: "List.enumerate 1 (take 3 (diagnosis_list x)) = (1, l) # List.enumerate 2 (take 2 ls)"
    by (simp add: dl take_Cons' numeral_2_eq_2)
  show ?thesis
    using assms unfolding row_diagnoses_def en
    by (auto simp: first_resolves_def dl Let_def primary_rank1_def split: option.splits)
qed

text \<open>
  The rows built for one record, before they are inserted: at most three, from the first
  three labels, all for the record's encounter, with ranks between 1 and 3; a row is
  primary exactly when its rank is 1, so at most one row is primary; and when the first
  label resolves through the ICD-10 mapping and the diagnosis cache, exactly one row is
  primary with rank 1.
\<close>

lemma row_diagnoses_ranked:
  "length (row_diagnoses cache x) \<le> 3
   \<and> list_all (rank_flag_ok (encounter_id_of (Image_Index (base x)))) (row_diagnoses cache x)
   \<and> length (filter is_primary (row_diagnoses cache x)) \<le> 1
   \<and> (first_resolves cache x \<longrightarrow> length (filter primary_rank1 (row_diagnoses cache x)) = 1)"
proof -
  have a: "length (row_diagnoses cache x) \<le> 3"
    unfolding row_diagnoses_def
    using diagnosis_rows_length [of cache _ _ "List.enumerate 1 (take 3 (diagnosis_list x))"]
    by simp
  have b: "list_all (rank_flag_ok (encounter_id_of (Image_Index (base x)))) (row_diagnoses cache x)"
    by (simp add: list_all_iff row_diagnoses_member)
  have c: "length (filter is_primary (row_diagnoses cache x)) \<le> 1"
    unfolding row_diagnoses_primary_filter
    by (rule filter_key_le_one) (rule row_diagnoses_ranks_distinct)
  have pr: "filter primary_rank1 (row_diagnoses cache x) = filter is_primary (row_diagnoses cache x)"
    by (rule filter_cong) (auto dest: row_diagnoses_member simp: rank_flag_ok_def primary_rank1_def)
  have d: "length (filter primary_rank1 (row_diagnoses cache x)) = 1" if fr: "first_resolves cache x"
  proof -
    obtain r rest where "row_diagnoses cache x = r # rest" "primary_rank1 r"
      using row_diagnoses_first [OF fr] by blast
    then have "1 \<le> length (filter primary_rank1 (row_diagnoses cache x))"
      by simp
    then show ?thesis using c pr by simp
  qed
  show ?thesis using a b c d by blast
qed

text \<open>
  The second example row (\<^verbatim>\<open>Pneumonia|Effusion\<close>): its first label resolves and it has
  exactly one primary row.
\<close>

lemma row_diagnoses_ranked_example:
  "first_resolves (load_diagnosis_cache ex_db) ex_xrow_b
   \<and> length (filter primary_rank1 (row_diagnoses (load_diagnosis_cache ex_db) ex_xrow_b)) = 1
   \<and> length (row_diagnoses (load_diagnosis_cache ex_db) ex_xrow_b) \<le> 3"
proof -
  have f: "first_resolves (load_diagnosis_cache ex_db) ex_xrow_b"
    by code_simp
  show ?thesis
    using f row_diagnoses_ranked [of "load_diagnosis_cache ex_db" ex_xrow_b] by blast
qed


section \<open>Results: patient id synthesis\<close>

lemma is_digit_val: "is_digit c \<Longrightarrow> digit_val c < 10 \<and> 48 \<le> (of_char c :: nat) \<and> c \<noteq> CHR ''P''"
  by (auto simp: is_digit_def digit_val_def)

lemma digit_char_props:
  assumes "d < 10"
  shows "digit_val (digit_char d) = d" and "is_digit (digit_char d)"
proof -
  have "d \<in> {0, 1, 2, 3, 4, 5, 6, 7, 8, 9}"
    using assms by auto
  then show "digit_val (digit_char d) = d" and "is_digit (digit_char d)"
    by (auto simp: digit_char_def digit_val_def is_digit_def)
qed

lemma nat_of_digits_snoc: "nat_of_digits (xs @ [c]) = 10 * nat_of_digits xs + digit_val c"
  by (simp add: nat_of_digits_def)

lemma str_of_nat_props:
  "nat_of_digits (str_of_nat n) = n \<and> list_all is_digit (str_of_nat n) \<and> str_of_nat n \<noteq> []"
proof (induction n rule: str_of_nat.induct)
  case (1 n)
  show ?case
  proof (cases "n < 10")
    case True
    then have "str_of_nat n = [digit_char n]"
      by (subst str_of_nat.simps) simp
    then show ?thesis
      using True by (simp add: nat_of_digits_def digit_char_props)
  next
    case False
    have m: "n mod 10 < 10" by simp
    have "str_of_nat n = str_of_nat (n div 10) @ [digit_char (n mod 10)]"
      using False by (subst str_of_nat.simps) simp
    then show ?thesis
      using False "1.IH" digit_char_props [OF m]
      by (simp add: nat_of_digits_snoc)
  qed
qed

lemma nat_of_digits_zeros: "nat_of_digits (replicate k (CHR ''0'') @ s) = nat_of_digits s"
  by (induction k) (simp_all add: nat_of_digits_def digit_val_def)

lemma digit_not_sign: "is_digit c \<Longrightarrow> \<not> is_sign c \<and> \<not> is_space c \<and> c \<noteq> CHR ''_''"
  by (auto simp: is_digit_def is_sign_def is_space_def)

lemma zfill_digits:
  assumes "s \<noteq> []" and "list_all is_digit s"
  shows "zfill w s = replicate (w - length s) (CHR ''0'') @ s"
  using assms by (cases s) (auto simp: zfill_def digit_not_sign)

lemma synth_nonneg:
  "0 \<le> n \<Longrightarrow>
     drop 3 (synth_patient_id n)
       = replicate (7 - length (str_of_nat (nat n))) (CHR ''0'') @ str_of_nat (nat n)"
  by (simp add: synth_patient_id_def py_str_def zfill_digits str_of_nat_props)

lemma synth_neg:
  "n < 0 \<Longrightarrow>
     drop 3 (synth_patient_id n)
       = CHR ''-'' # replicate (7 - Suc (length (str_of_nat (nat (- n))))) (CHR ''0'')
           @ str_of_nat (nat (- n))"
  by (simp add: synth_patient_id_def py_str_def zfill_def is_sign_def)

lemma zeros_digits: "list_all is_digit (replicate k (CHR ''0'') @ str_of_nat j)"
proof -
  have "list_all is_digit (str_of_nat j)"
    using str_of_nat_props by blast
  moreover have "list_all is_digit (replicate k (CHR ''0''))"
    by (induction k) (simp_all add: is_digit_def)
  ultimately show ?thesis by simp
qed

lemma synth_value: "0 \<le> n \<Longrightarrow> int (nat_of_digits (drop 3 (synth_patient_id n))) = n"
  by (simp add: synth_nonneg nat_of_digits_zeros str_of_nat_props)

lemma synth_neg_value:
  "n < 0 \<Longrightarrow> int (nat_of_digits (tl (drop 3 (synth_patient_id n)))) = - n"
  by (simp add: synth_neg nat_of_digits_zeros str_of_nat_props)

lemma synth_inj:
  assumes "synth_patient_id m = synth_patient_id n"
  shows "m = n"
proof -
  have e: "drop 3 (synth_patient_id m) = drop 3 (synth_patient_id n)"
    by (simp only: assms)
  have mixed: False if a: "0 \<le> a" and b: "b < 0"
    and ab: "drop 3 (synth_patient_id a) = drop 3 (synth_patient_id b)" for a b
  proof -
    have "list_all is_digit (drop 3 (synth_patient_id a))"
      unfolding synth_nonneg [OF a] by (rule zeros_digits)
    then have "list_all is_digit (CHR ''-'' # replicate (7 - Suc (length (str_of_nat (nat (- b))))) (CHR ''0'')
           @ str_of_nat (nat (- b)))"
      unfolding ab synth_neg [OF b] .
    then have "is_digit (CHR ''-'')"
      by simp
    then show False by (simp add: is_digit_def)
  qed
  consider "0 \<le> m \<and> 0 \<le> n" | "m < 0 \<and> n < 0" | "0 \<le> m \<and> n < 0" | "m < 0 \<and> 0 \<le> n"
    by linarith
  then show ?thesis
  proof cases
    case 1
    have "m = int (nat_of_digits (drop 3 (synth_patient_id m)))"
      using 1 by (metis synth_value)
    also have "\<dots> = int (nat_of_digits (drop 3 (synth_patient_id n)))"
      by (simp only: e)
    also have "\<dots> = n"
      using 1 by (metis synth_value)
    finally show ?thesis .
  next
    case 2
    have "- m = int (nat_of_digits (tl (drop 3 (synth_patient_id m))))"
      using 2 by (metis synth_neg_value)
    also have "\<dots> = int (nat_of_digits (tl (drop 3 (synth_patient_id n))))"
      by (simp only: e)
    also have "\<dots> = - n"
      using 2 by (metis synth_neg_value)
    finally show ?thesis by linarith
  next
    case 3
    then show ?thesis using mixed [of m n] e by blast
  next
    case 4
    then show ?thesis using mixed [of n m] e by metis
  qed
qed

lemma synth_like_PAT: "like_PAT (synth_patient_id n)"
  by (simp add: synth_patient_id_def like_PAT_def)

lemma foldl_digits_shift:
  "foldl (\<lambda>acc c. 10 * acc + digit_val c) a cs
     = a * 10 ^ length cs + foldl (\<lambda>acc c. 10 * acc + digit_val c) 0 cs"
proof -
  define f where "f = (\<lambda>acc c. 10 * acc + digit_val c)"
  have "foldl f a cs = a * 10 ^ length cs + foldl f 0 cs" for a
  proof (induction cs arbitrary: a)
    case Nil
    then show ?case by simp
  next
    case (Cons c cs)
    have fa: "f a c = 10 * a + digit_val c" and f0: "f 0 c = digit_val c"
      by (simp_all add: f_def)
    have "foldl f a (c # cs) = (10 * a + digit_val c) * 10 ^ length cs + foldl f 0 cs"
      using Cons.IH [of "f a c"] by (simp add: fa)
    moreover have "foldl f 0 (c # cs) = digit_val c * 10 ^ length cs + foldl f 0 cs"
      using Cons.IH [of "f 0 c"] by (simp add: f0)
    ultimately show ?case
      by (simp add: algebra_simps)
  qed
  then show ?thesis unfolding f_def .
qed

lemma nat_of_digits_Cons:
  "nat_of_digits (c # cs) = digit_val c * 10 ^ length cs + nat_of_digits cs"
  using foldl_digits_shift [of "digit_val c" cs] by (simp add: nat_of_digits_def)

lemma nat_of_digits_bound: "list_all is_digit cs \<Longrightarrow> nat_of_digits cs < 10 ^ length cs"
proof (induction cs)
  case Nil
  then show ?case by (simp add: nat_of_digits_def)
next
  case (Cons c cs)
  have d: "digit_val c < 10" and r: "nat_of_digits cs < 10 ^ length cs"
    using Cons is_digit_val by auto
  have "digit_val c * 10 ^ length cs + nat_of_digits cs < Suc (digit_val c) * 10 ^ length cs"
    using r by simp
  also have "\<dots> \<le> 10 * 10 ^ length cs"
    using d by (intro mult_le_mono1) simp
  finally show ?case
    by (simp add: nat_of_digits_Cons)
qed

lemma str_le_digits:
  "length a = length b \<Longrightarrow> list_all is_digit a \<Longrightarrow> list_all is_digit b \<Longrightarrow> str_le a b
     \<Longrightarrow> nat_of_digits a \<le> nat_of_digits b"
proof (induction a b rule: list_induct2)
  case Nil
  then show ?case by simp
next
  case (Cons x xs y ys)
  show ?case
  proof (cases "x = y")
    case True
    then show ?thesis using Cons by (simp add: nat_of_digits_Cons)
  next
    case False
    then have lt: "(of_char x :: nat) < of_char y"
      using Cons.prems by simp
    have "48 \<le> (of_char x :: nat)"
      using Cons.prems is_digit_val [of x] by simp
    then have "digit_val x < digit_val y"
      using lt unfolding digit_val_def by linarith
    then have s: "Suc (digit_val x) \<le> digit_val y" by simp
    have b: "nat_of_digits xs < 10 ^ length xs"
      using Cons.prems nat_of_digits_bound by simp
    have "digit_val x * 10 ^ length xs + nat_of_digits xs < Suc (digit_val x) * 10 ^ length xs"
      using b by simp
    also have "\<dots> \<le> digit_val y * 10 ^ length xs"
      using s by (rule mult_le_mono1)
    finally show ?thesis
      using Cons.hyps by (simp add: nat_of_digits_Cons)
  qed
qed

lemma str_le_total: "\<not> str_le a b \<Longrightarrow> str_le b a"
proof (induction a b rule: str_le.induct)
  case (1 t)
  then show ?case by simp
next
  case (2 a s)
  then show ?case by simp
next
  case (3 a s b t)
  then show ?case
    by (cases "a = b") (auto simp: not_less order_le_less)
qed

lemma wf_pat_split:
  assumes "wf_pat w s"
  obtains ds where "s = ''PAT'' @ ds" and "length ds = w" and "list_all is_digit ds"
proof -
  have "take 3 s @ drop 3 s = s" by simp
  then have "''PAT'' @ drop 3 s = s"
    using assms by (simp only: wf_pat_def)
  moreover have "length (drop 3 s) = w" and "list_all is_digit (drop 3 s)"
    using assms by (simp_all add: wf_pat_def)
  ultimately show ?thesis using that by metis
qed

lemma str_le_pat:
  assumes "wf_pat w a" "wf_pat w b" "str_le a b"
  shows "nat_of_digits (drop 3 a) \<le> nat_of_digits (drop 3 b)"
proof -
  obtain da where da: "a = ''PAT'' @ da" "length da = w" "list_all is_digit da"
    using assms(1) by (rule wf_pat_split)
  obtain db where db: "b = ''PAT'' @ db" "length db = w" "list_all is_digit db"
    using assms(2) by (rule wf_pat_split)
  have "str_le da db"
    using assms(3) unfolding da(1) db(1) by simp
  then have "nat_of_digits da \<le> nat_of_digits db"
    using da db by (intro str_le_digits) simp_all
  then show ?thesis
    unfolding da(1) db(1) by simp
qed

lemma foldl_str_max:
  "wf_pat w x \<Longrightarrow> list_all (wf_pat w) xs \<Longrightarrow>
     wf_pat w (foldl str_max x xs)
     \<and> (\<forall>y \<in> set (x # xs). nat_of_digits (drop 3 y) \<le> nat_of_digits (drop 3 (foldl str_max x xs)))"
proof (induction xs arbitrary: x)
  case Nil
  then show ?case by simp
next
  case (Cons z zs)
  have wz: "wf_pat w z" and wzs: "list_all (wf_pat w) zs"
    using Cons.prems by simp_all
  have wm: "wf_pat w (str_max x z)"
    using Cons.prems(1) wz by (simp add: str_max_def)
  have bx: "nat_of_digits (drop 3 x) \<le> nat_of_digits (drop 3 (str_max x z))"
    and bz: "nat_of_digits (drop 3 z) \<le> nat_of_digits (drop 3 (str_max x z))"
    using str_le_pat [OF Cons.prems(1) wz] str_le_pat [OF wz Cons.prems(1)] str_le_total [of x z]
    by (auto simp: str_max_def)
  have ih: "wf_pat w (foldl str_max (str_max x z) zs)"
    and ub: "\<forall>y \<in> set (str_max x z # zs).
        nat_of_digits (drop 3 y) \<le> nat_of_digits (drop 3 (foldl str_max (str_max x z) zs))"
    using Cons.IH [OF wm wzs] by simp_all
  have top: "nat_of_digits (drop 3 (str_max x z)) \<le> nat_of_digits (drop 3 (foldl str_max (str_max x z) zs))"
    using ub by simp
  have "nat_of_digits (drop 3 x) \<le> nat_of_digits (drop 3 (foldl str_max (str_max x z) zs))"
    and "nat_of_digits (drop 3 z) \<le> nat_of_digits (drop 3 (foldl str_max (str_max x z) zs))"
    using bx bz top by linarith+
  then show ?case
    using ih ub by simp
qed

lemma replace_no_P: "CHR ''P'' \<notin> set s \<Longrightarrow> replace_all ''PAT'' new s = s"
  by (induction s) auto

lemma replace_PAT_digits:
  assumes "wf_pat w s"
  shows "replace_all ''PAT'' [] s = drop 3 s"
proof -
  obtain ds where ds: "s = ''PAT'' @ ds" "length ds = w" "list_all is_digit ds"
    using assms by (rule wf_pat_split)
  have "CHR ''P'' \<notin> set ds"
    using ds(3) is_digit_val by (auto simp: list_all_iff)
  then show ?thesis
    unfolding ds(1) by (simp add: replace_no_P)
qed

lemma strip_digits: "list_all is_digit s \<Longrightarrow> strip s = s"
proof -
  assume d: "list_all is_digit s"
  have a: "dropWhile is_space s = s"
    using d by (cases s) (auto simp: digit_not_sign)
  have "list_all is_digit (rev s)"
    using d by (simp add: list_all_iff)
  then have "dropWhile is_space (rev s) = rev s"
    by (cases "rev s") (auto simp: digit_not_sign)
  then show ?thesis by (simp add: strip_def a)
qed

lemma digit_groups_digits: "s \<noteq> [] \<Longrightarrow> list_all is_digit s \<Longrightarrow> digit_groups s"
  by (induction s rule: digit_groups.induct) (auto simp: digit_not_sign)

lemma filter_digits_id: "list_all is_digit ds \<Longrightarrow> filter is_digit ds = ds"
  by (induction ds) auto

lemma py_int_digits:
  assumes "s \<noteq> []" and "list_all is_digit s"
  shows "py_int s = Inr (int (nat_of_digits s))"
proof -
  obtain c r where s: "s = c # r" using assms(1) by (cases s) auto
  have c: "\<not> is_sign c" "c \<noteq> CHR ''-''"
    using assms(2) s digit_not_sign [of c] by (auto simp: is_sign_def)
  show ?thesis
    using assms c
    by (simp add: py_int_def strip_digits digit_groups_digits filter_digits_id s)
qed

lemma next_patient_base_bound:
  assumes fw: "pat_ids_fixed_width w db" and nb: "next_patient_base db = Inr lid"
    and mem: "pid \<in> set (map patient_id (patients db))" and lp: "like_PAT pid"
  shows "int (nat_of_digits (drop 3 pid)) \<le> lid"
proof -
  let ?ids = "filter like_PAT (map patient_id (patients db))"
  have all: "list_all (wf_pat w) ?ids"
    using fw by (auto simp: pat_ids_fixed_width_def pat_id_ok_def wf_pat_def list_all_iff like_PAT_def)
  have pin: "pid \<in> set ?ids"
    using mem lp by simp
  then obtain x xs where ids: "?ids = x # xs"
    by (cases ?ids) auto
  let ?m = "foldl str_max x xs"
  have wx: "wf_pat w x" and wxs: "list_all (wf_pat w) xs"
    using all ids by simp_all
  have fm: "wf_pat w ?m"
    and ub: "\<forall>y \<in> set (x # xs). nat_of_digits (drop 3 y) \<le> nat_of_digits (drop 3 ?m)"
    using foldl_str_max [OF wx wxs] by simp_all
  have ne: "?m \<noteq> []"
    using fm by (auto simp: wf_pat_def)
  have dg: "list_all is_digit (drop 3 ?m)"
    using fm by (simp add: wf_pat_def)
  have pi: "py_int (drop 3 ?m) = Inr lid"
    using nb ne replace_PAT_digits [OF fm]
    by (simp add: next_patient_base_def sql_max_str_def ids)
  have "drop 3 ?m \<noteq> []"
  proof
    assume "drop 3 ?m = []"
    then have "py_int (drop 3 ?m) = Inl ValueError"
      by (simp add: py_int_def strip_def)
    then show False using pi by simp
  qed
  then have "lid = int (nat_of_digits (drop 3 ?m))"
    using pi py_int_digits [OF _ dg] by simp
  moreover have "pid \<in> set (x # xs)"
    using pin ids by simp
  ultimately show ?thesis
    using ub by auto
qed

lemma bulk_step_ids:
  assumes "bulk_step t ex st u = Inr st'"
  shows "(last_id st' = last_id st
          \<and> map patient_id (new_patients st') = map patient_id (new_patients st))
       \<or> (last_id st' = last_id st + 1
          \<and> map patient_id (new_patients st')
              = map patient_id (new_patients st) @ [synth_patient_id (last_id st + 1)])"
  using assms
  by (auto simp: bulk_step_def Let_def synth_patient_id_def split: option.splits sum.splits)

lemma bulk_loop_ids:
  "bulk_loop t ex st ups = Inr st' \<Longrightarrow>
     last_id st \<le> last_id st'
     \<and> map patient_id (new_patients st')
         = map patient_id (new_patients st) @ map synth_patient_id [last_id st + 1..last_id st']"
proof (induction ups arbitrary: st)
  case Nil
  then show ?case by simp
next
  case (Cons u ups)
  obtain s1 where s1: "bulk_step t ex st u = Inr s1" and r: "bulk_loop t ex s1 ups = Inr st'"
    using Cons.prems by (auto split: sum.splits)
  have ih: "last_id s1 \<le> last_id st'"
    "map patient_id (new_patients st')
       = map patient_id (new_patients s1) @ map synth_patient_id [last_id s1 + 1..last_id st']"
    using Cons.IH [OF r] by simp_all
  show ?case
    using bulk_step_ids [OF s1]
  proof
    assume "last_id s1 = last_id st
      \<and> map patient_id (new_patients s1) = map patient_id (new_patients st)"
    then show ?thesis using ih by simp
  next
    assume a: "last_id s1 = last_id st + 1
      \<and> map patient_id (new_patients s1)
          = map patient_id (new_patients st) @ [synth_patient_id (last_id st + 1)]"
    have le: "last_id st + 1 \<le> last_id st'" using a ih(1) by simp
    have "[last_id st + 1..last_id st'] = (last_id st + 1) # [last_id st + 1 + 1..last_id st']"
      using le by (rule upto_rec1)
    then show ?thesis using a ih le by simp
  qed
qed

text \<open>
  Claim C9, as amended. One \<^verbatim>\<open>MAX(patient_id)\<close> query gives the base, and the ids of
  the batch are \<^verbatim>\<open>PAT\<close> plus the zero-padded successors of the base, in order. They are
  pairwise distinct, whatever the store holds. They differ from every id of the store
  when the store keeps the id format: every id that starts with \<^verbatim>\<open>PAT\<close> is
  \<^verbatim>\<open>PAT\<close> and the same number of decimal digits (seven in this repository), so that
  the string maximum is the numeric maximum.
\<close>

theorem new_patient_ids_fresh:
  assumes nb: "next_patient_base db = Inr lid"
    and bp: "bulk_plan now_t ups db = Inr st"
  shows "map patient_id (new_patients st) = map synth_patient_id [lid + 1..last_id st]
    \<and> distinct (map patient_id (new_patients st))
    \<and> (pat_ids_fixed_width w db \<longrightarrow>
         set (map patient_id (new_patients st)) \<inter> set (map patient_id (patients db)) = {})"
proof -
  let ?ex = "existing_patients_of db (map (\<lambda>u. patient_email (fst u)) ups)"
  let ?st0 = "\<lparr>last_id = lid, new_patients = [], patient_map = [], created = 0\<rparr>"
  have st: "bulk_loop now_t ?ex ?st0 ups = Inr st"
    using bp nb by (simp add: bulk_plan_def Let_def)
  have a: "map patient_id (new_patients st) = map synth_patient_id [lid + 1..last_id st]"
    using bulk_loop_ids [OF st] by simp
  have "inj_on synth_patient_id (set [lid + 1..last_id st])"
    by (rule inj_onI) (rule synth_inj)
  then have b: "distinct (map patient_id (new_patients st))"
    unfolding a by (simp add: distinct_map)
  have c: "set (map patient_id (new_patients st)) \<inter> set (map patient_id (patients db)) = {}"
    if fw: "pat_ids_fixed_width w db"
  proof (rule ccontr)
    assume "\<not> ?thesis"
    then obtain pid where p1: "pid \<in> set (map patient_id (new_patients st))"
      and p2: "pid \<in> set (map patient_id (patients db))"
      by blast
    obtain n where n: "pid = synth_patient_id n" "lid < n"
      using p1 unfolding a by auto
    have bd: "int (nat_of_digits (drop 3 pid)) \<le> lid"
      using next_patient_base_bound [OF fw nb p2] n synth_like_PAT by simp
    then have "0 \<le> n" using n(2) by linarith
    then show False
      using n bd synth_value [of n] by simp
  qed
  show ?thesis using a b c by blast
qed


section \<open>Results: idempotent load\<close>

lemma insert_procedure_codes:
  "procedure_codes db \<subseteq> procedure_codes (insert_procedure db pr)
   \<and> procedure_code pr \<in> procedure_codes (insert_procedure db pr)"
  by (auto simp: insert_procedure_def procedure_codes_def procedure_key_def Let_def)

lemma foldl_insert_procedure_codes:
  "procedure_codes db \<union> procedure_code ` set prs
     \<subseteq> procedure_codes (foldl insert_procedure db prs)"
proof (induction prs arbitrary: db)
  case Nil
  then show ?case by simp
next
  case (Cons pr prs)
  show ?case
    using Cons.IH [of "insert_procedure db pr"] insert_procedure_codes [of db pr]
    by auto
qed

lemma foldl_insert_encounter_procedures:
  "procedures (foldl insert_encounter db es) = procedures db"
  by (induction es arbitrary: db) (simp_all add: insert_encounter_def)

lemma foldl_insert_encounter_diagnosis_procedures:
  "procedures (foldl insert_encounter_diagnosis db rs) = procedures db"
  by (induction rs arbitrary: db) (simp_all add: insert_encounter_diagnosis_def)

lemma foldl_insert_report_procedures:
  "procedures (foldl insert_report db rs) = procedures db"
  by (induction rs arbitrary: db) (simp_all add: insert_report_def Let_def)

lemma insert_patients_procedures:
  "insert_patients db ps = Inr db' \<Longrightarrow> procedures db' = procedures db"
  by (induction ps arbitrary: db) (auto split: if_splits)

lemma bulk_create_patients_procedures:
  "bulk_create_patients p orc batch db = Inr (pm, p1, db1) \<Longrightarrow> procedures db1 = procedures db"
  by (auto simp: bulk_create_patients_def Let_def insert_patients_procedures
           split: if_splits sum.splits)

lemma procedure_codes_cong: "procedures a = procedures b \<Longrightarrow> procedure_codes a = procedure_codes b"
  by (simp add: procedure_codes_def)

lemma load_batch_codes:
  assumes "load_batch_optimized p orc batch db = Inr (p', db')"
  shows "procedure_codes db \<union> nih_procedure_code ` set batch \<subseteq> procedure_codes db'"
proof -
  obtain pm p1 db1 where b: "bulk_create_patients p orc batch db = Inr (pm, p1, db1)"
    using assms by (auto simp: load_batch_optimized_def split: sum.splits)
  obtain sample where s: "random_choices (rand_facility orc) (facility_ids p1) (length batch) = Inr sample"
    using assms b by (auto simp: load_batch_optimized_def split: sum.splits)
  obtain encs where e: "collect (make_encounter orc pm) (List.enumerate 0 (zip batch sample)) = Inr encs"
    using assms b s by (auto simp: load_batch_optimized_def split: sum.splits)
  let ?db2 = "foldl insert_encounter db1 encs"
  let ?db3 = "foldl insert_procedure ?db2 (map make_procedure batch)"
  have "procedures db' = procedures ?db3"
    using assms b s e
    by (auto simp: load_batch_optimized_def Let_def foldl_insert_report_procedures
          foldl_insert_encounter_diagnosis_procedures split: if_splits)
  then have c': "procedure_codes db' = procedure_codes ?db3"
    by (rule procedure_codes_cong)
  have "procedures ?db2 = procedures db"
    using bulk_create_patients_procedures [OF b] by (simp add: foldl_insert_encounter_procedures)
  then have c2: "procedure_codes ?db2 = procedure_codes db"
    by (rule procedure_codes_cong)
  have "procedure_code ` set (map make_procedure batch) = nih_procedure_code ` set batch"
    by (auto simp: make_procedure_def image_iff)
  then show ?thesis
    using foldl_insert_procedure_codes [of ?db2 "map make_procedure batch"] c' c2 by simp
qed

lemma load_batches_codes:
  "load_batches p orcs df ns db = Inr (p', db') \<Longrightarrow>
     procedure_codes db \<subseteq> procedure_codes db'
     \<and> (\<forall>n \<in> set ns. nih_procedure_code ` set (take BATCH_SIZE (drop (n * BATCH_SIZE) df))
                         \<subseteq> procedure_codes db')"
proof (induction ns arbitrary: p db)
  case Nil
  then show ?case by simp
next
  case (Cons n ns)
  let ?batch = "take BATCH_SIZE (drop (n * BATCH_SIZE) df)"
  obtain p1 db1 where lb: "load_batch_optimized p (orcs n) ?batch db = Inr (p1, db1)"
    and rest: "load_batches p1 orcs df ns db1 = Inr (p', db')"
    using Cons.prems by (auto simp: Let_def split: sum.splits)
  have a: "procedure_codes db \<union> nih_procedure_code ` set ?batch \<subseteq> procedure_codes db1"
    using load_batch_codes [OF lb] .
  have b: "procedure_codes db1 \<subseteq> procedure_codes db'"
    and c: "\<forall>n \<in> set ns. nih_procedure_code ` set (take BATCH_SIZE (drop (n * BATCH_SIZE) df))
                         \<subseteq> procedure_codes db'"
    using Cons.IH [OF rest] by simp_all
  show ?case
    using a b c by auto
qed

lemma batches_cover:
  assumes "x \<in> set df" and "0 < B"
  shows "\<exists>n < length df div B + 1. x \<in> set (take B (drop (n * B) df))"
proof -
  obtain i where i: "i < length df" "df ! i = x"
    using assms(1) by (auto simp: in_set_conv_nth)
  let ?n = "i div B" and ?j = "i mod B"
  have n: "?n < length df div B + 1"
    using i(1) by (simp add: div_le_mono less_Suc_eq_le)
  have ij: "?n * B + ?j = i" by simp
  have jl: "?j < length (drop (?n * B) df)"
    using i(1) ij by (metis add.commute length_drop less_diff_conv)
  have jb: "?j < B" using assms(2) by simp
  have "take B (drop (?n * B) df) ! ?j = df ! i"
    using jl jb ij by (simp add: add.commute)
  moreover have "?j < length (take B (drop (?n * B) df))"
    using jl jb by simp
  ultimately have "x \<in> set (take B (drop (?n * B) df))"
    using i(2) by (metis nth_mem)
  then show ?thesis using n by blast
qed

lemma load_codes:
  assumes "load p orcs df db = Inr (p', db')"
  shows "procedure_codes db \<union> nih_procedure_code ` set df \<subseteq> procedure_codes db'"
proof (cases "length df = 0")
  case True
  then show ?thesis using assms by (simp add: load_def)
next
  case False
  let ?ns = "[0..<length df div BATCH_SIZE + 1]"
  have lb: "load_batches p orcs df ?ns db = Inr (p', db')"
    using assms False by (simp add: load_def)
  have a: "procedure_codes db \<subseteq> procedure_codes db'"
    and b: "\<forall>n \<in> set ?ns. nih_procedure_code ` set (take BATCH_SIZE (drop (n * BATCH_SIZE) df))
                         \<subseteq> procedure_codes db'"
    using load_batches_codes [OF lb] by simp_all
  have "nih_procedure_code x \<in> procedure_codes db'" if xin: "x \<in> set df" for x
  proof -
    have pos: "0 < BATCH_SIZE" by (simp add: BATCH_SIZE_def)
    obtain n where "n < length df div BATCH_SIZE + 1"
      and "x \<in> set (take BATCH_SIZE (drop (n * BATCH_SIZE) df))"
      using batches_cover [OF xin pos] by blast
    then have "n \<in> set ?ns" and "nih_procedure_code x \<in> nih_procedure_code ` set (take BATCH_SIZE (drop (n * BATCH_SIZE) df))"
      by auto
    then show ?thesis using b by blast
  qed
  then show ?thesis using a by auto
qed

lemma like_NIH_nih_code: "like_NIH (nih_code r)"
  by (simp add: like_NIH_def nih_code_def)

lemma existing_iff:
  "c \<in> get_existing_image_indices db \<longleftrightarrow> c \<in> procedure_codes db \<and> like_NIH c"
  by (auto simp: get_existing_image_indices_def procedure_codes_def)

lemma transform_split:
  "transform p orc db df = (fst (transform p orc db df), db, snd (snd (transform p orc db df)))"
  using transform_db [of p orc db df] by (metis prod.collapse)

lemma run_loads_all_keys:
  assumes "result_db (run_pipeline orc orcs df db0) = Some db1"
    and "r \<in> set df"
  shows "nih_code r \<in> get_existing_image_indices db1"
proof -
  let ?p = "new_pipeline True db0"
  let ?T = "transform ?p orc db0 df"
  have inc: "incremental ?p" by (simp add: new_pipeline_def)
  have kept: "kept_rows ?p db0 df = filter (\<lambda>r. nih_code r \<notin> get_existing_image_indices db0) df"
    using inc by (simp add: kept_rows_def)
  show ?thesis
  proof (cases "snd (snd ?T)")
    case None
    then obtain q where tq: "?T = (q, db0, None)"
      using transform_split [of ?p orc db0 df] by metis
    have "run ?p orc orcs df db0 = Inr (q, db0)"
      by (simp add: run_def tq)
    then have d: "db1 = db0"
      using assms(1) by (simp add: run_pipeline_def result_db_def)
    have "kept_rows ?p db0 df = []"
      using None transform_none by blast
    then show ?thesis
      using assms(2) d kept by (auto simp: filter_empty_conv)
  next
    case (Some rows)
    then obtain q where tq: "?T = (q, db0, Some rows)"
      using transform_split [of ?p orc db0 df] by metis
    have "run ?p orc orcs df db0 = load q orcs rows db0"
      by (simp add: run_def tq)
    then obtain p1 where l: "load q orcs rows db0 = Inr (p1, db1)"
      using assms(1) by (auto simp: run_pipeline_def result_db_def split: sum.splits)
    have sub: "procedure_codes db0 \<union> nih_procedure_code ` set rows \<subseteq> procedure_codes db1"
      using load_codes [OF l] .
    have codes: "map nih_procedure_code rows = map nih_code (kept_rows ?p db0 df)"
      using transform_codes [of ?p orc db0 df] Some by (simp add: out_rows_def)
    show ?thesis
    proof (cases "nih_code r \<in> get_existing_image_indices db0")
      case True
      then show ?thesis using sub by (auto simp: existing_iff)
    next
      case False
      then have "r \<in> set (kept_rows ?p db0 df)"
        using assms(2) kept by simp
      then have "nih_code r \<in> set (map nih_code (kept_rows ?p db0 df))"
        by simp
      then have "nih_code r \<in> nih_procedure_code ` set rows"
        using codes by (metis list.set_map)
      then show ?thesis
        using sub like_NIH_nih_code by (auto simp: existing_iff)
    qed
  qed
qed

text \<open>
  Claim C1. When a run of the pipeline in incremental mode over an input has completed,
  leaving the store \<open>db1\<close>, a second run over the same input (whatever the clock and
  the random draws) completes, returns \<open>db1\<close> itself, so no row is added to any
  table, and reports a skipped count equal to the input size.
\<close>

theorem load_idempotent:
  assumes "result_db (run_pipeline orc1 orcs1 df db0) = Some db1"
  shows "result_db (run_pipeline orc2 orcs2 df db1) = Some db1
    \<and> result_skipped (run_pipeline orc2 orcs2 df db1) = Some (length df)"
proof -
  let ?p = "new_pipeline True db1"
  let ?T = "transform ?p orc2 db1 df"
  have inc: "incremental ?p" and zero: "records_skipped (stats ?p) = 0"
    by (simp_all add: new_pipeline_def zero_stats_def)
  have all: "\<forall>r \<in> set df. nih_code r \<in> get_existing_image_indices db1"
    using run_loads_all_keys [OF assms] by blast
  have kept: "kept_rows ?p db1 df = []"
    using inc all by (simp add: kept_rows_def filter_empty_conv)
  then have none: "snd (snd ?T) = None"
    using transform_none by blast
  then obtain q where tq: "?T = (q, db1, None)"
    using transform_split [of ?p orc2 db1 df] by metis
  have r: "run ?p orc2 orcs2 df db1 = Inr (fst ?T, db1)"
    by (simp add: run_def tq)
  have "df = []" if "get_existing_image_indices db1 = {}"
    using all that by (cases df) auto
  then have s: "records_skipped (stats (fst ?T)) = length df"
    using transform_skipped [of ?p orc2 db1 df] inc zero kept by auto
  show ?thesis
    using r s by (simp add: run_pipeline_def result_db_def result_skipped_def)
qed


section \<open>The pipeline on the example rows\<close>

lemma ex_enrich_a: "enrich ex_rng (i, ex_row_a, nih_code ex_row_a) = ex_xrow_a"
proof -
  have c: "nih_code ex_row_a = ''NIH_00000001_000''"
    by (simp add: nih_code_def ex_row_a_def)
  have l: "split_on (CHR ''|'') (Finding_Labels ex_row_a) = [''Atelectasis'', ''Effusion'']"
    by (simp add: ex_row_a_def)
  have s: "first_stripped [''Atelectasis'', ''Effusion''] = ''Atelectasis''"
    by (simp add: first_stripped_def strip_def is_space_def)
  have m: "modality_of (View_Position ex_row_a) = ''X-Ray''"
    by (simp add: modality_of_def MODALITY_MAPPING_def dict_get_def ex_row_a_def)
  show ?thesis
    by (simp add: enrich_def Let_def c l s m ex_xrow_a_def ex_rng_def us_per_day_def
          us_per_hour_def date_of_datetime_def)
qed

lemma ex_enrich_b: "enrich ex_rng (i, ex_row_b, nih_code ex_row_b) = ex_xrow_b"
proof -
  have c: "nih_code ex_row_b = ''NIH_00000001_001''"
    by (simp add: nih_code_def ex_row_b_def)
  have l: "split_on (CHR ''|'') (Finding_Labels ex_row_b) = [''Pneumonia'', ''Effusion'']"
    by (simp add: ex_row_b_def)
  have s: "first_stripped [''Pneumonia'', ''Effusion''] = ''Pneumonia''"
    by (simp add: first_stripped_def strip_def is_space_def)
  have m: "modality_of (View_Position ex_row_b) = ''X-Ray''"
    by (simp add: modality_of_def MODALITY_MAPPING_def dict_get_def ex_row_b_def)
  show ?thesis
    by (simp add: enrich_def Let_def c l s m ex_xrow_b_def ex_rng_def us_per_day_def
          us_per_hour_def date_of_datetime_def)
qed

lemma ex_cache: "load_diagnosis_cache ex_db = [(''J18.9'', ''DIAG001''), (''J94.8'', ''DIAG037'')]"
  by (simp add: load_diagnosis_cache_def ex_db_def py_dict_def)

lemma ex_facilities: "load_facility_ids ex_db = [''FAC000001'']"
  by (simp add: load_facility_ids_def ex_db_def)

lemma ex_existing: "get_existing_image_indices ex_db = {}"
  by (simp add: get_existing_image_indices_def ex_db_def)

lemma ex_transform_a:
  "transform (new_pipeline True ex_db) ex_rng ex_db [ex_row_a] =
     ((new_pipeline True ex_db)\<lparr>stats := zero_stats\<lparr>records_processed := 1\<rparr>\<rparr>, ex_db,
      Some [ex_xrow_a])"
  by (simp add: transform_def Let_def ex_existing ex_enrich_a new_pipeline_def)

lemma ex_str_5001: "str_of_nat 5001 = ''5001''"
  by (simp add: str_of_nat.simps digit_char_def)

lemma ex_str_5002: "str_of_nat 5002 = ''5002''"
  by (simp add: str_of_nat.simps digit_char_def)

lemma ex_zfill_5001: "zfill 7 ''5001'' = ''0005001''"
  by (simp add: zfill_def is_sign_def numeral_3_eq_3)

lemma ex_zfill_5002: "zfill 7 ''5002'' = ''0005002''"
  by (simp add: zfill_def is_sign_def numeral_3_eq_3)

lemma ex_py_str_5001: "py_str 5001 = ''5001''"
  by (simp add: py_str_def ex_str_5001)

lemma ex_py_str_5002: "py_str 5002 = ''5002''"
  by (simp add: py_str_def ex_str_5002)

lemma ex_base: "next_patient_base ex_db = Inr 5000"
  by (simp add: next_patient_base_def ex_db_def sql_max_str_def)

lemma ex_no_patients: "existing_patients_of ex_db emails = []"
  by (simp add: existing_patients_of_def ex_db_def py_dict_def)

lemma ex_plan_a:
  "bulk_plan (now ex_rng) [(''1'', 58, ''M'')] ex_db =
     Inr \<lparr>last_id = 5001, new_patients = [ex_patient_a],
          patient_map = [(''1'', ''PAT0005001'')], created = 1\<rparr>"
  by (simp add: bulk_plan_def ex_base ex_no_patients bulk_step_def dict_get_def Let_def
        ex_py_str_5001 ex_zfill_5001 ex_patient_a_def patient_email_def map_gender_def ex_rng_def
        datetime_sub_days_def MAXORDINAL_def date_of_datetime_def us_per_day_def)

lemma ex_unique_a: "unique_patients_of [ex_xrow_a] = [(''1'', 58, ''M'')]"
  by (simp add: unique_patients_of_def ex_xrow_a_def ex_row_a_def)

lemma ex_bulk_a:
  "bulk_create_patients p ex_rng [ex_xrow_a] ex_db =
     Inr ([(''1'', ''PAT0005001'')],
          p\<lparr>stats := (stats p)\<lparr>patients_created := patients_created (stats p) + 1\<rparr>\<rparr>,
          ex_db\<lparr>patients := [ex_patient_a]\<rparr>)"
  by (simp add: bulk_create_patients_def ex_unique_a ex_plan_a Let_def)
     (simp add: ex_db_def ex_patient_a_def)

lemma ex_diagnoses_a:
  "row_diagnoses [(''J18.9'', ''DIAG001''), (''J94.8'', ''DIAG037'')] ex_xrow_a =
     [\<lparr>ed_encounter_id = ''NIH_00000001_000_ENC'', ed_diagnosis_id = ''DIAG037'',
       diagnosis_rank = 2, is_primary = False, diagnosis_datetime = 63737205200000000,
       ed_notes = ''NIH diagnosis: Effusion''\<rparr>]"
proof -
  have s1: "strip ''Atelectasis'' = ''Atelectasis''" and s2: "strip ''Effusion'' = ''Effusion''"
    by (simp_all add: strip_def is_space_def)
  have m1: "dict_get NIH_TO_ICD10_MAPPING ''Atelectasis'' = Some (''J98.11'', ''Atelectasis'')"
    and m2: "dict_get NIH_TO_ICD10_MAPPING ''Effusion'' = Some (''J94.8'', ''Pleural Effusion'')"
    by (simp_all add: dict_get_def NIH_TO_ICD10_MAPPING_def)
  have c1: "dict_get [(''J18.9'', ''DIAG001''), (''J94.8'', ''DIAG037'')] ''J98.11'' = None"
    and c2: "dict_get [(''J18.9'', ''DIAG001''), (''J94.8'', ''DIAG037'')] ''J94.8'' = Some ''DIAG037''"
    by (simp_all add: dict_get_def)
  have e: "encounter_id_of (Image_Index (base ex_xrow_a)) = ''NIH_00000001_000_ENC''"
    by (simp add: encounter_id_of_def ex_xrow_a_def ex_row_a_def)
  have l: "List.enumerate 1 (take 3 (diagnosis_list ex_xrow_a)) = [(1, ''Atelectasis''), (2, ''Effusion'')]"
    by (simp add: ex_xrow_a_def)
  show ?thesis
    unfolding row_diagnoses_def e l
    by (simp add: Let_def s1 s2 m1 m2 c1 c2 ex_xrow_a_def)
qed

lemma ex_load_batch_a:
  assumes "diagnosis_cache p = [(''J18.9'', ''DIAG001''), (''J94.8'', ''DIAG037'')]"
    and "facility_ids p = [''FAC000001'']"
  shows "\<exists>p'. load_batch_optimized p ex_rng [ex_xrow_a] ex_db = Inr (p', ex_db_after_a)"
proof -
  have e: "encounter_id_of (Image_Index (base ex_xrow_a)) = ''NIH_00000001_000_ENC''"
    by (simp add: encounter_id_of_def ex_xrow_a_def ex_row_a_def)
  have f: "random_choices (rand_facility ex_rng) [''FAC000001''] (Suc 0) = Inr [''FAC000001'']"
    by (simp add: random_choices_def)
  have enc: "make_encounter ex_rng [(''1'', ''PAT0005001'')] (0, ex_xrow_a, ''FAC000001'') =
             Inr \<lparr>encounter_id = ''NIH_00000001_000_ENC'', enc_patient_id = ''PAT0005001'',
                enc_facility_id = ''FAC000001'', encounter_date = 737699,
                encounter_datetime = 63737205200000000, encounter_type = ''Inpatient''\<rparr>"
    by (simp add: make_encounter_def Let_def e dict_get_def encounter_types_def ex_rng_def)
       (simp add: ex_xrow_a_def ex_row_a_def)
  have pr: "make_procedure ex_xrow_a =
      \<lparr>procedure_id = 0, proc_encounter_id = ''NIH_00000001_000_ENC'',
                procedure_code = ''NIH_00000001_000'', procedure_name = ''X-Ray Chest'',
                body_part = ''Chest'', view_position = ''PA'', modality = ''X-Ray'',
                procedure_datetime = 63737205200000000\<rparr>"
    by (simp add: make_procedure_def e) (simp add: ex_xrow_a_def ex_row_a_def)
  have rp: "make_report ex_xrow_a =
      \<lparr>report_id = 0, rep_encounter_id = ''NIH_00000001_000_ENC'',
                rep_type = ''Radiology Report'', rep_status = ''Final'', rep_text = ''text'',
                rep_findings = ''findings'', rep_impression = ''impression'',
                rep_recommendations = ''none'', dictated_datetime = 63737205200000000,
                signed_datetime = 63737212400000000\<rparr>"
    by (simp add: make_report_def e us_per_hour_def) (simp add: ex_xrow_a_def ex_row_a_def)
  show ?thesis
    unfolding load_batch_optimized_def ex_bulk_a
    by (simp add: assms f enc pr rp ex_diagnoses_a Let_def insert_encounter_def
          insert_procedure_def insert_encounter_diagnosis_def insert_report_def
          ex_db_after_a_def ex_db_def)
qed

lemma ex_run_a: "result_db (run_pipeline ex_rng ex_rngs [ex_row_a] ex_db) = Some ex_db_after_a"
proof -
  let ?p1 = "(new_pipeline True ex_db)\<lparr>stats := zero_stats\<lparr>records_processed := 1\<rparr>\<rparr>"
  obtain p' where lb: "load_batch_optimized ?p1 ex_rng [ex_xrow_a] ex_db = Inr (p', ex_db_after_a)"
    using ex_load_batch_a [of ?p1] by (auto simp: new_pipeline_def ex_cache ex_facilities)
  have "load ?p1 ex_rngs [ex_xrow_a] ex_db = Inr (p', ex_db_after_a)"
    using lb by (simp add: load_def BATCH_SIZE_def ex_rngs_def)
  then show ?thesis
    by (simp add: run_pipeline_def run_def ex_transform_a result_db_def)
qed

lemma ex_unique_ab:
  "unique_patients_of [ex_xrow_a, ex_xrow_b] = [(''1'', 58, ''M''), (''1'', 59, ''M'')]"
  by (simp add: unique_patients_of_def ex_xrow_a_def ex_row_a_def ex_xrow_b_def ex_row_b_def)

text \<open>
  Claim C2 on the two example rows, which carry the same external patient id at ages 58
  and 59. \<^verbatim>\<open>drop_duplicates\<close> works on the (id, age, gender) triple, so both rows
  survive it, neither finds a correlation token in the store, and two patients are
  planned for the one external id.
\<close>

theorem bulk_create_duplicates_external_id:
  "planned_patients (bulk_plan (now ex_rng) (unique_patients_of [ex_xrow_a, ex_xrow_b]) ex_db)
     = [(''PAT0005001'', ''nih_patient_1@external.com''),
        (''PAT0005002'', ''nih_patient_1@external.com'')]"
  unfolding ex_unique_ab
  by (simp add: planned_patients_def bulk_plan_def ex_base ex_no_patients bulk_step_def
        dict_get_def Let_def ex_py_str_5001 ex_py_str_5002 ex_zfill_5001 ex_zfill_5002
        patient_email_def ex_rng_def datetime_sub_days_def MAXORDINAL_def us_per_day_def)

lemma ex_wide_max:
  "sql_max_str (filter like_PAT (map patient_id (patients ex_db_wide))) = Some ''PAT9999999''"
  by (simp add: ex_db_wide_def ex_db_def sql_max_str_def like_PAT_def str_max_def)

lemma ex_wide_replace: "replace_all ''PAT'' '''' ''PAT9999999'' = ''9999999''"
  by simp

lemma ex_wide_int: "py_int ''9999999'' = Inr 9999999"
  by (simp add: py_int_def strip_def is_space_def is_sign_def is_digit_def nat_of_digits_def
        digit_val_def)

lemma ex_wide_str: "py_str 10000000 = ''10000000''"
  by (simp add: py_str_def str_of_nat.simps digit_char_def)

lemma ex_wide_base: "next_patient_base ex_db_wide = Inr 9999999"
  by (simp add: next_patient_base_def ex_wide_max ex_wide_replace ex_wide_int)

lemma ex_wide_existing: "existing_patients_of ex_db_wide [patient_email ''7''] = []"
  by (simp add: existing_patients_of_def ex_db_wide_def ex_db_def patient_email_def py_dict_def)

text \<open>
  Claim C9 as stated fails. \<^verbatim>\<open>MAX(patient_id)\<close> compares strings: in a store that
  holds PAT9999999 and PAT10000000 the maximum is PAT9999999, and the id synthesized next
  is PAT10000000, which the store already has.
\<close>

theorem patient_id_collision_counterexample:
  "planned_patient_ids (bulk_plan (now ex_rng) [(''7'', 40, ''F'')] ex_db_wide)
     = [''PAT10000000'']
   \<and> map patient_id (patients ex_db_wide) = [''PAT9999999'', ''PAT10000000'']"
  by (simp add: planned_patient_ids_def bulk_plan_def ex_wide_base ex_wide_existing bulk_step_def
        dict_get_def Let_def ex_wide_str zfill_def is_sign_def ex_rng_def datetime_sub_days_def
        MAXORDINAL_def us_per_day_def)
     (simp add: ex_db_wide_def)

lemma ex_after_fixed_width: "pat_ids_fixed_width 7 ex_db_after_a"
  by (simp add: pat_ids_fixed_width_def pat_id_ok_def ex_db_after_a_def ex_patient_a_def
        is_digit_def)

lemma ex_after_base: "next_patient_base ex_db_after_a = Inr 5001"
proof -
  have m: "sql_max_str (filter like_PAT (map patient_id (patients ex_db_after_a))) = Some ''PAT0005001''"
    by (simp add: ex_db_after_a_def ex_patient_a_def sql_max_str_def like_PAT_def)
  have r: "replace_all ''PAT'' [] ''PAT0005001'' = ''0005001''"
    by simp
  have i: "py_int ''0005001'' = Inr 5001"
    by (simp add: py_int_def strip_def is_space_def is_sign_def is_digit_def nat_of_digits_def
          digit_val_def)
  show ?thesis
    by (simp add: next_patient_base_def m r i)
qed

lemma ex_after_plan:
  "planned_patient_ids (bulk_plan (now ex_rng) [(''9'', 40, ''F'')] ex_db_after_a) = [''PAT0005002'']"
proof -
  have e: "existing_patients_of ex_db_after_a [patient_email ''9''] = []"
    by (simp add: existing_patients_of_def ex_db_after_a_def ex_patient_a_def patient_email_def
          py_dict_def)
  show ?thesis
    by (simp add: planned_patient_ids_def bulk_plan_def ex_after_base e bulk_step_def dict_get_def
          Let_def ex_py_str_5002 ex_zfill_5002 ex_rng_def datetime_sub_days_def MAXORDINAL_def
          us_per_day_def)
qed

text \<open>
  The store left by the example run holds PAT0005001; the next batch, with one unknown
  external id, synthesizes PAT0005002.
\<close>

theorem new_patient_ids_fresh_witness:
  "pat_ids_fixed_width 7 ex_db_after_a
   \<and> next_patient_base ex_db_after_a = Inr 5001
   \<and> planned_patient_ids (bulk_plan (now ex_rng) [(''9'', 40, ''F'')] ex_db_after_a) = [''PAT0005002'']
   \<and> distinct (planned_patient_ids (bulk_plan (now ex_rng) [(''9'', 40, ''F'')] ex_db_after_a))
   \<and> set (planned_patient_ids (bulk_plan (now ex_rng) [(''9'', 40, ''F'')] ex_db_after_a))
        \<inter> set (map patient_id (patients ex_db_after_a)) = {}"
proof -
  have "planned_patient_ids (bulk_plan (now ex_rng) [(''9'', 40, ''F'')] ex_db_after_a) \<noteq> []"
    by (simp add: ex_after_plan)
  then obtain st where bp: "bulk_plan (now ex_rng) [(''9'', 40, ''F'')] ex_db_after_a = Inr st"
    by (cases "bulk_plan (now ex_rng) [(''9'', 40, ''F'')] ex_db_after_a")
       (simp_all add: planned_patient_ids_def)
  have p: "planned_patient_ids (bulk_plan (now ex_rng) [(''9'', 40, ''F'')] ex_db_after_a)
             = map patient_id (new_patients st)"
    by (simp add: bp planned_patient_ids_def)
  have t: "distinct (map patient_id (new_patients st))
     \<and> set (map patient_id (new_patients st)) \<inter> set (map patient_id (patients ex_db_after_a)) = {}"
    using new_patient_ids_fresh [OF ex_after_base bp, of 7] ex_after_fixed_width by blast
  show ?thesis
    using t ex_after_fixed_width ex_after_base ex_after_plan [unfolded p]
    unfolding p by blast
qed

text \<open>
  The example row loaded into the example store, then the same input run again: nothing
  is written and the one record is counted as skipped.
\<close>

theorem load_idempotent_witness:
  "result_db (run_pipeline ex_rng ex_rngs [ex_row_a] ex_db) = Some ex_db_after_a
   \<and> result_db (run_pipeline ex_rng ex_rngs [ex_row_a] ex_db_after_a) = Some ex_db_after_a
   \<and> result_skipped (run_pipeline ex_rng ex_rngs [ex_row_a] ex_db_after_a) = Some 1"
  using load_idempotent [OF ex_run_a, of ex_rng ex_rngs] ex_run_a by simp


section \<open>Results: the key mapping\<close>

lemma digit_val_inj: "is_digit c \<Longrightarrow> is_digit d \<Longrightarrow> digit_val c = digit_val d \<Longrightarrow> c = d"
  unfolding is_digit_def digit_val_def by auto

lemma nat_of_digits_inj:
  "length a = length b \<Longrightarrow> list_all is_digit a \<Longrightarrow> list_all is_digit b
     \<Longrightarrow> nat_of_digits a = nat_of_digits b \<Longrightarrow> a = b"
proof (induction a b rule: list_induct2)
  case Nil
  show ?case by simp
next
  case (Cons x xs y ys)
  have bx: "nat_of_digits xs < 10 ^ length xs" and by': "nat_of_digits ys < 10 ^ length xs"
    using Cons.prems Cons.hyps nat_of_digits_bound [of xs] nat_of_digits_bound [of ys] by auto
  have e: "digit_val x * 10 ^ length xs + nat_of_digits xs
             = digit_val y * 10 ^ length xs + nat_of_digits ys"
    using Cons.prems(3) Cons.hyps by (simp add: nat_of_digits_Cons)
  have d: "digit_val x = digit_val y"
  proof (rule ccontr)
    assume ne: "digit_val x \<noteq> digit_val y"
    define P :: nat where "P = 10 ^ length xs"
    have e': "digit_val x * P + nat_of_digits xs = digit_val y * P + nat_of_digits ys"
      and bx': "nat_of_digits xs < P" and by'': "nat_of_digits ys < P"
      using e bx by' by (simp_all add: P_def)
    show False
    proof (cases "digit_val x < digit_val y")
      case True
      then have "Suc (digit_val x) \<le> digit_val y" by simp
      then have "Suc (digit_val x) * P \<le> digit_val y * P" by (rule mult_le_mono1)
      then show False using e' bx' by simp
    next
      case False
      then have "Suc (digit_val y) \<le> digit_val x" using ne by simp
      then have "Suc (digit_val y) * P \<le> digit_val x * P" by (rule mult_le_mono1)
      then show False using e' by'' by simp
    qed
  qed
  then have "x = y" using Cons.prems digit_val_inj by simp
  moreover have "nat_of_digits xs = nat_of_digits ys" using e d by simp
  then have "xs = ys" using Cons.IH Cons.prems by simp
  ultimately show ?case by simp
qed

lemma key_digits_digits: "list_all is_digit (key_digits s)"
  by (simp add: key_digits_def list_all_iff)

lemma sql_int_key_Inr:
  "sql_int_key s = Inr n \<Longrightarrow> n = int (nat_of_digits (key_digits s)) \<and> key_digits s \<noteq> []
     \<and> n \<le> 2147483647"
  by (auto simp: sql_int_key_def Let_def split: if_splits)

lemma key_format_digits:
  "key_format a = key_format b \<Longrightarrow>
     length (key_digits a) = length (key_digits b) \<and> (key_digits a = key_digits b \<longrightarrow> a = b)"
proof (induction a arbitrary: b)
  case Nil
  then show ?case by (simp add: key_format_def)
next
  case (Cons x xs)
  obtain y ys where b: "b = y # ys"
    using Cons.prems by (cases b) (simp_all add: key_format_def)
  have h: "(if is_digit x then None else Some x) = (if is_digit y then None else Some y)"
    and t: "key_format xs = key_format ys"
    using Cons.prems by (simp_all add: key_format_def b)
  have ih: "length (key_digits xs) = length (key_digits ys)"
    "key_digits xs = key_digits ys \<longrightarrow> xs = ys"
    using Cons.IH [OF t] by simp_all
  show ?case
  proof (cases "is_digit x")
    case True
    then have "is_digit y" using h by (simp split: if_splits)
    then show ?thesis using True ih by (simp add: b key_digits_def)
  next
    case False
    then have "\<not> is_digit y" and "x = y" using h by (simp_all split: if_splits)
    then show ?thesis using False ih by (simp add: b key_digits_def)
  qed
qed

text \<open>
  C3 (key-mapping injectivity), as it holds. Let a natural key map to the integer \<open>n\<close>.
  A second key with the same number of digits maps to \<open>n\<close> exactly when it has the same
  digit string. So two distinct keys of one format, the same characters around digits at
  the same positions, never map to the same integer: this covers the ids written by the
  generator (\<^verbatim>\<open>PAT\<close>, \<^verbatim>\<open>ENC\<close>, \<^verbatim>\<open>FAC\<close>, \<^verbatim>\<open>DIAG\<close> and a fixed number of
  digits) and, among themselves, the encounter ids written by the loader
  (\<^verbatim>\<open>NIH_\<close>, eight digits, \<^verbatim>\<open>_\<close>, three digits, \<^verbatim>\<open>_ENC\<close>).
\<close>

theorem key_mapping_injective_on_equal_digit_count:
  assumes "sql_int_key k1 = Inr n"
  shows "(length (key_digits k1) = length (key_digits k2) \<longrightarrow>
            (sql_int_key k2 = Inr n) = (key_digits k1 = key_digits k2))
       \<and> (key_format k1 = key_format k2 \<longrightarrow> k1 \<noteq> k2 \<longrightarrow> sql_int_key k2 \<noteq> Inr n)"
proof -
  have a: "(sql_int_key k2 = Inr n) = (key_digits k1 = key_digits k2)"
    if len: "length (key_digits k1) = length (key_digits k2)"
  proof
    assume k2: "sql_int_key k2 = Inr n"
    have "nat_of_digits (key_digits k1) = nat_of_digits (key_digits k2)"
      using sql_int_key_Inr [OF assms] sql_int_key_Inr [OF k2] by simp
    then show "key_digits k1 = key_digits k2"
      using nat_of_digits_inj [OF len key_digits_digits key_digits_digits] by simp
  next
    assume "key_digits k1 = key_digits k2"
    then have "sql_int_key k2 = sql_int_key k1"
      by (simp add: sql_int_key_def)
    then show "sql_int_key k2 = Inr n" using assms by simp
  qed
  have b: "sql_int_key k2 \<noteq> Inr n" if f: "key_format k1 = key_format k2" and ne: "k1 \<noteq> k2"
    using key_format_digits [OF f] ne a by blast
  show ?thesis using a b by blast
qed

lemma ex_encounter_id_of: "encounter_id_of ''00000001_000.png'' = ''NIH_00000001_000_ENC''"
  by (simp add: encounter_id_of_def)

lemma ex_encounter_id_of_b: "encounter_id_of ''00000001_001.png'' = ''NIH_00000001_001_ENC''"
  by (simp add: encounter_id_of_def)

lemma ex_key_enc_a: "sql_int_key ''NIH_00000001_000_ENC'' = Inr 1000"
  by (simp add: sql_int_key_def key_digits_def is_digit_def nat_of_digits_def digit_val_def)

text \<open>
  The encounter ids the loader writes for the images \<^verbatim>\<open>00000001_000.png\<close> and
  \<^verbatim>\<open>00000001_001.png\<close> have one format and differ; the first maps to 1000 and the
  second does not.
\<close>

theorem key_mapping_injective_on_equal_digit_count_witness:
  "sql_int_key (encounter_id_of ''00000001_000.png'') = Inr 1000
   \<and> length (key_digits (encounter_id_of ''00000001_000.png''))
       = length (key_digits (encounter_id_of ''00000001_001.png''))
   \<and> key_format (encounter_id_of ''00000001_000.png'')
       = key_format (encounter_id_of ''00000001_001.png'')
   \<and> encounter_id_of ''00000001_000.png'' \<noteq> encounter_id_of ''00000001_001.png''
   \<and> key_digits (encounter_id_of ''00000001_000.png'')
       \<noteq> key_digits (encounter_id_of ''00000001_001.png'')
   \<and> sql_int_key (encounter_id_of ''00000001_001.png'') \<noteq> Inr 1000"
proof -
  have f: "key_format ''NIH_00000001_000_ENC'' = key_format ''NIH_00000001_001_ENC''"
    by (simp add: key_format_def is_digit_def)
  have l: "length (key_digits ''NIH_00000001_000_ENC'') = length (key_digits ''NIH_00000001_001_ENC'')"
    and d: "key_digits ''NIH_00000001_000_ENC'' \<noteq> key_digits ''NIH_00000001_001_ENC''"
    by (simp_all add: key_digits_def is_digit_def)
  have ne: "''NIH_00000001_000_ENC'' \<noteq> ''NIH_00000001_001_ENC''"
    by simp
  have "sql_int_key ''NIH_00000001_001_ENC'' \<noteq> Inr 1000"
    using key_mapping_injective_on_equal_digit_count [OF ex_key_enc_a, of "''NIH_00000001_001_ENC''"]
      f ne by blast
  then show ?thesis
    unfolding ex_encounter_id_of ex_encounter_id_of_b
    using ex_key_enc_a f l d ne by blast
qed

text \<open>
  C3 as stated fails on the encounters. The generator numbers them \<^verbatim>\<open>ENC00000001\<close>,
  \<^verbatim>\<open>ENC00000002\<close>, ...; the loader names the encounter of an image after the image.
  The thousandth generated encounter and the encounter of the image
  \<^verbatim>\<open>00000001_000.png\<close> are two encounters with one integer key, 1000.
\<close>

theorem key_mapping_collision_counterexample:
  "sql_int_key ''ENC00001000'' = Inr 1000
   \<and> sql_int_key (encounter_id_of ''00000001_000.png'') = Inr 1000
   \<and> ''ENC00001000'' \<noteq> encounter_id_of ''00000001_000.png''"
  by (simp add: ex_encounter_id_of sql_int_key_def key_digits_def is_digit_def nat_of_digits_def
        digit_val_def)


section \<open>Results: diagnosis rows in the store\<close>

lemma insert_encounter_diagnosis_rows:
  "encounter_diagnoses (insert_encounter_diagnosis db r) = ed_insert (encounter_diagnoses db) r"
  by (simp add: insert_encounter_diagnosis_def ed_insert_def)

lemma foldl_insert_encounter_diagnosis_rows:
  "encounter_diagnoses (foldl insert_encounter_diagnosis db rs)
     = foldl ed_insert (encounter_diagnoses db) rs"
  by (induction rs arbitrary: db) (simp_all add: insert_encounter_diagnosis_rows)

lemma ed_insert_filter:
  "filter (\<lambda>r. ed_encounter_id r = enc) (ed_insert rows r)
     = (if ed_encounter_id r = enc then ed_insert (filter (\<lambda>r. ed_encounter_id r = enc) rows) r
        else filter (\<lambda>r. ed_encounter_id r = enc) rows)"
  by (auto simp: ed_insert_def encounter_diagnosis_key_def image_iff)

lemma foldl_ed_insert_filter:
  "filter (\<lambda>r. ed_encounter_id r = enc) (foldl ed_insert rows rs)
     = foldl ed_insert (filter (\<lambda>r. ed_encounter_id r = enc) rows)
         (filter (\<lambda>r. ed_encounter_id r = enc) rs)"
proof (induction rs arbitrary: rows)
  case Nil
  then show ?case by simp
next
  case (Cons r rs)
  show ?case
    using Cons.IH [of "ed_insert rows r"] by (simp add: ed_insert_filter)
qed

lemma foldl_ed_insert_count:
  "length (filter Q (foldl ed_insert rows rs)) \<le> length (filter Q rows) + length (filter Q rs)"
proof (induction rs arbitrary: rows)
  case Nil
  then show ?case by simp
next
  case (Cons r rs)
  have a: "length (filter Q (ed_insert rows r)) \<le> length (filter Q rows) + length (filter Q [r])"
    by (simp add: ed_insert_def)
  have b: "length (filter Q (r # rs)) = length (filter Q [r]) + length (filter Q rs)"
    by simp
  have c: "length (filter Q (foldl ed_insert (ed_insert rows r) rs))
             \<le> length (filter Q (ed_insert rows r)) + length (filter Q rs)"
    using Cons.IH [of "ed_insert rows r"] .
  show ?case
    unfolding foldl_Cons b using a c by linarith
qed

lemma foldl_ed_insert_set: "set (foldl ed_insert rows rs) \<subseteq> set rows \<union> set rs"
proof (induction rs arbitrary: rows)
  case Nil
  then show ?case by simp
next
  case (Cons r rs)
  have "set (ed_insert rows r) \<subseteq> set rows \<union> {r}"
    by (auto simp: ed_insert_def)
  then show ?case
    using Cons.IH [of "ed_insert rows r"] by auto
qed

lemma foldl_ed_insert_prefix: "\<exists>ys. foldl ed_insert rows rs = rows @ ys"
proof (induction rs arbitrary: rows)
  case Nil
  then show ?case by simp
next
  case (Cons r rs)
  obtain ys where ys: "foldl ed_insert (ed_insert rows r) rs = ed_insert rows r @ ys"
    using Cons.IH by blast
  show ?case
  proof (cases "encounter_diagnosis_key r \<in> set (map encounter_diagnosis_key rows)")
    case True
    then have "ed_insert rows r = rows" by (simp add: ed_insert_def)
    then show ?thesis using ys by simp
  next
    case False
    then have "ed_insert rows r = rows @ [r]" by (simp add: ed_insert_def)
    then show ?thesis using ys by simp
  qed
qed

lemma foldl_if_nonempty: "(if xs \<noteq> [] then foldl f a xs else a) = foldl f a xs"
  by (cases xs) simp_all

lemma foldl_insert_encounter_eds:
  "encounter_diagnoses (foldl insert_encounter db es) = encounter_diagnoses db"
  by (induction es arbitrary: db) (simp_all add: insert_encounter_def)

lemma foldl_insert_procedure_eds:
  "encounter_diagnoses (foldl insert_procedure db prs) = encounter_diagnoses db"
  by (induction prs arbitrary: db) (simp_all add: insert_procedure_def Let_def)

lemma foldl_insert_report_eds:
  "encounter_diagnoses (foldl insert_report db rs) = encounter_diagnoses db"
  by (induction rs arbitrary: db) (simp_all add: insert_report_def Let_def)

lemma insert_patients_eds:
  "insert_patients db ps = Inr db' \<Longrightarrow> encounter_diagnoses db' = encounter_diagnoses db"
  by (induction ps arbitrary: db) (auto split: if_splits)

lemma bulk_create_patients_eds:
  "bulk_create_patients p orc batch db = Inr (pm, p1, db1) \<Longrightarrow>
     encounter_diagnoses db1 = encounter_diagnoses db \<and> diagnosis_cache p1 = diagnosis_cache p"
  by (auto simp: bulk_create_patients_def Let_def insert_patients_eds
           split: if_splits sum.splits)

lemma row_diagnoses_encounter:
  "filter (\<lambda>r. ed_encounter_id r = enc) (row_diagnoses cache x)
     = (if encounter_id_of (Image_Index (base x)) = enc then row_diagnoses cache x else [])"
proof -
  have "\<forall>r \<in> set (row_diagnoses cache x). ed_encounter_id r = encounter_id_of (Image_Index (base x))"
    using row_diagnoses_member by (auto simp: rank_flag_ok_def)
  then show ?thesis
    by (auto simp: filter_empty_conv filter_id_conv)
qed

lemma rows_of_encounter:
  "filter (\<lambda>r. ed_encounter_id r = enc) (concat (map (row_diagnoses cache) xs))
     = concat (map (row_diagnoses cache)
         (filter (\<lambda>x. encounter_id_of (Image_Index (base x)) = enc) xs))"
  by (induction xs) (simp_all add: row_diagnoses_encounter)

text \<open>One batch: the rows of an encounter after the batch are the rows before it, then
  the rows built for the records of that encounter, inserted in order.\<close>

lemma load_batch_stored:
  assumes "load_batch_optimized p orc batch db = Inr (p', db')"
  shows "diagnosis_cache p' = diagnosis_cache p
    \<and> stored_diagnoses db' enc
        = foldl ed_insert (stored_diagnoses db enc)
            (concat (map (row_diagnoses (diagnosis_cache p))
               (filter (\<lambda>x. encounter_id_of (Image_Index (base x)) = enc) batch)))"
proof -
  obtain pm p1 db1 where b: "bulk_create_patients p orc batch db = Inr (pm, p1, db1)"
    using assms by (auto simp: load_batch_optimized_def split: sum.splits)
  obtain sample where s: "random_choices (rand_facility orc) (facility_ids p1) (length batch) = Inr sample"
    using assms b by (auto simp: load_batch_optimized_def split: sum.splits)
  obtain encs where e: "collect (make_encounter orc pm) (List.enumerate 0 (zip batch sample)) = Inr encs"
    using assms b s by (auto simp: load_batch_optimized_def split: sum.splits)
  have c1: "diagnosis_cache p1 = diagnosis_cache p" and d1: "encounter_diagnoses db1 = encounter_diagnoses db"
    using bulk_create_patients_eds [OF b] by simp_all
  let ?eds = "concat (map (row_diagnoses (diagnosis_cache p)) batch)"
  have c: "diagnosis_cache p' = diagnosis_cache p"
    using assms b s e c1 by (auto simp: load_batch_optimized_def Let_def split: if_splits)
  have "db' = foldl insert_report
                (foldl insert_encounter_diagnosis
                   (foldl insert_procedure (foldl insert_encounter db1 encs)
                      (map make_procedure batch))
                   (concat (map (row_diagnoses (diagnosis_cache p1)) batch)))
                (map make_report batch)"
    using assms b s e by (simp add: load_batch_optimized_def Let_def foldl_if_nonempty)
  then have "encounter_diagnoses db' = foldl ed_insert (encounter_diagnoses db) ?eds"
    using c1 d1
    by (simp add: foldl_insert_report_eds foldl_insert_encounter_diagnosis_rows
          foldl_insert_procedure_eds foldl_insert_encounter_eds)
  then have "stored_diagnoses db' enc
      = foldl ed_insert (stored_diagnoses db enc) (filter (\<lambda>r. ed_encounter_id r = enc) ?eds)"
    by (simp add: stored_diagnoses_def foldl_ed_insert_filter)
  then show ?thesis
    using c by (simp add: rows_of_encounter)
qed

lemma load_batches_stored:
  "load_batches p orcs df ns db = Inr (p', db') \<Longrightarrow>
     diagnosis_cache p' = diagnosis_cache p
     \<and> stored_diagnoses db' enc
         = foldl ed_insert (stored_diagnoses db enc)
             (concat (map (row_diagnoses (diagnosis_cache p))
                (filter (\<lambda>x. encounter_id_of (Image_Index (base x)) = enc)
                   (concat (map (\<lambda>n. take BATCH_SIZE (drop (n * BATCH_SIZE) df)) ns)))))"
proof (induction ns arbitrary: p db)
  case Nil
  then show ?case by simp
next
  case (Cons n ns)
  let ?batch = "take BATCH_SIZE (drop (n * BATCH_SIZE) df)"
  obtain p1 db1 where lb: "load_batch_optimized p (orcs n) ?batch db = Inr (p1, db1)"
    and rest: "load_batches p1 orcs df ns db1 = Inr (p', db')"
    using Cons.prems by (auto simp: Let_def split: sum.splits)
  have a: "diagnosis_cache p1 = diagnosis_cache p"
    "stored_diagnoses db1 enc
        = foldl ed_insert (stored_diagnoses db enc)
            (concat (map (row_diagnoses (diagnosis_cache p))
               (filter (\<lambda>x. encounter_id_of (Image_Index (base x)) = enc) ?batch)))"
    using load_batch_stored [OF lb] by simp_all
  have b: "diagnosis_cache p' = diagnosis_cache p1"
    "stored_diagnoses db' enc
         = foldl ed_insert (stored_diagnoses db1 enc)
             (concat (map (row_diagnoses (diagnosis_cache p1))
                (filter (\<lambda>x. encounter_id_of (Image_Index (base x)) = enc)
                   (concat (map (\<lambda>n. take BATCH_SIZE (drop (n * BATCH_SIZE) df)) ns)))))"
    using Cons.IH [OF rest] by simp_all
  show ?case
    using a b by simp
qed

lemma batches_concat:
  "concat (map (\<lambda>n. take B (drop (n * B) df)) [0..<k]) = take (k * B) df"
proof (induction k)
  case 0
  then show ?case by simp
next
  case (Suc k)
  have "take (k * B + B) df = take (k * B) df @ take B (drop (k * B) df)"
    by (rule take_add)
  then show ?case
    using Suc by (simp add: add.commute)
qed

lemma batches_all:
  assumes "0 < B"
  shows "concat (map (\<lambda>n. take B (drop (n * B) df)) [0..<length df div B + 1]) = df"
proof -
  have "length df < (length df div B + 1) * B"
    using assms by (metis Suc_eq_plus1 dividend_less_div_times mult.commute add.commute mult_Suc)
  then show ?thesis
    by (simp only: batches_concat) simp
qed

lemma load_stored:
  assumes "load p orcs df db = Inr (p', db')"
  shows "stored_diagnoses db' enc
         = foldl ed_insert (stored_diagnoses db enc)
             (concat (map (row_diagnoses (diagnosis_cache p))
                (filter (\<lambda>x. encounter_id_of (Image_Index (base x)) = enc) df)))"
proof (cases "length df = 0")
  case True
  then show ?thesis using assms by (simp add: load_def)
next
  case False
  have lb: "load_batches p orcs df [0..<length df div BATCH_SIZE + 1] db = Inr (p', db')"
    using assms False by (simp add: load_def)
  have pos: "0 < BATCH_SIZE" by (simp add: BATCH_SIZE_def)
  show ?thesis
    using load_batches_stored [OF lb, of enc] by (simp only: batches_all [OF pos])
qed


lemma transform_cache: "diagnosis_cache (fst (transform p orc db df)) = diagnosis_cache p"
  by (simp add: transform_def Let_def)

lemma transform_labels:
  assumes "x \<in> set (out_rows (snd (snd (transform p orc db df))))"
  shows "diagnosis_list x = split_on (CHR ''|'') (Finding_Labels (base x))"
  using assms by (auto simp: transform_def Let_def out_rows_def enrich_def split: if_splits)

lemma filter_singleton_map:
  assumes "filter P (map f xs) = [r]"
  shows "\<exists>x. filter (\<lambda>x. P (f x)) xs = [x] \<and> f x = r"
proof -
  have "map f (filter (\<lambda>x. P (f x)) xs) = [r]"
    using assms by (simp add: filter_map comp_def)
  then show ?thesis
    by (cases "filter (\<lambda>x. P (f x)) xs") auto
qed

lemma first_resolves_label:
  "diagnosis_list x = split_on (CHR ''|'') (Finding_Labels r) \<Longrightarrow>
     first_resolves cache x = first_label_resolves cache r"
  by (simp add: first_resolves_def first_label_resolves_def)

lemma filter_length_mono:
  "(\<And>x. P x \<Longrightarrow> Q x) \<Longrightarrow> length (filter P xs) \<le> length (filter Q xs)"
  by (induction xs) auto

text \<open>The rows stored when the rows built for a record meet an encounter without rows.\<close>

lemma inserted_rows_ranked:
  assumes enc: "encounter_id_of (Image_Index (base x)) = enc"
    and s: "S = foldl ed_insert [] (row_diagnoses cache x)"
  shows "length S \<le> 3 \<and> list_all (rank_flag_ok enc) S \<and> length (filter is_primary S) \<le> 1
    \<and> (first_resolves cache x \<longrightarrow> length (filter primary_rank1 S) = 1)"
proof -
  have rd: "length (row_diagnoses cache x) \<le> 3"
    "length (filter is_primary (row_diagnoses cache x)) \<le> 1"
    using row_diagnoses_ranked [of cache x] by simp_all
  have "length (filter (\<lambda>r. True) S) \<le> length (filter (\<lambda>r. True) (row_diagnoses cache x))"
    unfolding s using foldl_ed_insert_count [of "\<lambda>r. True" "[]" "row_diagnoses cache x"] by simp
  then have a: "length S \<le> 3" using rd(1) by simp
  have "set S \<subseteq> set (row_diagnoses cache x)"
    unfolding s using foldl_ed_insert_set [of "[]" "row_diagnoses cache x"] by simp
  then have b: "list_all (rank_flag_ok enc) S"
    using row_diagnoses_member [of _ cache x] enc by (auto simp: list_all_iff)
  have c: "length (filter is_primary S) \<le> 1"
    unfolding s using foldl_ed_insert_count [of is_primary "[]" "row_diagnoses cache x"] rd(2) by simp
  have d: "length (filter primary_rank1 S) = 1" if fr: "first_resolves cache x"
  proof -
    obtain r rest where r: "row_diagnoses cache x = r # rest" "primary_rank1 r"
      using row_diagnoses_first [OF fr] by blast
    obtain ys where "foldl ed_insert (ed_insert [] r) rest = ed_insert [] r @ ys"
      using foldl_ed_insert_prefix by blast
    then have "S = r # ys"
      unfolding s r(1) by (simp add: ed_insert_def)
    then have "1 \<le> length (filter primary_rank1 S)"
      using r(2) by simp
    moreover have "length (filter primary_rank1 S) \<le> length (filter is_primary S)"
      by (rule filter_length_mono) (simp add: primary_rank1_def)
    ultimately show ?thesis using c by linarith
  qed
  show ?thesis using a b c d by blast
qed

text \<open>
  Claim C7, as it holds in the store. Let a run of the pipeline complete, and take an
  input record that is loaded (its key was not among the loaded procedure codes), that is
  the only record of the input for its encounter, and whose encounter had no diagnosis
  row before the run. Then the diagnosis rows of that encounter in the store after the
  run are the rows built from the record's first three labels as the conflict-safe insert
  keeps them: at most 3 rows, each with a rank between 1 and 3 and primary exactly when
  its rank is 1, at most one of them primary, and exactly one primary row of rank 1 when
  the first label resolves through the ICD-10 mapping and the diagnosis cache.
\<close>

theorem stored_diagnoses_ranked:
  assumes run: "result_db (run_pipeline orc orcs df db) = Some db'"
    and new: "nih_code r \<notin> get_existing_image_indices db"
    and only: "only_row_of_encounter df r"
    and fresh: "stored_diagnoses db (encounter_id_of (Image_Index r)) = []"
  shows "length (stored_diagnoses db' (encounter_id_of (Image_Index r))) \<le> 3
    \<and> list_all (rank_flag_ok (encounter_id_of (Image_Index r)))
         (stored_diagnoses db' (encounter_id_of (Image_Index r)))
    \<and> length (filter is_primary (stored_diagnoses db' (encounter_id_of (Image_Index r)))) \<le> 1
    \<and> (first_label_resolves (load_diagnosis_cache db) r \<longrightarrow>
         length (filter primary_rank1 (stored_diagnoses db' (encounter_id_of (Image_Index r)))) = 1)
    \<and> (\<exists>x. base x = r \<and> diagnosis_list x = split_on (CHR ''|'') (Finding_Labels r)
           \<and> stored_diagnoses db' (encounter_id_of (Image_Index r))
               = encounter_diagnoses
                   (foldl insert_encounter_diagnosis (db\<lparr>encounter_diagnoses := []\<rparr>)
                      (row_diagnoses (load_diagnosis_cache db) x)))"
proof -
  let ?E = "encounter_id_of (Image_Index r)"
  let ?p = "new_pipeline True db"
  let ?T = "transform ?p orc db df"
  let ?cache = "load_diagnosis_cache db"
  have inc: "incremental ?p" and pc: "diagnosis_cache ?p = ?cache"
    by (simp_all add: new_pipeline_def)
  have kept: "kept_rows ?p db df = filter (\<lambda>r. nih_code r \<notin> get_existing_image_indices db) df"
    using inc by (simp add: kept_rows_def)
  have fr: "filter (\<lambda>r'. encounter_id_of (Image_Index r') = ?E) df = [r]"
    using only by (simp add: only_row_of_encounter_def)
  have fk: "filter (\<lambda>r'. encounter_id_of (Image_Index r') = ?E) (kept_rows ?p db df) = [r]"
  proof -
    have "filter (\<lambda>r'. encounter_id_of (Image_Index r') = ?E) (kept_rows ?p db df)
        = filter (\<lambda>r. nih_code r \<notin> get_existing_image_indices db)
            (filter (\<lambda>r'. encounter_id_of (Image_Index r') = ?E) df)"
      unfolding kept by (simp add: conj_commute)
    then show ?thesis using fr new by simp
  qed
  then have ne: "kept_rows ?p db df \<noteq> []" by auto
  then obtain rows where some: "snd (snd ?T) = Some rows"
    using transform_none [of ?p orc db df] by (cases "snd (snd ?T)") auto
  then obtain q where tq: "?T = (q, db, Some rows)"
    using transform_split [of ?p orc db df] by metis
  have qc: "diagnosis_cache q = ?cache"
    using transform_cache [of ?p orc db df] pc by (simp add: tq)
  have mb: "map base rows = kept_rows ?p db df"
    using transform_rows [of ?p orc db df] by (simp add: some out_rows_def)
  have "run ?p orc orcs df db = load q orcs rows db"
    by (simp add: run_def tq)
  then obtain p1 where l: "load q orcs rows db = Inr (p1, db')"
    using run by (auto simp: run_pipeline_def result_db_def split: sum.splits)
  obtain x where x: "filter (\<lambda>x. encounter_id_of (Image_Index (base x)) = ?E) rows = [x]"
      "base x = r"
    using filter_singleton_map [of "\<lambda>r'. encounter_id_of (Image_Index r') = ?E" base rows r] fk mb
    by auto
  have "x \<in> set (filter (\<lambda>x. encounter_id_of (Image_Index (base x)) = ?E) rows)"
    by (simp only: x(1)) simp
  then have "x \<in> set (out_rows (snd (snd ?T)))"
    by (simp add: some out_rows_def)
  then have dl: "diagnosis_list x = split_on (CHR ''|'') (Finding_Labels r)"
    using transform_labels [of x ?p orc db df] x(2) by simp
  have st: "stored_diagnoses db' ?E = foldl ed_insert [] (row_diagnoses ?cache x)"
    using load_stored [OF l, of ?E] fresh by (simp add: x(1) qc)
  have al: "encounter_diagnoses
              (foldl insert_encounter_diagnosis (db\<lparr>encounter_diagnoses := []\<rparr>)
                 (row_diagnoses ?cache x))
            = foldl ed_insert [] (row_diagnoses ?cache x)"
    by (simp add: foldl_insert_encounter_diagnosis_rows)
  have ex: "encounter_id_of (Image_Index (base x)) = ?E"
    by (simp add: x(2))
  have props: "length (stored_diagnoses db' ?E) \<le> 3
    \<and> list_all (rank_flag_ok ?E) (stored_diagnoses db' ?E)
    \<and> length (filter is_primary (stored_diagnoses db' ?E)) \<le> 1
    \<and> (first_resolves ?cache x \<longrightarrow> length (filter primary_rank1 (stored_diagnoses db' ?E)) = 1)"
    using inserted_rows_ranked [OF ex st] .
  have frl: "first_resolves ?cache x = first_label_resolves ?cache r"
    using first_resolves_label [OF dl] .
  have last: "\<exists>x. base x = r \<and> diagnosis_list x = split_on (CHR ''|'') (Finding_Labels r)
           \<and> stored_diagnoses db' ?E
               = encounter_diagnoses
                   (foldl insert_encounter_diagnosis (db\<lparr>encounter_diagnoses := []\<rparr>)
                      (row_diagnoses ?cache x))"
    using x(2) dl st al by metis
  show ?thesis
    using props last unfolding frl by blast
qed


section \<open>The pipeline on two more inputs\<close>

lemma ex_enrich_d: "enrich ex_rng (i, ex_row_d, nih_code ex_row_d) = ex_xrow_d"
proof -
  have c: "nih_code ex_row_d = ''NIH_00000001_001''"
    by (simp add: nih_code_def ex_row_d_def ex_row_b_def)
  have l: "split_on (CHR ''|'') (Finding_Labels ex_row_d) = [''Effusion'']"
    by (simp add: ex_row_d_def ex_row_b_def)
  have s: "first_stripped [''Effusion''] = ''Effusion''"
    by (simp add: first_stripped_def strip_def is_space_def)
  have m: "modality_of (View_Position ex_row_d) = ''X-Ray''"
    by (simp add: modality_of_def MODALITY_MAPPING_def dict_get_def ex_row_d_def ex_row_b_def)
  show ?thesis
    by (simp add: enrich_def Let_def c l s m ex_xrow_d_def ex_rng_def us_per_day_def
          us_per_hour_def date_of_datetime_def)
qed

lemma ex_transform_b:
  "transform (new_pipeline True ex_db) ex_rng ex_db [ex_row_b] =
     ((new_pipeline True ex_db)\<lparr>stats := zero_stats\<lparr>records_processed := 1\<rparr>\<rparr>, ex_db,
      Some [ex_xrow_b])"
  by (simp add: transform_def Let_def ex_existing ex_enrich_b new_pipeline_def)

lemma ex_transform_db:
  "transform (new_pipeline True ex_db) ex_rng ex_db [ex_row_d, ex_row_b] =
     ((new_pipeline True ex_db)\<lparr>stats := zero_stats\<lparr>records_processed := 2\<rparr>\<rparr>, ex_db,
      Some [ex_xrow_d, ex_xrow_b])"
  by (simp add: transform_def Let_def ex_existing ex_enrich_b ex_enrich_d new_pipeline_def)

lemma ex_plan_b:
  "bulk_plan (now ex_rng) [(''1'', 59, ''M'')] ex_db =
     Inr \<lparr>last_id = 5001, new_patients = [ex_patient_b],
          patient_map = [(''1'', ''PAT0005001'')], created = 1\<rparr>"
  by (simp add: bulk_plan_def ex_base ex_no_patients bulk_step_def dict_get_def Let_def
        ex_py_str_5001 ex_zfill_5001 ex_patient_b_def patient_email_def map_gender_def ex_rng_def
        datetime_sub_days_def MAXORDINAL_def date_of_datetime_def us_per_day_def)

lemma ex_unique_b: "unique_patients_of [ex_xrow_b] = [(''1'', 59, ''M'')]"
  by (simp add: unique_patients_of_def ex_xrow_b_def ex_row_b_def)

lemma ex_unique_db: "unique_patients_of [ex_xrow_d, ex_xrow_b] = [(''1'', 59, ''M'')]"
  by (simp add: unique_patients_of_def ex_xrow_b_def ex_xrow_d_def ex_row_d_def ex_row_b_def)

lemma ex_bulk_b:
  "bulk_create_patients p ex_rng [ex_xrow_b] ex_db =
     Inr ([(''1'', ''PAT0005001'')],
          p\<lparr>stats := (stats p)\<lparr>patients_created := patients_created (stats p) + 1\<rparr>\<rparr>,
          ex_db\<lparr>patients := [ex_patient_b]\<rparr>)"
  by (simp add: bulk_create_patients_def ex_unique_b ex_plan_b Let_def)
     (simp add: ex_db_def ex_patient_b_def)

lemma ex_bulk_db:
  "bulk_create_patients p ex_rng [ex_xrow_d, ex_xrow_b] ex_db =
     Inr ([(''1'', ''PAT0005001'')],
          p\<lparr>stats := (stats p)\<lparr>patients_created := patients_created (stats p) + 1\<rparr>\<rparr>,
          ex_db\<lparr>patients := [ex_patient_b]\<rparr>)"
  by (simp add: bulk_create_patients_def ex_unique_db ex_plan_b Let_def)
     (simp add: ex_db_def ex_patient_b_def)

lemma ex_strip_labels:
  "strip ''Pneumonia'' = ''Pneumonia''" "strip ''Effusion'' = ''Effusion''"
  by (simp_all add: strip_def is_space_def)

lemma ex_mapping_labels:
  "dict_get NIH_TO_ICD10_MAPPING ''Pneumonia'' = Some (''J18.9'', ''Pneumonia'')"
  "dict_get NIH_TO_ICD10_MAPPING ''Effusion'' = Some (''J94.8'', ''Pleural Effusion'')"
  by (simp_all add: dict_get_def NIH_TO_ICD10_MAPPING_def)

lemma ex_cache_labels:
  "dict_get [(''J18.9'', ''DIAG001''), (''J94.8'', ''DIAG037'')] ''J18.9'' = Some ''DIAG001''"
  "dict_get [(''J18.9'', ''DIAG001''), (''J94.8'', ''DIAG037'')] ''J94.8'' = Some ''DIAG037''"
  by (simp_all add: dict_get_def)

lemma ex_enc_b: "encounter_id_of (Image_Index ex_row_b) = ''NIH_00000001_001_ENC''"
  by (simp add: encounter_id_of_def ex_row_b_def)

lemma ex_diagnoses_b:
  "row_diagnoses [(''J18.9'', ''DIAG001''), (''J94.8'', ''DIAG037'')] ex_xrow_b =
     [\<lparr>ed_encounter_id = ''NIH_00000001_001_ENC'', ed_diagnosis_id = ''DIAG001'',
       diagnosis_rank = 1, is_primary = True, diagnosis_datetime = 63737205200000000,
       ed_notes = ''NIH diagnosis: Pneumonia''\<rparr>,
      \<lparr>ed_encounter_id = ''NIH_00000001_001_ENC'', ed_diagnosis_id = ''DIAG037'',
       diagnosis_rank = 2, is_primary = False, diagnosis_datetime = 63737205200000000,
       ed_notes = ''NIH diagnosis: Effusion''\<rparr>]"
proof -
  have e: "encounter_id_of (Image_Index (base ex_xrow_b)) = ''NIH_00000001_001_ENC''"
    by (simp add: ex_xrow_b_def ex_enc_b)
  have l: "List.enumerate 1 (take 3 (diagnosis_list ex_xrow_b)) = [(1, ''Pneumonia''), (2, ''Effusion'')]"
    by (simp add: ex_xrow_b_def)
  show ?thesis
    unfolding row_diagnoses_def e l
    by (simp add: Let_def ex_strip_labels ex_mapping_labels ex_cache_labels ex_xrow_b_def)
qed

lemma ex_diagnoses_d:
  "row_diagnoses [(''J18.9'', ''DIAG001''), (''J94.8'', ''DIAG037'')] ex_xrow_d =
     [\<lparr>ed_encounter_id = ''NIH_00000001_001_ENC'', ed_diagnosis_id = ''DIAG037'',
       diagnosis_rank = 1, is_primary = True, diagnosis_datetime = 63737205200000000,
       ed_notes = ''NIH diagnosis: Effusion''\<rparr>]"
proof -
  have e: "encounter_id_of (Image_Index (base ex_xrow_d)) = ''NIH_00000001_001_ENC''"
    by (simp add: ex_xrow_d_def ex_row_d_def encounter_id_of_def ex_row_b_def)
  have l: "List.enumerate 1 (take 3 (diagnosis_list ex_xrow_d)) = [(1, ''Effusion'')]"
    by (simp add: ex_xrow_d_def)
  show ?thesis
    unfolding row_diagnoses_def e l
    by (simp add: Let_def ex_strip_labels ex_mapping_labels ex_cache_labels ex_xrow_d_def)
qed

lemma ex_encounter_b:
  "make_encounter ex_rng [(''1'', ''PAT0005001'')] (i, ex_xrow_b, ''FAC000001'') =
     Inr \<lparr>encounter_id = ''NIH_00000001_001_ENC'', enc_patient_id = ''PAT0005001'',
          enc_facility_id = ''FAC000001'', encounter_date = 737699,
          encounter_datetime = 63737205200000000,
          encounter_type = encounter_types ! (i mod 3)\<rparr>"
  by (simp add: make_encounter_def Let_def dict_get_def ex_rng_def)
     (simp add: ex_xrow_b_def ex_row_b_def ex_encounter_id_of_b)

lemma ex_encounter_d:
  "make_encounter ex_rng [(''1'', ''PAT0005001'')] (i, ex_xrow_d, ''FAC000001'') =
     Inr \<lparr>encounter_id = ''NIH_00000001_001_ENC'', enc_patient_id = ''PAT0005001'',
          enc_facility_id = ''FAC000001'', encounter_date = 737699,
          encounter_datetime = 63737205200000000,
          encounter_type = encounter_types ! (i mod 3)\<rparr>"
  by (simp add: make_encounter_def Let_def dict_get_def ex_rng_def)
     (simp add: ex_xrow_d_def ex_row_d_def encounter_id_of_def ex_row_b_def)

lemma ex_procedure_b:
  "make_procedure ex_xrow_b =
     \<lparr>procedure_id = 0, proc_encounter_id = ''NIH_00000001_001_ENC'',
      procedure_code = ''NIH_00000001_001'', procedure_name = ''X-Ray Chest'',
      body_part = ''Chest'', view_position = ''AP'', modality = ''X-Ray'',
      procedure_datetime = 63737205200000000\<rparr>"
  by (simp add: make_procedure_def) (simp add: ex_xrow_b_def ex_row_b_def ex_encounter_id_of_b)

lemma ex_procedure_d: "make_procedure ex_xrow_d = make_procedure ex_xrow_b"
  by (simp add: make_procedure_def)
     (simp add: ex_xrow_b_def ex_xrow_d_def ex_row_d_def encounter_id_of_def ex_row_b_def)

lemma ex_report_b:
  "make_report ex_xrow_b =
     \<lparr>report_id = 0, rep_encounter_id = ''NIH_00000001_001_ENC'',
      rep_type = ''Radiology Report'', rep_status = ''Final'', rep_text = ''text'',
      rep_findings = ''findings'', rep_impression = ''impression'',
      rep_recommendations = ''none'', dictated_datetime = 63737205200000000,
      signed_datetime = 63737212400000000\<rparr>"
  by (simp add: make_report_def us_per_hour_def) (simp add: ex_xrow_b_def ex_row_b_def ex_encounter_id_of_b)

lemma ex_report_d: "make_report ex_xrow_d = make_report ex_xrow_b"
  by (simp add: make_report_def)
     (simp add: ex_xrow_b_def ex_xrow_d_def ex_row_d_def encounter_id_of_def ex_row_b_def)

lemma ex_load_batch_b:
  assumes "diagnosis_cache p = [(''J18.9'', ''DIAG001''), (''J94.8'', ''DIAG037'')]"
    and "facility_ids p = [''FAC000001'']"
  shows "\<exists>p'. load_batch_optimized p ex_rng [ex_xrow_b] ex_db = Inr (p', ex_db_after_b)"
proof -
  have f: "random_choices (rand_facility ex_rng) [''FAC000001''] (Suc 0) = Inr [''FAC000001'']"
    by (simp add: random_choices_def)
  show ?thesis
    unfolding load_batch_optimized_def ex_bulk_b
    by (simp add: assms f ex_encounter_b ex_procedure_b ex_report_b ex_diagnoses_b Let_def
          insert_encounter_def insert_procedure_def insert_encounter_diagnosis_def
          insert_report_def encounter_diagnosis_key_def procedure_key_def encounter_types_def
          ex_db_after_b_def ex_db_def)
qed

lemma ex_run_b: "result_db (run_pipeline ex_rng ex_rngs [ex_row_b] ex_db) = Some ex_db_after_b"
proof -
  let ?p1 = "(new_pipeline True ex_db)\<lparr>stats := zero_stats\<lparr>records_processed := 1\<rparr>\<rparr>"
  obtain p' where lb: "load_batch_optimized ?p1 ex_rng [ex_xrow_b] ex_db = Inr (p', ex_db_after_b)"
    using ex_load_batch_b [of ?p1] by (auto simp: new_pipeline_def ex_cache ex_facilities)
  have "load ?p1 ex_rngs [ex_xrow_b] ex_db = Inr (p', ex_db_after_b)"
    using lb by (simp add: load_def BATCH_SIZE_def ex_rngs_def)
  then show ?thesis
    by (simp add: run_pipeline_def run_def ex_transform_b result_db_def)
qed

lemma ex_inserts_db:
  fixes E0 E1 :: encounter_row and PR :: procedure_row and D0 D1 D2 :: encounter_diagnosis_row
    and R :: report_row
  assumes "encounter_id E0 = ''NIH_00000001_001_ENC''" "encounter_id E1 = ''NIH_00000001_001_ENC''"
    and "ed_encounter_id D0 = ''NIH_00000001_001_ENC''" "ed_diagnosis_id D0 = ''DIAG037''"
    and "ed_encounter_id D1 = ''NIH_00000001_001_ENC''" "ed_diagnosis_id D1 = ''DIAG001''"
    and "ed_encounter_id D2 = ''NIH_00000001_001_ENC''" "ed_diagnosis_id D2 = ''DIAG037''"
    and "encounters db = []" "procedures db = []" "encounter_diagnoses db = []" "reports db = []"
    and "procedure_seq db = 0" "report_seq db = 0"
  shows "foldl insert_report
           (foldl insert_encounter_diagnosis
              (foldl insert_procedure (foldl insert_encounter db [E0, E1]) [PR, PR])
              [D0, D1, D2])
           [R, R]
         = db\<lparr>encounters := [E0],
               procedures := [PR\<lparr>procedure_id := 1\<rparr>],
               encounter_diagnoses := [D0, D1],
               reports := [R\<lparr>report_id := 1\<rparr>, R\<lparr>report_id := 2\<rparr>],
               procedure_seq := 2, report_seq := 2\<rparr>"
proof -
  have s1: "foldl insert_encounter db [E0, E1] = db\<lparr>encounters := [E0]\<rparr>"
    using assms by (simp add: insert_encounter_def)
  have s2: "foldl insert_procedure (db\<lparr>encounters := [E0]\<rparr>) [PR, PR]
      = db\<lparr>encounters := [E0], procedures := [PR\<lparr>procedure_id := 1\<rparr>], procedure_seq := 2\<rparr>"
    using assms by (simp add: insert_procedure_def Let_def procedure_key_def)
  have s3: "foldl insert_encounter_diagnosis
       (db\<lparr>encounters := [E0], procedures := [PR\<lparr>procedure_id := 1\<rparr>], procedure_seq := 2\<rparr>)
       [D0, D1, D2]
      = db\<lparr>encounters := [E0], procedures := [PR\<lparr>procedure_id := 1\<rparr>], procedure_seq := 2,
            encounter_diagnoses := [D0, D1]\<rparr>"
    using assms by (simp add: insert_encounter_diagnosis_def encounter_diagnosis_key_def)
  have s4: "foldl insert_report
       (db\<lparr>encounters := [E0], procedures := [PR\<lparr>procedure_id := 1\<rparr>], procedure_seq := 2,
            encounter_diagnoses := [D0, D1]\<rparr>)
       [R, R]
      = db\<lparr>encounters := [E0], procedures := [PR\<lparr>procedure_id := 1\<rparr>], procedure_seq := 2,
            encounter_diagnoses := [D0, D1],
            reports := [R\<lparr>report_id := 1\<rparr>, R\<lparr>report_id := 2\<rparr>], report_seq := 2\<rparr>"
    using assms by (simp add: insert_report_def Let_def)
  show ?thesis
    unfolding s1 s2 s3 s4 by simp
qed

lemma ex_load_batch_db:
  assumes "diagnosis_cache p = [(''J18.9'', ''DIAG001''), (''J94.8'', ''DIAG037'')]"
    and "facility_ids p = [''FAC000001'']"
  shows "\<exists>p'. load_batch_optimized p ex_rng [ex_xrow_d, ex_xrow_b] ex_db = Inr (p', ex_db_after_db)"
proof -
  let ?P = "ex_db\<lparr>patients := [ex_patient_b]\<rparr>"
  have f: "random_choices (rand_facility ex_rng) [''FAC000001''] (Suc (Suc 0))
             = Inr [''FAC000001'', ''FAC000001'']"
    by (simp add: random_choices_def upt_rec)
  have en: "List.enumerate 0 [(ex_xrow_d, ''FAC000001''), (ex_xrow_b, ''FAC000001'')]
             = [(0, ex_xrow_d, ''FAC000001''), (Suc 0, ex_xrow_b, ''FAC000001'')]"
    by simp
  have P: "encounters ?P = []" "procedures ?P = []" "encounter_diagnoses ?P = []" "reports ?P = []"
    "procedure_seq ?P = 0" "report_seq ?P = 0"
    by (simp_all add: ex_db_def)
  have ins: "foldl insert_report
           (foldl insert_encounter_diagnosis
              (foldl insert_procedure
                 (foldl insert_encounter ?P
                    [\<lparr>encounter_id = ''NIH_00000001_001_ENC'', enc_patient_id = ''PAT0005001'',
                      enc_facility_id = ''FAC000001'', encounter_date = 737699,
                      encounter_datetime = 63737205200000000,
                      encounter_type = ''Inpatient''\<rparr>,
                     \<lparr>encounter_id = ''NIH_00000001_001_ENC'', enc_patient_id = ''PAT0005001'',
                      enc_facility_id = ''FAC000001'', encounter_date = 737699,
                      encounter_datetime = 63737205200000000,
                      encounter_type = ''Outpatient''\<rparr>])
                 [make_procedure ex_xrow_b, make_procedure ex_xrow_b])
              (row_diagnoses [(''J18.9'', ''DIAG001''), (''J94.8'', ''DIAG037'')] ex_xrow_d
               @ row_diagnoses [(''J18.9'', ''DIAG001''), (''J94.8'', ''DIAG037'')] ex_xrow_b))
           [make_report ex_xrow_b, make_report ex_xrow_b]
         = ex_db_after_db"
    unfolding ex_diagnoses_b ex_diagnoses_d append.simps
    by (subst ex_inserts_db) (simp_all add: P ex_procedure_b ex_report_b ex_db_after_db_def
          ex_db_after_b_def ex_db_def)
  show ?thesis
    unfolding load_batch_optimized_def ex_bulk_db
    by (simp add: assms f en ex_encounter_b ex_encounter_d ex_procedure_d ex_report_d Let_def
          encounter_types_def foldl_if_nonempty ins [simplified])
qed

lemma ex_run_db:
  "result_db (run_pipeline ex_rng ex_rngs [ex_row_d, ex_row_b] ex_db) = Some ex_db_after_db"
proof -
  let ?p1 = "(new_pipeline True ex_db)\<lparr>stats := zero_stats\<lparr>records_processed := 2\<rparr>\<rparr>"
  obtain p' where lb: "load_batch_optimized ?p1 ex_rng [ex_xrow_d, ex_xrow_b] ex_db
      = Inr (p', ex_db_after_db)"
    using ex_load_batch_db [of ?p1] by (auto simp: new_pipeline_def ex_cache ex_facilities)
  have "load ?p1 ex_rngs [ex_xrow_d, ex_xrow_b] ex_db = Inr (p', ex_db_after_db)"
    using lb by (simp add: load_def BATCH_SIZE_def ex_rngs_def)
  then show ?thesis
    by (simp add: run_pipeline_def run_def ex_transform_db result_db_def)
qed

lemma ex_first_label_b: "first_label_resolves (load_diagnosis_cache ex_db) ex_row_b"
proof -
  have l: "split_on (CHR ''|'') (Finding_Labels ex_row_b) = [''Pneumonia'', ''Effusion'']"
    by (simp add: ex_row_b_def)
  show ?thesis
    unfolding first_label_resolves_def l ex_cache
    by (simp add: ex_strip_labels ex_mapping_labels ex_cache_labels)
qed

text \<open>
  The second example row (\<^verbatim>\<open>Pneumonia|Effusion\<close>) loaded alone into the example store:
  its first label resolves, and after the run the store holds for its encounter the
  primary row of rank 1 and one secondary row.
\<close>

theorem stored_diagnoses_ranked_witness:
  "result_db (run_pipeline ex_rng ex_rngs [ex_row_b] ex_db) = Some ex_db_after_b
   \<and> nih_code ex_row_b \<notin> get_existing_image_indices ex_db
   \<and> only_row_of_encounter [ex_row_b] ex_row_b
   \<and> stored_diagnoses ex_db (encounter_id_of (Image_Index ex_row_b)) = []
   \<and> first_label_resolves (load_diagnosis_cache ex_db) ex_row_b
   \<and> length (stored_diagnoses ex_db_after_b (encounter_id_of (Image_Index ex_row_b))) \<le> 3
   \<and> length (filter primary_rank1
         (stored_diagnoses ex_db_after_b (encounter_id_of (Image_Index ex_row_b)))) = 1"
proof -
  have new: "nih_code ex_row_b \<notin> get_existing_image_indices ex_db"
    by (simp add: ex_existing)
  have only: "only_row_of_encounter [ex_row_b] ex_row_b"
    by (simp add: only_row_of_encounter_def)
  have fresh: "stored_diagnoses ex_db (encounter_id_of (Image_Index ex_row_b)) = []"
    by (simp add: stored_diagnoses_def ex_db_def)
  show ?thesis
    using stored_diagnoses_ranked [OF ex_run_b new only fresh] ex_run_b new only fresh
      ex_first_label_b
    by blast
qed

text \<open>
  Claim C7 as stated fails in the store, in two ways. The first example row is labelled
  \<^verbatim>\<open>Atelectasis|Effusion\<close>; the code of Atelectasis (J98.11) is not in the diagnosis
  catalogue, so only the Effusion row is written, with rank 2 and not primary: after the
  run the store holds the encounter and no primary row for it. And when the input names
  one image twice, first labelled \<^verbatim>\<open>Effusion\<close> and then \<^verbatim>\<open>Pneumonia|Effusion\<close>, both
  records belong to one encounter and each contributes a row of rank 1: after the run the
  encounter has two primary rows.
\<close>

theorem primary_diagnosis_counterexample:
  "primary_counts (run_pipeline ex_rng ex_rngs [ex_row_a] ex_db)
     = Some [(''NIH_00000001_000_ENC'', 0)]
   \<and> primary_counts (run_pipeline ex_rng ex_rngs [ex_row_d, ex_row_b] ex_db)
     = Some [(''NIH_00000001_001_ENC'', 2)]"
proof -
  have a: "primary_counts (run_pipeline ex_rng ex_rngs [ex_row_a] ex_db)
     = Some [(''NIH_00000001_000_ENC'', 0)]"
    unfolding primary_counts_def ex_run_a
    by (simp add: ex_db_after_a_def primary_rows_of_def primary_rank1_def)
  have b: "primary_counts (run_pipeline ex_rng ex_rngs [ex_row_d, ex_row_b] ex_db)
     = Some [(''NIH_00000001_001_ENC'', 2)]"
    unfolding primary_counts_def ex_run_db
    by (simp add: ex_db_after_db_def ex_db_after_b_def primary_rows_of_def primary_rank1_def)
  show ?thesis using a b by simp
qed

end
